theory Spec2Isabelle
  imports Complex_Main "HOL-Library.AList"
begin

section \<open>Numbers and shared types\<close>

text \<open>
  The program computes with JavaScript numbers. They are embedded as \<^typ>\<open>real\<close>: the
  arithmetic of the source is read as exact arithmetic, and rounding is outside the
  model. A value of type \<open>number | null\<close> is a \<^typ>\<open>real option\<close>.
\<close>

datatype MetricStatus = Ok | Warning | Critical | Error

datatype Direction = DirIn | DirOut

record SampleCacheEntry =
  inOctets :: real
  outOctets :: real
  timestamp :: real

record Throughput =
  bps :: real
  fresh :: bool

section \<open>Counter sampler (snmp.ts, both revisions)\<close>

definition metricStatus :: "real \<Rightarrow> bool \<Rightarrow> MetricStatus" where
  "metricStatus utilization hasError =
     (if hasError then Error
      else if utilization \<ge> 0.9 then Critical
      else if utilization \<ge> 0.75 then Warning
      else Ok)"

definition computeThroughput ::
  "real option \<Rightarrow> SampleCacheEntry option \<Rightarrow> real \<Rightarrow> Direction \<Rightarrow> Throughput" where
  "computeThroughput current previous deltaMs direction =
     (case current of
        None \<Rightarrow> \<lparr>bps = 0, fresh = False\<rparr>
      | Some cur \<Rightarrow>
          (case previous of
             None \<Rightarrow> \<lparr>bps = 0, fresh = False\<rparr>
           | Some prev \<Rightarrow>
               if deltaMs \<le> 0 then \<lparr>bps = 0, fresh = False\<rparr>
               else
                 let previousValue =
                       (if direction = DirIn then SampleCacheEntry.inOctets prev
                        else SampleCacheEntry.outOctets prev)
                 in if cur < previousValue then \<lparr>bps = 0, fresh = False\<rparr>
                    else
                      let octetDelta = cur - previousValue;
                          bits = octetDelta * 8;
                          seconds = deltaMs / 1000
                      in if seconds = 0 then \<lparr>bps = 0, fresh = False\<rparr>
                         else \<lparr>bps = bits / seconds, fresh = True\<rparr>))"

section \<open>Geometry engine (shared/path-utils.ts, map-renderer.ts, frontend/main.ts)\<close>

record Position =
  x :: real
  y :: real

record SplitPathResult =
  midpoint :: Position
  firstHalf :: "Position list"
  secondHalf :: "Position list"

text \<open>\<open>Math.hypot\<close> of two arguments.\<close>

definition hypot :: "real \<Rightarrow> real \<Rightarrow> real" where
  "hypot a b = sqrt (a\<^sup>2 + b\<^sup>2)"

definition clonePosition :: "Position \<Rightarrow> Position" where
  "clonePosition point = \<lparr>x = x point, y = y point\<rparr>"

text \<open>
  The first loop of \<open>splitPathAtHalf\<close>: the length of every segment, in order. The
  running sum \<open>totalLength\<close> of the source is the sum of this list.
\<close>

fun segmentLengths :: "Position list \<Rightarrow> real list" where
  "segmentLengths (start # end # rest) =
     hypot (x end - x start) (y end - y start) # segmentLengths (end # rest)"
| "segmentLengths _ = []"

definition totalLength :: "Position list \<Rightarrow> real" where
  "totalLength path = sum_list (segmentLengths path)"

text \<open>
  The second loop of \<open>splitPathAtHalf\<close>, from index \<open>i\<close> with the length
  \<open>accumulated\<close> so far; when the loop runs out, the fallback after it.
\<close>

function splitLoop ::
  "Position list \<Rightarrow> real list \<Rightarrow> real \<Rightarrow> nat \<Rightarrow> real \<Rightarrow> SplitPathResult" where
  "splitLoop path segs halfway i accumulated =
     (if i < length segs then
        (let len = segs ! i;
             start = path ! i;
             end = path ! (i + 1)
         in if accumulated + len \<ge> halfway then
              (let remaining = halfway - accumulated;
                   ratio = (if len = 0 then 0 else remaining / len);
                   mid = \<lparr>x = x start + (x end - x start) * ratio,
                          y = y start + (y end - y start) * ratio\<rparr>
               in \<lparr>midpoint = mid,
                   firstHalf = map clonePosition (take (i + 1) path) @ [mid],
                   secondHalf = mid # map clonePosition (drop (i + 1) path)\<rparr>)
            else splitLoop path segs halfway (i + 1) (accumulated + len))
      else
        (let fallbackMidpoint = clonePosition (last path)
         in \<lparr>midpoint = fallbackMidpoint,
             firstHalf = map clonePosition path,
             secondHalf = [fallbackMidpoint]\<rparr>))"
  by pat_completeness auto
termination
  by (relation "measure (\<lambda>(path, segs, halfway, i, accumulated). length segs - i)") auto

declare splitLoop.simps [simp del]

definition splitPathAtHalf :: "Position list \<Rightarrow> SplitPathResult" where
  "splitPathAtHalf path =
     (if length path = 0 then
        (let origin = \<lparr>x = 0, y = 0\<rparr>
         in \<lparr>midpoint = origin, firstHalf = [origin], secondHalf = [origin]\<rparr>)
      else if length path = 1 then
        (let point = clonePosition (path ! 0)
         in \<lparr>midpoint = point, firstHalf = [point], secondHalf = [point]\<rparr>)
      else if totalLength path = 0 then
        (let mid = clonePosition (path ! (length path div 2))
         in \<lparr>midpoint = mid,
             firstHalf = [clonePosition (path ! 0), mid],
             secondHalf = [mid, clonePosition (path ! (length path - 1))]\<rparr>)
      else splitLoop path (segmentLengths path) (totalLength path / 2) 0 0)"

text \<open>
  \<open>computeAutoPath\<close> is written twice in the source, with the same body, in
  map-renderer.ts and in frontend/main.ts. \<open>Math.hypot(dx, dy) || 1\<close> replaces a zero
  distance by 1.
\<close>

definition computeAutoPath :: "Position \<Rightarrow> Position \<Rightarrow> real \<Rightarrow> real \<Rightarrow> Position list" where
  "computeAutoPath from to groupSize index =
     (let dx = x to - x from;
          dy = y to - y from;
          len = (if hypot dx dy = 0 then 1 else hypot dx dy);
          mid = \<lparr>x = x from + dx / 2, y = y from + dy / 2\<rparr>;
          normalizedPerp = \<lparr>x = - dy / len, y = dx / len\<rparr>;
          spacing = min 160 (max 40 (len / 3));
          offset = (index - (groupSize - 1) / 2) * spacing;
          control = \<lparr>x = x mid + x normalizedPerp * offset,
                     y = y mid + y normalizedPerp * offset\<rparr>
      in if groupSize = 1 \<or> \<bar>offset\<bar> < 1 then [from, to] else [from, control, to])"

section \<open>Renderer decisions (map-renderer.ts, frontend/main.ts)\<close>

text \<open>
  A utilization handed to the colour mapping may be \<open>null\<close> or \<open>NaN\<close>, and the source
  tests for both, so the argument type keeps \<open>NaN\<close> apart from the numbers.
\<close>

datatype number = NaN | Num real

record Bucket =
  bucket_min :: real
  bucket_max :: real
  color :: string
  label :: string

definition UTILIZATION_BUCKETS :: "Bucket list" where
  "UTILIZATION_BUCKETS =
     [\<lparr>bucket_min = 0, bucket_max = 0.01, color = ''#0ea5e9'', label = ''0-1%''\<rparr>,
      \<lparr>bucket_min = 0.01, bucket_max = 0.2, color = ''#22c55e'', label = ''1-20%''\<rparr>,
      \<lparr>bucket_min = 0.2, bucket_max = 0.4, color = ''#84cc16'', label = ''20-40%''\<rparr>,
      \<lparr>bucket_min = 0.4, bucket_max = 0.6, color = ''#facc15'', label = ''40-60%''\<rparr>,
      \<lparr>bucket_min = 0.6, bucket_max = 0.8, color = ''#f97316'', label = ''60-80%''\<rparr>,
      \<lparr>bucket_min = 0.8, bucket_max = 0.9, color = ''#ea580c'', label = ''80-90%''\<rparr>,
      \<lparr>bucket_min = 0.9, bucket_max = 0.99, color = ''#ef4444'', label = ''90-99%''\<rparr>,
      \<lparr>bucket_min = 0.99, bucket_max = 1.01, color = ''#991b1b'', label = ''99-100%''\<rparr>]"

definition utilToColor :: "number option \<Rightarrow> string" where
  "utilToColor utilization =
     (case utilization of
        None \<Rightarrow> ''#5a646d''
      | Some NaN \<Rightarrow> ''#5a646d''
      | Some (Num u) \<Rightarrow>
          color (case find (\<lambda>b. u \<ge> bucket_min b \<and> u < bucket_max b)
                        UTILIZATION_BUCKETS of
                   Some bucket \<Rightarrow> bucket
                 | None \<Rightarrow> UTILIZATION_BUCKETS ! (length UTILIZATION_BUCKETS - 1)))"

definition MIN_LINK_WIDTH :: real where
  "MIN_LINK_WIDTH = 2"

definition MAX_LINK_WIDTH :: real where
  "MAX_LINK_WIDTH = 14"

record CapacityRange =
  range_min :: real
  range_max :: real

text \<open>
  \<open>capacityToWidth\<close> of map-renderer.ts. \<open>!capacity\<close> holds for \<open>null\<close> and for 0.
  The copy in frontend/main.ts has the same body and reads the range from a module
  variable.
\<close>

definition capacityToWidth :: "real option \<Rightarrow> CapacityRange option \<Rightarrow> real" where
  "capacityToWidth capacity capacityRange =
     (case capacity of
        None \<Rightarrow> MIN_LINK_WIDTH
      | Some c \<Rightarrow>
          (case capacityRange of
             None \<Rightarrow> MIN_LINK_WIDTH
           | Some r \<Rightarrow>
               if c = 0 then MIN_LINK_WIDTH
               else if c \<le> 0 \<or> range_min r \<le> 0 then MIN_LINK_WIDTH
               else if range_max r = range_min r then (MIN_LINK_WIDTH + MAX_LINK_WIDTH) / 2
               else
                 (let logMin = ln (range_min r);
                      logMax = ln (range_max r);
                      logValue = ln c;
                      t = min 1 (max 0 ((logValue - logMin) / (logMax - logMin)))
                  in MIN_LINK_WIDTH + (MAX_LINK_WIDTH - MIN_LINK_WIDTH) * t)))"

section \<open>Polling a router (src/unnamed/part_000 and src/src/snmp.ts)\<close>

text \<open>
  The source holds two revisions of snmp.ts: src/unnamed/part_000, where an interface
  may have a speed OID and each interface is requested on its own, and src/src/snmp.ts,
  where one request carries the OIDs of all interfaces. \<open>metricStatus\<close> and
  \<open>computeThroughput\<close> above are the same in both, and so is the loop that computes the
  rates and writes the cache.
\<close>

subsection \<open>Configuration and samples\<close>

datatype OidKind = KindIn | KindOut | KindSpeed

record InterfaceConfig =
  name :: string
  oid_in :: string
  oid_out :: string
  max_bandwidth :: "real option"
  oid_speed :: "string option"
  oid_speed_scale :: "real option"
  display_name :: "string option"

record RouterConfig =
  ip :: string
  community :: string
  label :: "string option"
  interfaces :: "InterfaceConfig list"

record InterfaceSample =
  name :: string
  inOctets :: "real option"
  outOctets :: "real option"
  inBps :: real
  outBps :: real
  inUtilization :: real
  outUtilization :: real
  status :: MetricStatus
  maxBandwidth :: real
  fresh :: bool
  error :: "string option"

text \<open>
  \<open>RouterSample.interfaces\<close> is a JavaScript object used as a dictionary: an
  association list in insertion order, where storing under a key that is present
  replaces the value in place (\<^const>\<open>AList.update\<close>).
\<close>

record RouterSample =
  status :: MetricStatus
  interfaces :: "(string \<times> InterfaceSample) list"
  error :: "string option"

text \<open>
  A varbind of the SNMP library. Its \<open>value\<close> has type \<open>unknown\<close>; the program only asks
  whether it is a number.
\<close>

datatype VarbindValue = NumberValue real | OtherValue

record Varbind =
  oid :: string
  type :: nat
  "value" :: VarbindValue

text \<open>
  The SNMP library and the device are outside the repository. \<open>isVarbindError\<close> and
  \<open>varbindError\<close> are the library's functions; \<open>get n oids\<close> is the outcome of the
  request \<open>session.get(oids, ...)\<close> made for the \<open>n\<close>-th interface of the router: a
  rejection with a message, or the varbinds.
\<close>

record Snmp =
  isVarbindError :: "Varbind \<Rightarrow> bool"
  varbindError :: "Varbind \<Rightarrow> string"
  get :: "nat \<Rightarrow> string list \<Rightarrow> string + Varbind list"

record Sanitized =
  oid :: "string option"
  error :: "string option"

record InterfaceTarget =
  iface :: InterfaceConfig
  entries :: "(string \<times> OidKind) list"
  hasCounters :: bool

subsection \<open>Strings\<close>

text \<open>
  Strings are lists of 8-bit characters; \<open>trim\<close> removes the white space characters
  of that range.
\<close>

definition isWhiteSpace :: "char \<Rightarrow> bool" where
  "isWhiteSpace c =
     (c \<in> set [CHR 0x09, CHR 0x0A, CHR 0x0B, CHR 0x0C, CHR 0x0D, CHR 0x20, CHR 0xA0])"

definition trim :: "string \<Rightarrow> string" where
  "trim s = rev (dropWhile isWhiteSpace (rev (dropWhile isWhiteSpace s)))"

fun split_dot :: "string \<Rightarrow> string list" where
  "split_dot [] = [[]]"
| "split_dot (c # cs) =
     (if c = CHR ''.'' then [] # split_dot cs
      else (case split_dot cs of [] \<Rightarrow> [[c]] | s # ss \<Rightarrow> (c # s) # ss))"

fun join_dot :: "string list \<Rightarrow> string" where
  "join_dot [] = []"
| "join_dot [s] = s"
| "join_dot (s # ss) = s @ ''.'' @ join_dot ss"

definition isDigits :: "string \<Rightarrow> bool" where
  "isDigits s = (s \<noteq> [] \<and> list_all (\<lambda>c. c \<in> set ''0123456789'') s)"

text \<open>Truthiness of an optional string: present and not empty.\<close>

definition truthy :: "string option \<Rightarrow> bool" where
  "truthy s = (case s of None \<Rightarrow> False | Some v \<Rightarrow> v \<noteq> [])"

definition sanitizeOid :: "string \<Rightarrow> Sanitized" where
  "sanitizeOid raw =
     (let trimmed = trim raw
      in if trimmed = [] then \<lparr>Sanitized.oid = None, Sanitized.error = Some ''OID is required''\<rparr>
         else
           (let segments = filter (\<lambda>s. s \<noteq> []) (split_dot trimmed)
            in if length segments = 0 then
                 \<lparr>Sanitized.oid = None,
                  Sanitized.error = Some (''OID '' @ [CHR 0x22] @ raw @ [CHR 0x22] @
                                '' is not a dotted numeric string'')\<rparr>
               else
                 (case find (\<lambda>segment. \<not> isDigits segment) segments of
                    Some segment \<Rightarrow>
                      \<lparr>Sanitized.oid = None,
                       Sanitized.error = Some (''OID '' @ [CHR 0x22] @ raw @ [CHR 0x22] @
                                     '' contains invalid segment '' @
                                     [CHR 0x22] @ segment @ [CHR 0x22])\<rparr>
                  | None \<Rightarrow> \<lparr>Sanitized.oid = Some (join_dot segments), Sanitized.error = None\<rparr>)))"

subsection \<open>Polling one router (src/unnamed/part_000, the revision with the speed OID)\<close>

definition parseNumericValue :: "Varbind option \<Rightarrow> real option" where
  "parseNumericValue varbind =
     (case varbind of
        None \<Rightarrow> None
      | Some v \<Rightarrow> (case value v of NumberValue n \<Rightarrow> Some n | OtherValue \<Rightarrow> None))"

definition makeInterfaceSample :: "InterfaceConfig \<Rightarrow> InterfaceSample" where
  "makeInterfaceSample ifc =
     \<lparr>InterfaceSample.name = InterfaceConfig.name ifc,
      InterfaceSample.inOctets = None,
      InterfaceSample.outOctets = None,
      InterfaceSample.inBps = 0,
      InterfaceSample.outBps = 0,
      InterfaceSample.inUtilization = 0,
      InterfaceSample.outUtilization = 0,
      InterfaceSample.status = Ok,
      InterfaceSample.maxBandwidth =
        (case max_bandwidth ifc of
           Some b \<Rightarrow> if b > 0 then b else 0
         | None \<Rightarrow> 0),
      InterfaceSample.fresh = False,
      InterfaceSample.error = None\<rparr>"

definition cacheKey :: "string \<Rightarrow> string \<Rightarrow> string" where
  "cacheKey routerId ifaceName = routerId @ '':'' @ ifaceName"

text \<open>The first loop of \<open>pollRouter\<close>: one interface of the configuration.\<close>

record Preparation =
  samples :: "(string \<times> InterfaceSample) list"
  interfaceTargets :: "InterfaceTarget list"
  hasValidCounterOid :: bool

definition setError :: "string option \<Rightarrow> InterfaceSample \<Rightarrow> InterfaceSample" where
  "setError message s = s\<lparr>InterfaceSample.error := message, InterfaceSample.status := Error\<rparr>"

definition prepareInterface :: "InterfaceConfig \<Rightarrow> Preparation \<Rightarrow> Preparation" where
  "prepareInterface ifc acc =
     (let ifaceSample0 = makeInterfaceSample ifc;
          sanitizedIn = sanitizeOid (oid_in ifc);
          sanitizedOut = sanitizeOid (oid_out ifc);
          validIn = truthy (Sanitized.oid sanitizedIn);
          validOut = truthy (Sanitized.oid sanitizedOut);
          entriesIn = (if validIn then [(the (Sanitized.oid sanitizedIn), KindIn)] else []);
          ifaceSample1 =
            (if validIn then ifaceSample0
             else if truthy (Sanitized.error sanitizedIn)
               then setError (Sanitized.error sanitizedIn) ifaceSample0
             else ifaceSample0);
          entriesOut = (if validOut then [(the (Sanitized.oid sanitizedOut), KindOut)] else []);
          ifaceSample2 =
            (if validOut then ifaceSample1
             else if truthy (Sanitized.error sanitizedOut)
               then setError (Sanitized.error sanitizedOut) ifaceSample1
             else ifaceSample1);
          sanitizedSpeed =
            (if truthy (oid_speed ifc) then Some (sanitizeOid (the (oid_speed ifc))) else None);
          entriesSpeed =
            (case sanitizedSpeed of
               None \<Rightarrow> []
             | Some sp \<Rightarrow>
                 if truthy (Sanitized.oid sp) then [(the (Sanitized.oid sp), KindSpeed)] else []);
          ifaceSample3 =
            (case sanitizedSpeed of
               None \<Rightarrow> ifaceSample2
             | Some sp \<Rightarrow>
                 if truthy (Sanitized.oid sp) then ifaceSample2
                 else if truthy (Sanitized.error sp)
                   then setError (Sanitized.error sp) ifaceSample2
                 else ifaceSample2);
          target = \<lparr>iface = ifc,
                    entries = entriesIn @ entriesOut @ entriesSpeed,
                    hasCounters = (validIn \<or> validOut)\<rparr>
      in \<lparr>samples = AList.update (InterfaceConfig.name ifc) ifaceSample3 (samples acc),
          interfaceTargets = interfaceTargets acc @ [target],
          hasValidCounterOid = (hasValidCounterOid acc \<or> validIn \<or> validOut)\<rparr>)"

text \<open>
  The second loop: the request for one interface and the \<open>forEach\<close> over its varbinds.
  \<open>applyVarbind\<close> is the body of the \<open>forEach\<close> callback for the varbind at \<open>index\<close>.
\<close>

definition applyVarbind ::
  "Snmp \<Rightarrow> real \<Rightarrow> (string \<times> OidKind) list \<Rightarrow> Varbind \<times> nat \<Rightarrow> InterfaceSample
   \<Rightarrow> InterfaceSample" where
  "applyVarbind snmp scale ents vi ifaceSample =
     (let varbind = fst vi; index = snd vi
      in if index \<ge> length ents then ifaceSample
         else
           (let meta = ents ! index
            in if isVarbindError snmp varbind then
                 setError (Some (varbindError snmp varbind)) ifaceSample
               else
                 (case parseNumericValue (Some varbind) of
                    None \<Rightarrow>
                      setError
                        (Some (''Unexpected value type for '' @
                               (case snd meta of
                                  KindSpeed \<Rightarrow> ''speed''
                                | KindIn \<Rightarrow> ''input''
                                | KindOut \<Rightarrow> ''output'') @ '' OID''))
                        ifaceSample
                  | Some numericValue \<Rightarrow>
                      (case snd meta of
                         KindSpeed \<Rightarrow>
                           if numericValue > 0
                           then ifaceSample\<lparr>InterfaceSample.maxBandwidth := numericValue * scale\<rparr>
                           else ifaceSample
                       | KindIn \<Rightarrow> ifaceSample\<lparr>InterfaceSample.inOctets := Some numericValue\<rparr>
                       | KindOut \<Rightarrow> ifaceSample\<lparr>InterfaceSample.outOctets := Some numericValue\<rparr>))))"

definition queryTarget ::
  "Snmp \<Rightarrow> InterfaceTarget \<times> nat \<Rightarrow> (string \<times> InterfaceSample) list
   \<Rightarrow> (string \<times> InterfaceSample) list" where
  "queryTarget snmp tn smps =
     (let target = fst tn; n = snd tn
      in if \<not> hasCounters target then smps
         else
           (case map_of smps (InterfaceConfig.name (iface target)) of
              None \<Rightarrow> smps
            | Some ifaceSample \<Rightarrow>
                (let oidList = map fst (entries target)
                 in if length oidList = 0 then smps
                    else
                      (case get snmp n oidList of
                         Inl message \<Rightarrow>
                           AList.update (InterfaceConfig.name (iface target))
                             (setError (Some message) ifaceSample) smps
                       | Inr varbinds \<Rightarrow>
                           (let scale =
                                  (case oid_speed_scale (iface target) of
                                     Some sc \<Rightarrow> if sc \<noteq> 0 \<and> sc > 0 then sc else 1
                                   | None \<Rightarrow> 1)
                            in AList.update (InterfaceConfig.name (iface target))
                                 (fold (applyVarbind snmp scale (entries target))
                                    (zip varbinds [0..<length varbinds]) ifaceSample)
                                 smps)))))"

text \<open>
  The third loop: rates, utilization, status and the cache write for one interface. The
  sample cache is a map from keys to entries. The first loop stores a sample under the
  name of every interface, so the lookup of the sample cannot fail here; for a missing
  sample the model leaves the state as it is.
\<close>

type_synonym SampleCache = "string \<Rightarrow> SampleCacheEntry option"

definition finishInterface ::
  "string \<Rightarrow> real \<Rightarrow> InterfaceConfig \<Rightarrow> (string \<times> InterfaceSample) list \<times> SampleCache
   \<Rightarrow> (string \<times> InterfaceSample) list \<times> SampleCache" where
  "finishInterface routerId now ifc st =
     (let smps = fst st; sampleCache = snd st
      in case map_of smps (InterfaceConfig.name ifc) of
           None \<Rightarrow> st
         | Some ifaceSample \<Rightarrow>
             (let key = cacheKey routerId (InterfaceConfig.name ifc);
                  previous = sampleCache key;
                  deltaMs = (case previous of Some p \<Rightarrow> now - SampleCacheEntry.timestamp p | None \<Rightarrow> 0);
                  inResult = computeThroughput (InterfaceSample.inOctets ifaceSample) previous deltaMs DirIn;
                  outResult = computeThroughput (InterfaceSample.outOctets ifaceSample) previous deltaMs DirOut;
                  maxBandwidth' =
                    (if InterfaceSample.maxBandwidth ifaceSample > 0
                     then InterfaceSample.maxBandwidth ifaceSample else 1);
                  inUtil = bps inResult / maxBandwidth';
                  outUtil = bps outResult / maxBandwidth';
                  util = max inUtil outUtil;
                  hasError = truthy (InterfaceSample.error ifaceSample);
                  ifaceSample' = ifaceSample
                    \<lparr>InterfaceSample.inBps := bps inResult,
                     InterfaceSample.outBps := bps outResult,
                     InterfaceSample.inUtilization := inUtil,
                     InterfaceSample.outUtilization := outUtil,
                     InterfaceSample.status := metricStatus util hasError,
                     InterfaceSample.fresh := Throughput.fresh inResult \<and> Throughput.fresh outResult\<rparr>;
                  sampleCache' =
                    (case (InterfaceSample.inOctets ifaceSample, InterfaceSample.outOctets ifaceSample) of
                       (Some a, Some b) \<Rightarrow>
                         sampleCache(key \<mapsto>
                           \<lparr>SampleCacheEntry.inOctets = a, SampleCacheEntry.outOctets = b,
                            SampleCacheEntry.timestamp = now\<rparr>)
                     | _ \<Rightarrow> sampleCache)
              in (AList.update (InterfaceConfig.name ifc) ifaceSample' smps, sampleCache')))"

definition statusRank :: "MetricStatus \<Rightarrow> nat" where
  "statusRank s = (case s of Ok \<Rightarrow> 0 | Warning \<Rightarrow> 1 | Critical \<Rightarrow> 2 | Error \<Rightarrow> 3)"

definition combineStatuses :: "MetricStatus list \<Rightarrow> MetricStatus" where
  "combineStatuses statuses =
     foldl (\<lambda>highest current. if statusRank current > statusRank highest then current else highest)
       Ok statuses"

definition pollRouter ::
  "Snmp \<Rightarrow> real \<Rightarrow> string \<Rightarrow> RouterConfig \<Rightarrow> SampleCache \<Rightarrow> RouterSample \<times> SampleCache" where
  "pollRouter snmp now routerId router sampleCache =
     (if length (RouterConfig.interfaces router) = 0 then
        (\<lparr>RouterSample.status = Error, RouterSample.interfaces = [],
          RouterSample.error = Some ''No interfaces configured''\<rparr>,
         sampleCache)
      else
        (let prep = fold prepareInterface (RouterConfig.interfaces router)
                      \<lparr>samples = [], interfaceTargets = [], hasValidCounterOid = False\<rparr>
         in if \<not> hasValidCounterOid prep then
              (\<lparr>RouterSample.status =
                  combineStatuses (map (InterfaceSample.status \<circ> snd) (samples prep)),
                RouterSample.interfaces = samples prep, RouterSample.error = None\<rparr>,
               sampleCache)
            else
              (let polled = fold (queryTarget snmp)
                              (zip (interfaceTargets prep) [0..<length (interfaceTargets prep)])
                              (samples prep);
                   finished = fold (finishInterface routerId now) (RouterConfig.interfaces router)
                            (polled, sampleCache)
               in (\<lparr>RouterSample.status =
                     combineStatuses (map (InterfaceSample.status \<circ> snd) (fst finished)),
                   RouterSample.interfaces = fst finished, RouterSample.error = None\<rparr>,
                   snd finished))))"

subsection \<open>Polling one router (src/src/snmp.ts, the revision with one request per router)\<close>

text \<open>
  In this revision \<open>max_bandwidth\<close> is a required number, there is no speed OID, and one
  request carries the OIDs of all interfaces; the answer is matched to the interfaces
  through \<open>oidMap\<close>. A configuration without \<open>max_bandwidth\<close> is outside the type of
  this revision and is read as capacity 0.
\<close>

definition normalizeOid :: "string \<Rightarrow> string" where
  "normalizeOid s = dropWhile (\<lambda>c. c = CHR ''.'') (trim s)"

definition makeInterfaceSample_v1 :: "InterfaceConfig \<Rightarrow> InterfaceSample" where
  "makeInterfaceSample_v1 ifc =
     \<lparr>InterfaceSample.name = InterfaceConfig.name ifc,
      InterfaceSample.inOctets = None,
      InterfaceSample.outOctets = None,
      InterfaceSample.inBps = 0,
      InterfaceSample.outBps = 0,
      InterfaceSample.inUtilization = 0,
      InterfaceSample.outUtilization = 0,
      InterfaceSample.status = Ok,
      InterfaceSample.maxBandwidth = (case max_bandwidth ifc of Some b \<Rightarrow> b | None \<Rightarrow> 0),
      InterfaceSample.fresh = False,
      InterfaceSample.error = None\<rparr>"

record Preparation_v1 =
  samples_v1 :: "(string \<times> InterfaceSample) list"
  oids :: "string list"
  oidMap :: "string \<Rightarrow> (InterfaceConfig \<times> Direction) option"
  hasValidOid :: bool

definition prepareInterface_v1 :: "InterfaceConfig \<Rightarrow> Preparation_v1 \<Rightarrow> Preparation_v1" where
  "prepareInterface_v1 ifc acc =
     (let ifaceSample0 = makeInterfaceSample_v1 ifc;
          sanitizedIn = sanitizeOid (oid_in ifc);
          sanitizedOut = sanitizeOid (oid_out ifc);
          validIn = truthy (Sanitized.oid sanitizedIn);
          validOut = truthy (Sanitized.oid sanitizedOut);
          normalizedIn = the (Sanitized.oid sanitizedIn);
          normalizedOut = the (Sanitized.oid sanitizedOut);
          oids1 = (if validIn then oids acc @ [normalizedIn] else oids acc);
          oidMap1 = (if validIn then (oidMap acc)(normalizedIn \<mapsto> (ifc, DirIn)) else oidMap acc);
          ifaceSample1 =
            (if validIn then ifaceSample0
             else if truthy (Sanitized.error sanitizedIn)
               then setError (Sanitized.error sanitizedIn) ifaceSample0
             else ifaceSample0);
          oids2 = (if validOut then oids1 @ [normalizedOut] else oids1);
          oidMap2 = (if validOut then oidMap1(normalizedOut \<mapsto> (ifc, DirOut)) else oidMap1);
          ifaceSample2 =
            (if validOut then ifaceSample1
             else if truthy (Sanitized.error sanitizedOut)
               then setError (Sanitized.error sanitizedOut) ifaceSample1
             else ifaceSample1)
      in \<lparr>samples_v1 = AList.update (InterfaceConfig.name ifc) ifaceSample2 (samples_v1 acc),
          oids = oids2,
          oidMap = oidMap2,
          hasValidOid = (hasValidOid acc \<or> validIn \<or> validOut)\<rparr>)"

text \<open>The body of the loop over the varbinds of the answer.\<close>

definition applyVarbind_v1 ::
  "Snmp \<Rightarrow> (string \<Rightarrow> (InterfaceConfig \<times> Direction) option) \<Rightarrow> Varbind
   \<Rightarrow> (string \<times> InterfaceSample) list \<Rightarrow> (string \<times> InterfaceSample) list" where
  "applyVarbind_v1 snmp om varbind smps =
     (case om (normalizeOid (Varbind.oid varbind)) of
        None \<Rightarrow> smps
      | Some meta \<Rightarrow>
          (case map_of smps (InterfaceConfig.name (fst meta)) of
             None \<Rightarrow> smps
           | Some ifaceSample \<Rightarrow>
               AList.update (InterfaceConfig.name (fst meta))
                 (if isVarbindError snmp varbind then
                    setError (Some (varbindError snmp varbind)) ifaceSample
                  else
                    (case parseNumericValue (Some varbind) of
                       None \<Rightarrow>
                         setError
                           (Some (''Unexpected value type for '' @
                                  (if snd meta = DirIn then ''in'' else ''out'') @ '' OID''))
                           ifaceSample
                     | Some current \<Rightarrow>
                         if snd meta = DirIn
                         then ifaceSample\<lparr>InterfaceSample.inOctets := Some current\<rparr>
                         else ifaceSample\<lparr>InterfaceSample.outOctets := Some current\<rparr>))
                 smps))"

text \<open>The loop that marks every interface with the error of a failed request.\<close>

definition failInterface ::
  "string \<Rightarrow> InterfaceConfig \<Rightarrow> (string \<times> InterfaceSample) list
   \<Rightarrow> (string \<times> InterfaceSample) list" where
  "failInterface message ifc smps =
     (case map_of smps (InterfaceConfig.name ifc) of
        None \<Rightarrow> smps
      | Some ifaceSample \<Rightarrow>
          AList.update (InterfaceConfig.name ifc) (setError (Some message) ifaceSample) smps)"

definition pollRouter_v1 ::
  "Snmp \<Rightarrow> real \<Rightarrow> string \<Rightarrow> RouterConfig \<Rightarrow> SampleCache \<Rightarrow> RouterSample \<times> SampleCache" where
  "pollRouter_v1 snmp now routerId router sampleCache =
     (if length (RouterConfig.interfaces router) = 0 then
        (\<lparr>RouterSample.status = Error, RouterSample.interfaces = [],
          RouterSample.error = Some ''No interfaces configured''\<rparr>,
         sampleCache)
      else
        (let prep = fold prepareInterface_v1 (RouterConfig.interfaces router)
                      \<lparr>samples_v1 = [], oids = [], oidMap = Map.empty, hasValidOid = False\<rparr>
         in if \<not> hasValidOid prep then
              (\<lparr>RouterSample.status =
                  combineStatuses (map (InterfaceSample.status \<circ> snd) (samples_v1 prep)),
                RouterSample.interfaces = samples_v1 prep, RouterSample.error = None\<rparr>,
               sampleCache)
            else
              (case get snmp 0 (oids prep) of
                 Inl message \<Rightarrow>
                   (\<lparr>RouterSample.status = Error,
                     RouterSample.interfaces =
                       fold (failInterface message) (RouterConfig.interfaces router)
                         (samples_v1 prep),
                     RouterSample.error = Some message\<rparr>,
                    sampleCache)
               | Inr varbinds \<Rightarrow>
                   (let polled = fold (applyVarbind_v1 snmp (oidMap prep)) varbinds (samples_v1 prep);
                        finished = fold (finishInterface routerId now)
                                     (RouterConfig.interfaces router) (polled, sampleCache)
                    in (\<lparr>RouterSample.status =
                          combineStatuses (map (InterfaceSample.status \<circ> snd) (fst finished)),
                        RouterSample.interfaces = fst finished, RouterSample.error = None\<rparr>,
                       snd finished)))))"

section \<open>Topology, published metrics and the poll loop (shared/types.ts, backend.ts)\<close>

record InterfaceDefinition =
  name :: string
  displayName :: "string option"
  maxBandwidth :: "real option"
  speedOid :: "string option"

record RouterDefinition =
  id' :: string
  label :: string
  position :: Position
  interfaces :: "InterfaceDefinition list"

record LinkDefinition =
  id' :: string
  "from" :: string
  to :: string
  ifaceFrom :: string
  ifaceTo :: string
  label :: "string option"
  path :: "Position list option"

record TopologyDefinition =
  title :: "string option"
  backgroundImage :: string
  mapSize :: "(real \<times> real) option"
  pollIntervalMs :: real
  routers :: "RouterDefinition list"
  links :: "LinkDefinition list"

record InterfaceMetrics =
  name :: string
  inBps :: real
  outBps :: real
  inUtilization :: real
  outUtilization :: real
  status :: MetricStatus
  maxBandwidth :: real
  fresh :: bool
  error :: "string option"

record RouterMetrics =
  id' :: string
  label :: string
  status :: MetricStatus
  interfaces :: "string \<Rightarrow> InterfaceMetrics option"
  error :: "string option"

record LinkMetrics =
  id' :: string
  label :: "string option"
  "from" :: string
  to :: string
  forward :: "InterfaceMetrics option"
  reverse :: "InterfaceMetrics option"
  aggregateUtilization :: "real option"

record MetricsPayload =
  timestamp :: string
  routers :: "string \<Rightarrow> RouterMetrics option"
  links :: "LinkMetrics list"

type_synonym PollSnapshot = "string \<Rightarrow> RouterSample option"

definition noDataInterface :: "string \<Rightarrow> InterfaceDefinition \<Rightarrow> InterfaceMetrics" where
  "noDataInterface message ifd =
     \<lparr>InterfaceMetrics.name = InterfaceDefinition.name ifd,
      InterfaceMetrics.inBps = 0,
      InterfaceMetrics.outBps = 0,
      InterfaceMetrics.inUtilization = 0,
      InterfaceMetrics.outUtilization = 0,
      InterfaceMetrics.status = Error,
      InterfaceMetrics.maxBandwidth =
        (case InterfaceDefinition.maxBandwidth ifd of Some b \<Rightarrow> b | None \<Rightarrow> 0),
      InterfaceMetrics.fresh = False,
      InterfaceMetrics.error = Some message\<rparr>"

definition publishInterface :: "InterfaceSample \<Rightarrow> InterfaceMetrics" where
  "publishInterface ifaceSample =
     \<lparr>InterfaceMetrics.name = InterfaceSample.name ifaceSample,
      InterfaceMetrics.inBps = InterfaceSample.inBps ifaceSample,
      InterfaceMetrics.outBps = InterfaceSample.outBps ifaceSample,
      InterfaceMetrics.inUtilization = InterfaceSample.inUtilization ifaceSample,
      InterfaceMetrics.outUtilization = InterfaceSample.outUtilization ifaceSample,
      InterfaceMetrics.status = InterfaceSample.status ifaceSample,
      InterfaceMetrics.maxBandwidth = InterfaceSample.maxBandwidth ifaceSample,
      InterfaceMetrics.fresh = InterfaceSample.fresh ifaceSample,
      InterfaceMetrics.error = InterfaceSample.error ifaceSample\<rparr>"

definition toRouterMetrics ::
  "PollSnapshot \<Rightarrow> TopologyDefinition \<Rightarrow> (string \<Rightarrow> RouterMetrics option)" where
  "toRouterMetrics snapshot topology =
     fold
       (\<lambda>router metrics.
          case snapshot (RouterDefinition.id' router) of
            None \<Rightarrow>
              metrics(RouterDefinition.id' router \<mapsto>
                \<lparr>RouterMetrics.id' = RouterDefinition.id' router,
                 RouterMetrics.label = RouterDefinition.label router,
                 RouterMetrics.status = Error,
                 RouterMetrics.interfaces =
                   fold (\<lambda>ifd acc. acc(InterfaceDefinition.name ifd \<mapsto>
                                        noDataInterface ''No SNMP data'' ifd))
                     (RouterDefinition.interfaces router) Map.empty,
                 RouterMetrics.error = Some ''No SNMP data''\<rparr>)
          | Some smp \<Rightarrow>
              metrics(RouterDefinition.id' router \<mapsto>
                \<lparr>RouterMetrics.id' = RouterDefinition.id' router,
                 RouterMetrics.label = RouterDefinition.label router,
                 RouterMetrics.status = RouterSample.status smp,
                 RouterMetrics.interfaces =
                   fold (\<lambda>ifd acc.
                           case map_of (RouterSample.interfaces smp) (InterfaceDefinition.name ifd) of
                             None \<Rightarrow>
                               acc(InterfaceDefinition.name ifd \<mapsto>
                                 noDataInterface ''Interface missing from SNMP poll'' ifd)
                           | Some ifaceSample \<Rightarrow>
                               acc(InterfaceDefinition.name ifd \<mapsto> publishInterface ifaceSample))
                     (RouterDefinition.interfaces router) Map.empty,
                 RouterMetrics.error =
                   (if truthy (RouterSample.error smp) then RouterSample.error smp else None)\<rparr>))
       (TopologyDefinition.routers topology) Map.empty"

definition utilisationForInterface :: "InterfaceMetrics option \<Rightarrow> real option" where
  "utilisationForInterface ifm =
     (case ifm of
        None \<Rightarrow> None
      | Some m \<Rightarrow> Some (max (InterfaceMetrics.inUtilization m) (InterfaceMetrics.outUtilization m)))"

definition lookupInterface ::
  "(string \<Rightarrow> RouterMetrics option) \<Rightarrow> string \<Rightarrow> string \<Rightarrow> InterfaceMetrics option" where
  "lookupInterface rts routerId ifaceName =
     (case rts routerId of
        None \<Rightarrow> None
      | Some r \<Rightarrow> RouterMetrics.interfaces r ifaceName)"

definition toLinkMetrics ::
  "(string \<Rightarrow> RouterMetrics option) \<Rightarrow> LinkDefinition list \<Rightarrow> LinkMetrics list" where
  "toLinkMetrics rts lks =
     map (\<lambda>link.
            let forward' = lookupInterface rts (LinkDefinition.from link) (ifaceFrom link);
                reverse' = lookupInterface rts (LinkDefinition.to link) (ifaceTo link);
                forwardUtil = utilisationForInterface forward';
                reverseUtil = utilisationForInterface reverse'
            in \<lparr>LinkMetrics.id' = LinkDefinition.id' link,
                LinkMetrics.label = LinkDefinition.label link,
                LinkMetrics.from = LinkDefinition.from link,
                LinkMetrics.to = LinkDefinition.to link,
                forward = forward',
                reverse = reverse',
                aggregateUtilization =
                  (if forwardUtil \<noteq> None \<or> reverseUtil \<noteq> None
                   then Some (max (case forwardUtil of Some u \<Rightarrow> u | None \<Rightarrow> 0)
                                  (case reverseUtil of Some u \<Rightarrow> u | None \<Rightarrow> 0))
                   else None)\<rparr>)
       lks"

text \<open>
  The state of the server that the poll loop reads and writes: the configuration, the
  last published payload, the path of the last rendered image, the payloads broadcast
  so far, the delays of the timers set for the next run of \<open>pollLoop\<close>, and the messages
  written to the error log.
\<close>

record RuntimeConfig =
  topology :: TopologyDefinition
  routerPollConfig :: "string \<Rightarrow> RouterConfig option"
  pollIntervalMs :: real
  backgroundPath :: string

record Backend =
  config :: RuntimeConfig
  latestMetrics :: "MetricsPayload option"
  latestImagePath :: "string option"
  broadcasts :: "MetricsPayload list"
  timers :: "real list"
  errorLog :: "string list"

text \<open>
  What the outside world does during one run of \<open>pollLoop\<close>: \<open>polled\<close> is the outcome of
  \<open>await pollRouters(...)\<close>, a rejection with its message or the snapshot; \<open>clock\<close> is the
  time stamp; \<open>rendered\<close> is the outcome of \<open>renderMapSnapshot\<close>, a failure with its message
  or the path of the image (or \<open>null\<close>).
\<close>

record Cycle =
  polled :: "string + PollSnapshot"
  clock :: string
  rendered :: "string + string option"

definition broadcast :: "MetricsPayload \<Rightarrow> Backend \<Rightarrow> Backend" where
  "broadcast payload st = st\<lparr>broadcasts := broadcasts st @ [payload]\<rparr>"

text \<open>
  \<open>saveSnapshotImage\<close> catches every failure of the rendering itself. The pruning of old
  image files that follows a successful rendering is outside the model.
\<close>

definition saveSnapshotImage :: "string + string option \<Rightarrow> Backend \<Rightarrow> Backend" where
  "saveSnapshotImage outcome st =
     (case outcome of
        Inl message \<Rightarrow> st\<lparr>errorLog := errorLog st @ [''Failed to render map snapshot'']\<rparr>
      | Inr imagePath \<Rightarrow>
          if truthy imagePath then st\<lparr>latestImagePath := imagePath\<rparr> else st)"

definition setTimeout :: "real \<Rightarrow> Backend \<Rightarrow> Backend" where
  "setTimeout delay st = st\<lparr>timers := timers st @ [delay]\<rparr>"

text \<open>
  \<open>pollLoop\<close> of the later revision of backend.ts: the \<open>try\<close> block, the \<open>catch\<close> and the
  \<open>finally\<close>. The earlier revision is the same without \<open>saveSnapshotImage\<close>.
\<close>

definition pollLoop :: "Cycle \<Rightarrow> Backend \<Rightarrow> Backend" where
  "pollLoop cycle st =
     (let afterTry =
            (case polled cycle of
               Inl message \<Rightarrow> st\<lparr>errorLog := errorLog st @ [''Failed to poll routers'']\<rparr>
             | Inr snapshot \<Rightarrow>
                 (let routers' = toRouterMetrics snapshot (topology (config st));
                      links' = toLinkMetrics routers' (TopologyDefinition.links (topology (config st)));
                      payload = \<lparr>MetricsPayload.timestamp = clock cycle,
                                 MetricsPayload.routers = routers',
                                 MetricsPayload.links = links'\<rparr>;
                      st1 = st\<lparr>latestMetrics := Some payload\<rparr>;
                      st2 = broadcast payload st1
                  in saveSnapshotImage (rendered cycle) st2))
      in setTimeout (RuntimeConfig.pollIntervalMs (config afterTry)) afterTry)"

definition pollLoop_v1 :: "Cycle \<Rightarrow> Backend \<Rightarrow> Backend" where
  "pollLoop_v1 cycle st =
     (let afterTry =
            (case polled cycle of
               Inl message \<Rightarrow> st\<lparr>errorLog := errorLog st @ [''Failed to poll routers'']\<rparr>
             | Inr snapshot \<Rightarrow>
                 (let routers' = toRouterMetrics snapshot (topology (config st));
                      links' = toLinkMetrics routers' (TopologyDefinition.links (topology (config st)));
                      payload = \<lparr>MetricsPayload.timestamp = clock cycle,
                                 MetricsPayload.routers = routers',
                                 MetricsPayload.links = links'\<rparr>;
                      st1 = st\<lparr>latestMetrics := Some payload\<rparr>
                  in broadcast payload st1))
      in setTimeout (RuntimeConfig.pollIntervalMs (config afterTry)) afterTry)"

text \<open>The handler of \<open>GET /api/metrics\<close>: status 204 without a payload, else the payload.\<close>

definition apiMetrics :: "Backend \<Rightarrow> nat \<times> MetricsPayload option" where
  "apiMetrics st = (case latestMetrics st of None \<Rightarrow> (204, None) | Some m \<Rightarrow> (200, Some m))"

section \<open>Link capacities and stroke decisions of the two renderers\<close>

text \<open>\<open>Math.min(...values)\<close> and \<open>Math.max(...values)\<close> on a list that is not empty.\<close>

definition minList :: "real list \<Rightarrow> real" where
  "minList values = fold min (tl values) (hd values)"

definition maxList :: "real list \<Rightarrow> real" where
  "maxList values = fold max (tl values) (hd values)"

text \<open>The candidates that are numbers and positive.\<close>

definition positiveCandidates :: "real option list \<Rightarrow> real list" where
  "positiveCandidates values =
     concat (map (\<lambda>v. case v of Some n \<Rightarrow> if n > 0 then [n] else [] | None \<Rightarrow> []) values)"

definition interfaceUtilization :: "InterfaceMetrics option \<Rightarrow> number option" where
  "interfaceUtilization ifm =
     (case ifm of
        None \<Rightarrow> None
      | Some m \<Rightarrow>
          Some (Num (max (InterfaceMetrics.inUtilization m) (InterfaceMetrics.outUtilization m))))"

text \<open>What a renderer decides for the stroke of one link.\<close>

record LinkStroke =
  width :: real
  forwardColor :: string
  reverseColor :: string

record LinkCapacities =
  capacities :: "real list"
  capacityMap :: "string \<Rightarrow> real option option"

subsection \<open>The offline renderer (map-renderer.ts)\<close>

definition buildRouterMap :: "RouterDefinition list \<Rightarrow> (string \<Rightarrow> RouterDefinition option)" where
  "buildRouterMap rts = fold (\<lambda>router m. m(RouterDefinition.id' router \<mapsto> router)) rts Map.empty"

definition getInterfaceCapacity :: "RouterDefinition option \<Rightarrow> string \<Rightarrow> real option" where
  "getInterfaceCapacity router ifaceName =
     (case router of
        None \<Rightarrow> None
      | Some r \<Rightarrow>
          (case find (\<lambda>candidate. InterfaceDefinition.name candidate = ifaceName)
                  (RouterDefinition.interfaces r) of
             Some ifd \<Rightarrow> InterfaceDefinition.maxBandwidth ifd
           | None \<Rightarrow> None))"

definition computeLinkCapacities ::
  "RouterDefinition list \<Rightarrow> LinkDefinition list \<Rightarrow> LinkCapacities" where
  "computeLinkCapacities rts lks =
     (let routerMap = buildRouterMap rts
      in fold
           (\<lambda>link acc.
              let forwardRouter = routerMap (LinkDefinition.from link);
                  reverseRouter = routerMap (LinkDefinition.to link);
                  forwardCapacity = getInterfaceCapacity forwardRouter (ifaceFrom link);
                  reverseCapacity = getInterfaceCapacity reverseRouter (ifaceTo link);
                  candidates = positiveCandidates [forwardCapacity, reverseCapacity];
                  capacity = (if length candidates \<noteq> 0 then Some (minList candidates) else None)
              in \<lparr>capacities =
                    (case capacity of Some c \<Rightarrow> capacities acc @ [c] | None \<Rightarrow> capacities acc),
                  capacityMap = (capacityMap acc)(LinkDefinition.id' link \<mapsto> capacity)\<rparr>)
           lks \<lparr>capacities = [], capacityMap = Map.empty\<rparr>)"

text \<open>
  The loop over the links in \<open>renderMapSnapshot\<close>, with the stroke that \<open>drawLink\<close>
  gives each link whose two routers exist.
\<close>

definition renderMapSnapshot ::
  "TopologyDefinition \<Rightarrow> MetricsPayload \<Rightarrow> (string \<times> LinkStroke) list" where
  "renderMapSnapshot topo metrics =
     (let routerMap = buildRouterMap (TopologyDefinition.routers topo);
          linkMetricsMap =
            fold (\<lambda>link m. m(LinkMetrics.id' link \<mapsto> link)) (MetricsPayload.links metrics) Map.empty;
          caps = computeLinkCapacities (TopologyDefinition.routers topo) (TopologyDefinition.links topo);
          capacityRange =
            (if length (capacities caps) \<noteq> 0
             then Some \<lparr>range_min = minList (capacities caps), range_max = maxList (capacities caps)\<rparr>
             else None)
      in concat
           (map (\<lambda>link.
                   if routerMap (LinkDefinition.from link) = None \<or>
                      routerMap (LinkDefinition.to link) = None then []
                   else
                     (let linkMetrics = linkMetricsMap (LinkDefinition.id' link);
                          forwardUtil =
                            interfaceUtilization (case linkMetrics of Some m \<Rightarrow> forward m | None \<Rightarrow> None);
                          reverseUtil =
                            interfaceUtilization (case linkMetrics of Some m \<Rightarrow> reverse m | None \<Rightarrow> None);
                          capacity =
                            (case capacityMap caps (LinkDefinition.id' link) of
                               Some c \<Rightarrow> c
                             | None \<Rightarrow> None)
                      in [(LinkDefinition.id' link,
                           \<lparr>width = capacityToWidth capacity capacityRange,
                            forwardColor = utilToColor forwardUtil,
                            reverseColor = utilToColor reverseUtil\<rparr>)]))
              (TopologyDefinition.links topo)))"

subsection \<open>The interactive renderer (frontend/main.ts)\<close>

text \<open>
  The module variables \<open>topology\<close> and \<open>metrics\<close> of the front end are the arguments; the
  variables \<open>linkCapacityMap\<close> and \<open>capacityRange\<close> that \<open>rebuildLinkCapacities\<close> assigns are
  its result. \<open>utilToColor\<close> and \<open>capacityToWidth\<close> have the same bodies as in
  map-renderer.ts.
\<close>

record FrontendCapacities =
  linkCapacityMap :: "string \<Rightarrow> real option option"
  capacityRange :: "CapacityRange option"

definition interfaceDefinitionCapacity ::
  "TopologyDefinition option \<Rightarrow> string \<Rightarrow> string \<Rightarrow> real option" where
  "interfaceDefinitionCapacity topo routerId ifaceName =
     (case topo of
        None \<Rightarrow> None
      | Some t \<Rightarrow>
          (case find (\<lambda>candidate. RouterDefinition.id' candidate = routerId)
                  (TopologyDefinition.routers t) of
             None \<Rightarrow> None
           | Some router \<Rightarrow>
               (case find (\<lambda>candidate. InterfaceDefinition.name candidate = ifaceName)
                       (RouterDefinition.interfaces router) of
                  None \<Rightarrow> None
                | Some ifd \<Rightarrow> InterfaceDefinition.maxBandwidth ifd)))"

definition interfaceMetricCapacity ::
  "MetricsPayload option \<Rightarrow> string \<Rightarrow> string \<Rightarrow> real option" where
  "interfaceMetricCapacity metrics routerId ifaceName =
     (case metrics of
        None \<Rightarrow> None
      | Some m \<Rightarrow>
          (case MetricsPayload.routers m routerId of
             None \<Rightarrow> None
           | Some routerMetrics \<Rightarrow>
               (case RouterMetrics.interfaces routerMetrics ifaceName of
                  None \<Rightarrow> None
                | Some ifaceMetrics \<Rightarrow> Some (InterfaceMetrics.maxBandwidth ifaceMetrics))))"

definition rebuildLinkCapacities ::
  "TopologyDefinition \<Rightarrow> MetricsPayload option \<Rightarrow> FrontendCapacities" where
  "rebuildLinkCapacities topo metrics =
     (let acc =
        fold
          (\<lambda>link acc.
             let forwardMetric =
                   interfaceMetricCapacity metrics (LinkDefinition.from link) (ifaceFrom link);
                 reverseMetric =
                   interfaceMetricCapacity metrics (LinkDefinition.to link) (ifaceTo link);
                 candidates0 = positiveCandidates [forwardMetric, reverseMetric];
                 candidates =
                   (if length candidates0 = 0 then
                      (let forwardDefinition =
                             interfaceDefinitionCapacity (Some topo) (LinkDefinition.from link)
                               (ifaceFrom link);
                           reverseDefinition =
                             interfaceDefinitionCapacity (Some topo) (LinkDefinition.to link)
                               (ifaceTo link)
                       in positiveCandidates [forwardDefinition, reverseDefinition])
                    else candidates0);
                 capacity = (if length candidates \<noteq> 0 then Some (minList candidates) else None)
             in \<lparr>capacities =
                   (case capacity of
                      Some c \<Rightarrow> if c \<noteq> 0 then capacities acc @ [c] else capacities acc
                    | None \<Rightarrow> capacities acc),
                 capacityMap = (capacityMap acc)(LinkDefinition.id' link \<mapsto> capacity)\<rparr>)
          (TopologyDefinition.links topo) \<lparr>capacities = [], capacityMap = Map.empty\<rparr>
      in \<lparr>linkCapacityMap = capacityMap acc,
          capacityRange =
            (if length (capacities acc) \<noteq> 0
             then Some \<lparr>range_min = minList (capacities acc), range_max = maxList (capacities acc)\<rparr>
             else None)\<rparr>)"

definition utilToColor_frontend :: "number option \<Rightarrow> string" where
  "utilToColor_frontend utilization =
     (case utilization of
        None \<Rightarrow> ''#5a646d''
      | Some NaN \<Rightarrow> ''#5a646d''
      | Some (Num u) \<Rightarrow>
          color (case find (\<lambda>b. u \<ge> bucket_min b \<and> u < bucket_max b) UTILIZATION_BUCKETS of
                   Some bucket \<Rightarrow> bucket
                 | None \<Rightarrow> UTILIZATION_BUCKETS ! (length UTILIZATION_BUCKETS - 1)))"

definition capacityToWidth_frontend :: "CapacityRange option \<Rightarrow> real option \<Rightarrow> real" where
  "capacityToWidth_frontend capacityRange' capacity =
     (case capacity of
        None \<Rightarrow> MIN_LINK_WIDTH
      | Some c \<Rightarrow>
          (case capacityRange' of
             None \<Rightarrow> MIN_LINK_WIDTH
           | Some r \<Rightarrow>
               if c = 0 then MIN_LINK_WIDTH
               else if c \<le> 0 \<or> range_min r \<le> 0 then MIN_LINK_WIDTH
               else if range_max r = range_min r then (MIN_LINK_WIDTH + MAX_LINK_WIDTH) / 2
               else
                 (let logMin = ln (range_min r);
                      logMax = ln (range_max r);
                      logValue = ln c;
                      t = min 1 (max 0 ((logValue - logMin) / (logMax - logMin)))
                  in MIN_LINK_WIDTH + (MAX_LINK_WIDTH - MIN_LINK_WIDTH) * t)))"

text \<open>
  The loop over the links in \<open>draw\<close>, after \<open>rebuildLinkCapacities\<close> has run for the
  current topology and metrics.
\<close>

definition draw :: "TopologyDefinition \<Rightarrow> MetricsPayload option \<Rightarrow> (string \<times> LinkStroke) list" where
  "draw topo metrics =
     (let fc = rebuildLinkCapacities topo metrics;
          routerMap =
            fold (\<lambda>router m. m(RouterDefinition.id' router \<mapsto> router))
              (TopologyDefinition.routers topo) Map.empty;
          linkMetricsMap =
            fold (\<lambda>link m. m(LinkMetrics.id' link \<mapsto> link))
              (case metrics of Some m \<Rightarrow> MetricsPayload.links m | None \<Rightarrow> []) Map.empty
      in concat
           (map (\<lambda>link.
                   if routerMap (LinkDefinition.from link) = None \<or>
                      routerMap (LinkDefinition.to link) = None then []
                   else
                     (let metric = linkMetricsMap (LinkDefinition.id' link);
                          forwardUtil =
                            interfaceUtilization (case metric of Some m \<Rightarrow> forward m | None \<Rightarrow> None);
                          reverseUtil =
                            interfaceUtilization (case metric of Some m \<Rightarrow> reverse m | None \<Rightarrow> None);
                          capacity =
                            (case linkCapacityMap fc (LinkDefinition.id' link) of
                               Some c \<Rightarrow> c
                             | None \<Rightarrow> None)
                      in [(LinkDefinition.id' link,
                           \<lparr>width = capacityToWidth_frontend (capacityRange fc) capacity,
                            forwardColor = utilToColor_frontend forwardUtil,
                            reverseColor = utilToColor_frontend reverseUtil\<rparr>)]))
              (TopologyDefinition.links topo)))"

section \<open>Notions used to state the properties\<close>

text \<open>
  The definitions of this section are not functions of the program: they name what the
  theorems about the sample cache and the capacity speak of.
\<close>

text \<open>
  The counters of the sample stored under a name, when both were read as numbers.
\<close>

definition countersRead :: "(string \<times> InterfaceSample) list \<Rightarrow> string \<Rightarrow> (real \<times> real) option" where
  "countersRead smps ifaceName =
     (case map_of smps ifaceName of
        None \<Rightarrow> None
      | Some s \<Rightarrow>
          (case (InterfaceSample.inOctets s, InterfaceSample.outOctets s) of
             (Some a, Some b) \<Rightarrow> Some (a, b)
           | _ \<Rightarrow> None))"

text \<open>The cache entry written at time \<open>now\<close> for a pair of counters.\<close>

definition cacheEntry :: "real \<Rightarrow> real \<times> real \<Rightarrow> SampleCacheEntry" where
  "cacheEntry now ab =
     \<lparr>SampleCacheEntry.inOctets = fst ab, SampleCacheEntry.outOctets = snd ab,
      SampleCacheEntry.timestamp = now\<rparr>"

text \<open>
  An interface writes the cache key \<open>k\<close> when \<open>k\<close> is its key and both its counters were
  read; \<open>lastWriter\<close> is the last such interface of the configuration, if any.
\<close>

definition writesKey ::
  "string \<Rightarrow> (string \<times> InterfaceSample) list \<Rightarrow> string \<Rightarrow> InterfaceConfig \<Rightarrow> bool" where
  "writesKey rid S k ifc =
     (cacheKey rid (InterfaceConfig.name ifc) = k \<and>
      countersRead S (InterfaceConfig.name ifc) \<noteq> None)"

definition lastWriter ::
  "string \<Rightarrow> (string \<times> InterfaceSample) list \<Rightarrow> string \<Rightarrow> InterfaceConfig list
   \<Rightarrow> InterfaceConfig option" where
  "lastWriter rid S k ifs = find (writesKey rid S k) (rev ifs)"

text \<open>
  The first loop of \<open>pollRouter\<close> (part_000) seen from one interface: the target it
  appends and the sample it stores, whatever the accumulator.
\<close>

definition emptyPreparation :: Preparation where
  "emptyPreparation = \<lparr>samples = [], interfaceTargets = [], hasValidCounterOid = False\<rparr>"

definition interfaceTarget :: "InterfaceConfig \<Rightarrow> InterfaceTarget" where
  "interfaceTarget ifc = last (interfaceTargets (prepareInterface ifc emptyPreparation))"

definition preparedSample :: "InterfaceConfig \<Rightarrow> InterfaceSample" where
  "preparedSample ifc = snd (hd (samples (prepareInterface ifc emptyPreparation)))"

text \<open>
  The request of src/unnamed/part_000 for one interface: the OIDs of the configuration
  that are valid, in the order in, out, speed, each with its kind. It is made when the
  in or the out OID is valid. The answer of the device to the request for the \<open>n\<close>-th
  interface: the varbinds, when the request is made and is not rejected.
\<close>

definition validOid :: "string \<Rightarrow> string option" where
  "validOid raw =
     (if truthy (Sanitized.oid (sanitizeOid raw)) then Sanitized.oid (sanitizeOid raw) else None)"

definition requestEntries :: "InterfaceConfig \<Rightarrow> (string \<times> OidKind) list" where
  "requestEntries ifc =
     (case validOid (oid_in ifc) of Some valid \<Rightarrow> [(valid, KindIn)] | None \<Rightarrow> []) @
     (case validOid (oid_out ifc) of Some valid \<Rightarrow> [(valid, KindOut)] | None \<Rightarrow> []) @
     (if truthy (oid_speed ifc)
      then (case validOid (the (oid_speed ifc)) of
              Some valid \<Rightarrow> [(valid, KindSpeed)]
            | None \<Rightarrow> [])
      else [])"

definition requestMade :: "InterfaceConfig \<Rightarrow> bool" where
  "requestMade ifc = (validOid (oid_in ifc) \<noteq> None \<or> validOid (oid_out ifc) \<noteq> None)"

definition answer :: "Snmp \<Rightarrow> nat \<Rightarrow> InterfaceConfig \<Rightarrow> Varbind list option" where
  "answer snmp n ifc =
     (if requestMade ifc then
        (case get snmp n (map fst (requestEntries ifc)) of
           Inl message \<Rightarrow> None
         | Inr varbinds \<Rightarrow> Some varbinds)
      else None)"

text \<open>
  The varbind at position \<open>i\<close> of an answer carries a number for the entries of kind
  \<open>kind\<close> when the request has an entry of that kind at position \<open>i\<close>, the varbind is
  not an error, and its value is a number that satisfies \<open>ok\<close>. \<open>numberRead\<close> is the
  number of the last such varbind of the answer, if there is one.
\<close>

definition carries ::
  "Snmp \<Rightarrow> (string \<times> OidKind) list \<Rightarrow> OidKind \<Rightarrow> (real \<Rightarrow> bool) \<Rightarrow> Varbind list \<Rightarrow> nat \<Rightarrow> bool" where
  "carries snmp ents kind ok varbinds i =
     (i < length ents \<and> snd (ents ! i) = kind \<and> \<not> isVarbindError snmp (varbinds ! i) \<and>
      (case value (varbinds ! i) of NumberValue v \<Rightarrow> ok v | OtherValue \<Rightarrow> False))"

definition numberRead ::
  "Snmp \<Rightarrow> (string \<times> OidKind) list \<Rightarrow> OidKind \<Rightarrow> (real \<Rightarrow> bool) \<Rightarrow> Varbind list \<Rightarrow> real option" where
  "numberRead snmp ents kind ok varbinds =
     (case find (carries snmp ents kind ok varbinds) (rev [0..<length varbinds]) of
        None \<Rightarrow> None
      | Some i \<Rightarrow> parseNumericValue (Some (varbinds ! i)))"

text \<open>
  What the answer of this cycle holds for one interface: the counter of a direction
  read as a number, and the positive speed probed.
\<close>

definition counterRead :: "Snmp \<Rightarrow> nat \<Rightarrow> InterfaceConfig \<Rightarrow> OidKind \<Rightarrow> real option" where
  "counterRead snmp n ifc kind =
     (case answer snmp n ifc of
        None \<Rightarrow> None
      | Some varbinds \<Rightarrow>
          numberRead snmp (requestEntries ifc) kind (\<lambda>v. True) varbinds)"

definition speedProbed :: "Snmp \<Rightarrow> nat \<Rightarrow> InterfaceConfig \<Rightarrow> real option" where
  "speedProbed snmp n ifc =
     (case answer snmp n ifc of
        None \<Rightarrow> None
      | Some varbinds \<Rightarrow>
          numberRead snmp (requestEntries ifc) KindSpeed (\<lambda>v. 0 < v) varbinds)"

text \<open>
  The effective capacity of an interface in this cycle, in the order of priority of the
  program: the probed speed times the scale, else the positive static capacity, else
  unknown.
\<close>

definition speedScale :: "InterfaceConfig \<Rightarrow> real" where
  "speedScale ifc = (case oid_speed_scale ifc of Some sc \<Rightarrow> if 0 < sc then sc else 1 | None \<Rightarrow> 1)"

definition effectiveCapacity :: "Snmp \<Rightarrow> nat \<Rightarrow> InterfaceConfig \<Rightarrow> real option" where
  "effectiveCapacity snmp n ifc =
     (case speedProbed snmp n ifc of
        Some v \<Rightarrow> Some (v * speedScale ifc)
      | None \<Rightarrow>
          (case max_bandwidth ifc of
             Some b \<Rightarrow> if 0 < b then Some b else None
           | None \<Rightarrow> None))"

text \<open>
  The second and the third loop of \<open>pollRouter\<close> seen from one sample: what
  \<open>queryTarget\<close> and \<open>finishInterface\<close> make of the sample of their interface, and the
  sample that \<open>pollRouter\<close> returns for the \<open>n\<close>-th interface of a router with
  interfaces \<open>ifs\<close>.
\<close>

definition queriedSample :: "Snmp \<Rightarrow> InterfaceTarget \<times> nat \<Rightarrow> InterfaceSample \<Rightarrow> InterfaceSample" where
  "queriedSample snmp tn s =
     the (map_of (queryTarget snmp tn [(InterfaceConfig.name (iface (fst tn)), s)])
            (InterfaceConfig.name (iface (fst tn))))"

definition finishedSample ::
  "string \<Rightarrow> real \<Rightarrow> SampleCache \<Rightarrow> InterfaceConfig \<Rightarrow> InterfaceSample \<Rightarrow> InterfaceSample" where
  "finishedSample rid now C ifc s =
     the (map_of (fst (finishInterface rid now ifc ([(InterfaceConfig.name ifc, s)], C)))
            (InterfaceConfig.name ifc))"

definition polledSample ::
  "Snmp \<Rightarrow> real \<Rightarrow> string \<Rightarrow> SampleCache \<Rightarrow> InterfaceConfig list \<Rightarrow> nat \<Rightarrow> InterfaceSample" where
  "polledSample snmp now rid C ifs n =
     (if \<exists>i \<in> set ifs. hasCounters (interfaceTarget i)
      then finishedSample rid now C (ifs ! n)
             (queriedSample snmp (interfaceTarget (ifs ! n), n) (preparedSample (ifs ! n)))
      else preparedSample (ifs ! n))"

text \<open>The time since the previous cache entry, as the third loop computes it.\<close>

definition elapsed :: "real \<Rightarrow> SampleCacheEntry option \<Rightarrow> real" where
  "elapsed now previous =
     (case previous of Some p \<Rightarrow> now - SampleCacheEntry.timestamp p | None \<Rightarrow> 0)"

text \<open>
  The first loop of \<open>pollRouter\<close> (snmp.ts) seen from one interface, and the fields of
  a sample that only the third loop writes.
\<close>

definition emptyPreparation_v1 :: Preparation_v1 where
  "emptyPreparation_v1 = \<lparr>samples_v1 = [], oids = [], oidMap = Map.empty, hasValidOid = False\<rparr>"

definition preparedSample_v1 :: "InterfaceConfig \<Rightarrow> InterfaceSample" where
  "preparedSample_v1 ifc = snd (hd (samples_v1 (prepareInterface_v1 ifc emptyPreparation_v1)))"

definition capacityAndRates :: "InterfaceSample \<Rightarrow> real \<times> real \<times> real \<times> real \<times> real" where
  "capacityAndRates s =
     (InterfaceSample.maxBandwidth s, InterfaceSample.inBps s, InterfaceSample.outBps s,
      InterfaceSample.inUtilization s, InterfaceSample.outUtilization s)"

text \<open>
  The single request of src/src/snmp.ts: the valid counter OIDs of all interfaces in the
  order of the configuration, each with the interface and the direction it is
  configured for, and the answer to it. A varbind carries a number for a requested OID
  when its OID is that OID, it is not an error and its value is a number; the counter
  read for an interface and a direction is the number of the last such varbind of the
  answer for the OID configured there.
\<close>

definition requestEntries_v1 ::
  "InterfaceConfig list \<Rightarrow> (string \<times> InterfaceConfig \<times> Direction) list" where
  "requestEntries_v1 ifs =
     concat (map (\<lambda>ifc.
       (case validOid (oid_in ifc) of Some valid \<Rightarrow> [(valid, (ifc, DirIn))] | None \<Rightarrow> []) @
       (case validOid (oid_out ifc) of Some valid \<Rightarrow> [(valid, (ifc, DirOut))] | None \<Rightarrow> []))
       ifs)"

definition answer_v1 :: "Snmp \<Rightarrow> InterfaceConfig list \<Rightarrow> Varbind list option" where
  "answer_v1 snmp ifs =
     (if requestEntries_v1 ifs = [] then None
      else (case get snmp 0 (map fst (requestEntries_v1 ifs)) of
              Inl message \<Rightarrow> None
            | Inr varbinds \<Rightarrow> Some varbinds))"

definition carries_v1 :: "Snmp \<Rightarrow> string option \<Rightarrow> Varbind \<Rightarrow> bool" where
  "carries_v1 snmp requested varbind =
     (requested = Some (normalizeOid (Varbind.oid varbind)) \<and> \<not> isVarbindError snmp varbind \<and>
      (case value varbind of NumberValue v \<Rightarrow> True | OtherValue \<Rightarrow> False))"

definition counterRead_v1 ::
  "Snmp \<Rightarrow> InterfaceConfig list \<Rightarrow> InterfaceConfig \<Rightarrow> Direction \<Rightarrow> real option" where
  "counterRead_v1 snmp ifs ifc direction =
     (case answer_v1 snmp ifs of
        None \<Rightarrow> None
      | Some varbinds \<Rightarrow>
          (case find (carries_v1 snmp
                        (validOid (if direction = DirIn then oid_in ifc else oid_out ifc)))
                  (rev varbinds) of
             None \<Rightarrow> None
           | Some varbind \<Rightarrow> parseNumericValue (Some varbind)))"

text \<open>
  A varbind that \<open>oidMap\<close> attributes to the interface named \<open>m\<close> and to a direction,
  and that carries a number.
\<close>

definition attributed ::
  "Snmp \<Rightarrow> (string \<Rightarrow> (InterfaceConfig \<times> Direction) option) \<Rightarrow> string \<Rightarrow> Direction \<Rightarrow> Varbind
   \<Rightarrow> bool" where
  "attributed snmp om m direction varbind =
     ((case om (normalizeOid (Varbind.oid varbind)) of
         None \<Rightarrow> False
       | Some meta \<Rightarrow> InterfaceConfig.name (fst meta) = m \<and> snd meta = direction) \<and>
      \<not> isVarbindError snmp varbind \<and>
      (case value varbind of NumberValue v \<Rightarrow> True | OtherValue \<Rightarrow> False))"

section \<open>Concrete configurations\<close>

text \<open>
  A router with one interface and a static capacity, a router with one interface whose
  capacity comes from a speed OID only, and an SNMP library that answers every request
  with a given response and takes type 128 for a varbind error. They are the inputs at
  which the theorems below are evaluated.
\<close>

definition example_interface :: InterfaceConfig where
  "example_interface =
     \<lparr>InterfaceConfig.name = ''eth0'', oid_in = ''.1.1'', oid_out = ''1.2'',
      max_bandwidth = Some 1000, oid_speed = None, oid_speed_scale = None,
      display_name = None\<rparr>"

definition example_router :: RouterConfig where
  "example_router =
     \<lparr>ip = ''10.0.0.1'', community = ''public'', RouterConfig.label = None,
      RouterConfig.interfaces = [example_interface]\<rparr>"

definition example_snmp :: "(string + Varbind list) \<Rightarrow> Snmp" where
  "example_snmp response =
     \<lparr>isVarbindError = (\<lambda>v. type v = 128),
      varbindError = (\<lambda>v. ''NoSuchObject''),
      get = (\<lambda>n oids. response)\<rparr>"

definition speed_interface :: InterfaceConfig where
  "speed_interface =
     \<lparr>InterfaceConfig.name = ''eth0'', oid_in = ''.1.1'', oid_out = ''1.2'',
      max_bandwidth = None, oid_speed = Some ''1.3'', oid_speed_scale = None,
      display_name = None\<rparr>"

definition speed_router :: RouterConfig where
  "speed_router =
     \<lparr>ip = ''10.0.0.1'', community = ''public'', RouterConfig.label = None,
      RouterConfig.interfaces = [speed_interface]\<rparr>"

text \<open>
  The response to the request for the counters and the speed of \<open>eth0\<close>: 1000 octets in,
  0 octets out, and the given speed.
\<close>

definition speed_response :: "real \<Rightarrow> string + Varbind list" where
  "speed_response speed =
     Inr [\<lparr>Varbind.oid = ''1.1'', type = 65, value = NumberValue 1000\<rparr>,
          \<lparr>Varbind.oid = ''1.2'', type = 65, value = NumberValue 0\<rparr>,
          \<lparr>Varbind.oid = ''1.3'', type = 66, value = NumberValue speed\<rparr>]"

definition speed_cache :: SampleCache where
  "speed_cache = [''r1:eth0'' \<mapsto> cacheEntry 0 (0, 0)]"

text \<open>
  What one poll of that router publishes for \<open>eth0\<close>, 1000 ms after a cache entry with
  both counters at 0, when the device reports the given speed.
\<close>

definition published :: "real \<Rightarrow> InterfaceMetrics" where
  "published speed =
     publishInterface
       (the (map_of
          (RouterSample.interfaces
             (fst (pollRouter (example_snmp (speed_response speed)) 1000 ''r1'' speed_router
                     speed_cache)))
          ''eth0''))"

text \<open>
  A topology of two routers whose interfaces have a speed OID and no static capacity,
  joined by one link, and the payload of a poll in which both interfaces were probed at
  1000 bit/s.
\<close>

definition drift_interface :: InterfaceDefinition where
  "drift_interface =
     \<lparr>InterfaceDefinition.name = ''e0'', displayName = Some ''e0'',
      InterfaceDefinition.maxBandwidth = None, speedOid = Some ''1.3''\<rparr>"

definition drift_topology :: TopologyDefinition where
  "drift_topology =
     \<lparr>title = Some ''TS Weathermap'',
      backgroundImage = ''/background.png'',
      mapSize = None,
      TopologyDefinition.pollIntervalMs = 5000,
      TopologyDefinition.routers =
        [\<lparr>RouterDefinition.id' = ''a'', RouterDefinition.label = ''a'',
          position = \<lparr>x = 0, y = 0\<rparr>, RouterDefinition.interfaces = [drift_interface]\<rparr>,
         \<lparr>RouterDefinition.id' = ''b'', RouterDefinition.label = ''b'',
          position = \<lparr>x = 300, y = 400\<rparr>, RouterDefinition.interfaces = [drift_interface]\<rparr>],
      TopologyDefinition.links =
        [\<lparr>LinkDefinition.id' = ''l1'', LinkDefinition.from = ''a'', LinkDefinition.to = ''b'',
          ifaceFrom = ''e0'', ifaceTo = ''e0'', LinkDefinition.label = None, path = None\<rparr>]\<rparr>"

definition drift_sample :: RouterSample where
  "drift_sample =
     \<lparr>RouterSample.status = Ok,
      RouterSample.interfaces =
        [(''e0'',
          \<lparr>InterfaceSample.name = ''e0'',
           InterfaceSample.inOctets = Some 2000, InterfaceSample.outOctets = Some 1000,
           InterfaceSample.inBps = 500, InterfaceSample.outBps = 100,
           InterfaceSample.inUtilization = 0.5, InterfaceSample.outUtilization = 0.1,
           InterfaceSample.status = Ok, InterfaceSample.maxBandwidth = 1000,
           InterfaceSample.fresh = True, InterfaceSample.error = None\<rparr>)],
      RouterSample.error = None\<rparr>"

definition drift_metrics :: MetricsPayload where
  "drift_metrics =
     (let routers' = toRouterMetrics [''a'' \<mapsto> drift_sample, ''b'' \<mapsto> drift_sample] drift_topology
      in \<lparr>MetricsPayload.timestamp = ''2025-01-01T00:00:00.000Z'',
          MetricsPayload.routers = routers',
          MetricsPayload.links = toLinkMetrics routers' (TopologyDefinition.links drift_topology)\<rparr>)"

text \<open>
  A router whose interfaces \<open>a\<close> and \<open>b\<close> are configured with the same in-octets OID, and
  a device that answers every request with one varbind per requested OID, in order:
  100 for 1.1, 200 for 1.2 and 300 for every other OID.
\<close>

definition shared_router :: RouterConfig where
  "shared_router =
     \<lparr>ip = ''10.0.0.1'', community = ''public'', RouterConfig.label = None,
      RouterConfig.interfaces =
        [\<lparr>InterfaceConfig.name = ''a'', oid_in = ''1.1'', oid_out = ''1.2'',
          max_bandwidth = Some 1000, oid_speed = None, oid_speed_scale = None,
          display_name = None\<rparr>,
         \<lparr>InterfaceConfig.name = ''b'', oid_in = ''1.1'', oid_out = ''1.3'',
          max_bandwidth = Some 1000, oid_speed = None, oid_speed_scale = None,
          display_name = None\<rparr>]\<rparr>"

definition counting_snmp :: Snmp where
  "counting_snmp =
     \<lparr>isVarbindError = (\<lambda>v. type v = 128),
      varbindError = (\<lambda>v. ''NoSuchObject''),
      get = (\<lambda>n oids. Inr (map (\<lambda>oid. \<lparr>Varbind.oid = oid, type = 65,
               value = NumberValue (if oid = ''1.1'' then 100 else if oid = ''1.2'' then 200 else 300)\<rparr>)
             oids))\<rparr>"

text \<open>
  A router with one interface and the given static capacity, and what one poll of it by
  src/src/snmp.ts publishes for \<open>eth0\<close>, 1000 ms after a cache entry with both counters
  at 0, when the device answers 1000 octets in and 0 octets out.
\<close>

definition static_router :: "real \<Rightarrow> RouterConfig" where
  "static_router capacity =
     \<lparr>ip = ''10.0.0.1'', community = ''public'', RouterConfig.label = None,
      RouterConfig.interfaces =
        [\<lparr>InterfaceConfig.name = ''eth0'', oid_in = ''.1.1'', oid_out = ''1.2'',
          max_bandwidth = Some capacity, oid_speed = None, oid_speed_scale = None,
          display_name = None\<rparr>]\<rparr>"

definition published_v1 :: "real \<Rightarrow> InterfaceMetrics" where
  "published_v1 capacity =
     publishInterface
       (the (map_of
          (RouterSample.interfaces
             (fst (pollRouter_v1 (example_snmp (speed_response 0)) 1000 ''r1''
                     (static_router capacity) speed_cache)))
          ''eth0''))"

text \<open>
  A cache with an entry for \<open>eth0\<close> of router \<open>r1\<close> and an entry for an interface that is
  no longer configured, and the answer to the request for \<open>eth0\<close>: 2000 octets in and
  the given value for the octets out.
\<close>

definition example_cache :: SampleCache where
  "example_cache = [''r1:eth0'' \<mapsto> cacheEntry 0 (7, 8), ''r1:gone'' \<mapsto> cacheEntry 0 (1, 2)]"

definition example_answer :: "VarbindValue \<Rightarrow> Varbind list" where
  "example_answer out =
     [\<lparr>Varbind.oid = ''1.1'', type = 65, value = NumberValue 2000\<rparr>,
      \<lparr>Varbind.oid = ''1.2'', type = 65, value = out\<rparr>]"

section \<open>Properties of the counter sampler\<close>

text \<open>
  C8. For every utilization and every error flag: an error flag gives status error
  whatever the utilization; without the flag the status is critical from 0.90 on,
  warning from 0.75 up to (not including) 0.90, and ok below 0.75.
\<close>

theorem metricStatus_cases:
  "(hasError \<longrightarrow> metricStatus u hasError = Error) \<and>
   (\<not> hasError \<and> u \<ge> 0.9 \<longrightarrow> metricStatus u hasError = Critical) \<and>
   (\<not> hasError \<and> 0.75 \<le> u \<and> u < 0.9 \<longrightarrow> metricStatus u hasError = Warning) \<and>
   (\<not> hasError \<and> u < 0.75 \<longrightarrow> metricStatus u hasError = Ok)"
  by (simp add: metricStatus_def)

theorem metricStatus_cases_witness:
  "metricStatus 0.10 True = Error \<and> metricStatus 0.95 False = Critical \<and>
   metricStatus 0.80 False = Warning \<and> metricStatus 0.10 False = Ok"
  using metricStatus_cases [of True "0.10"] metricStatus_cases [of False "0.95"]
    metricStatus_cases [of False "0.80"] metricStatus_cases [of False "0.10"]
  by simp

text \<open>
  C1. With a current counter value, a previous cache entry, a positive elapsed time and
  a counter that did not go backwards, the rate is (current - previous) * 8 /
  (elapsed_ms / 1000) and the sample is fresh. In every other case (no current value, no
  previous entry, elapsed time not positive, or a counter below the previous one) the
  rate is 0 and the sample is not fresh; the function returns a value in every case.
\<close>

theorem computeThroughput_spec:
  "(0 < deltaMs \<and>
      (if direction = DirIn then SampleCacheEntry.inOctets prev
       else SampleCacheEntry.outOctets prev) \<le> cur
    \<longrightarrow> computeThroughput (Some cur) (Some prev) deltaMs direction =
          \<lparr>bps = (cur - (if direction = DirIn then SampleCacheEntry.inOctets prev
                         else SampleCacheEntry.outOctets prev)) * 8 / (deltaMs / 1000),
           fresh = True\<rparr>) \<and>
   (current = None \<or> previous = None \<or> deltaMs \<le> 0 \<or>
      (\<exists>c p. current = Some c \<and> previous = Some p \<and>
         c < (if direction = DirIn then SampleCacheEntry.inOctets p
              else SampleCacheEntry.outOctets p))
    \<longrightarrow> computeThroughput current previous deltaMs direction = \<lparr>bps = 0, fresh = False\<rparr>)"
proof (intro conjI impI)
  assume "0 < deltaMs \<and>
      (if direction = DirIn then SampleCacheEntry.inOctets prev
       else SampleCacheEntry.outOctets prev) \<le> cur"
  then show "computeThroughput (Some cur) (Some prev) deltaMs direction =
          \<lparr>bps = (cur - (if direction = DirIn then SampleCacheEntry.inOctets prev
                         else SampleCacheEntry.outOctets prev)) * 8 / (deltaMs / 1000),
           fresh = True\<rparr>"
    by (simp add: computeThroughput_def Let_def)
next
  assume "current = None \<or> previous = None \<or> deltaMs \<le> 0 \<or>
      (\<exists>c p. current = Some c \<and> previous = Some p \<and>
         c < (if direction = DirIn then SampleCacheEntry.inOctets p
              else SampleCacheEntry.outOctets p))"
  then show "computeThroughput current previous deltaMs direction = \<lparr>bps = 0, fresh = False\<rparr>"
    by (auto simp add: computeThroughput_def Let_def split: option.splits)
qed

theorem computeThroughput_spec_witness:
  "computeThroughput (Some 2000)
     (Some \<lparr>SampleCacheEntry.inOctets = 1000, SampleCacheEntry.outOctets = 0, timestamp = 0\<rparr>)
     5000 DirIn = \<lparr>bps = 1600, fresh = True\<rparr> \<and>
   computeThroughput (Some 10)
     (Some \<lparr>SampleCacheEntry.inOctets = 1000, SampleCacheEntry.outOctets = 0, timestamp = 0\<rparr>)
     5000 DirIn = \<lparr>bps = 0, fresh = False\<rparr>"
  using computeThroughput_spec [of 5000 DirIn
      "\<lparr>SampleCacheEntry.inOctets = 1000, SampleCacheEntry.outOctets = 0, timestamp = 0\<rparr>" 2000
      None None]
    computeThroughput_spec [of 5000 DirIn
      "\<lparr>SampleCacheEntry.inOctets = 1000, SampleCacheEntry.outOctets = 0, timestamp = 0\<rparr>" 2000
      "Some 10"
      "Some \<lparr>SampleCacheEntry.inOctets = 1000, SampleCacheEntry.outOctets = 0, timestamp = 0\<rparr>"]
  by simp

lemma cacheKey_inject: "cacheKey r n1 = cacheKey r n2 \<longleftrightarrow> n1 = n2"
  by (simp add: cacheKey_def)

lemma finishInterface_cache:
  "snd (finishInterface rid now ifc (S, C)) =
     (case countersRead S (InterfaceConfig.name ifc) of
        None \<Rightarrow> C
      | Some ab \<Rightarrow> C(cacheKey rid (InterfaceConfig.name ifc) \<mapsto> cacheEntry now ab))"
  by (simp add: finishInterface_def countersRead_def cacheEntry_def Let_def
      split: option.splits)

lemma finishInterface_countersRead:
  "countersRead (fst (finishInterface rid now ifc (S, C))) n = countersRead S n"
  by (simp add: finishInterface_def countersRead_def Let_def update_conv'
      split: option.splits)

lemma find_append:
  "find P (xs @ ys) = (case find P xs of Some r \<Rightarrow> Some r | None \<Rightarrow> find P ys)"
  by (induction xs) simp_all

lemma fold_finishInterface:
  "countersRead (fst (fold (finishInterface rid now) ifs (S, C))) n = countersRead S n \<and>
   snd (fold (finishInterface rid now) ifs (S, C)) k =
     (case lastWriter rid S k ifs of
        None \<Rightarrow> C k
      | Some ifc \<Rightarrow> map_option (cacheEntry now) (countersRead S (InterfaceConfig.name ifc)))"
proof (induction ifs arbitrary: S C)
  case Nil
  show ?case by (simp add: lastWriter_def)
next
  case (Cons i ifs)
  obtain S1 C1 where st: "finishInterface rid now i (S, C) = (S1, C1)"
    by (cases "finishInterface rid now i (S, C)")
  have cr: "countersRead S1 m = countersRead S m" for m
    using finishInterface_countersRead [of rid now i S C m] st by simp
  have c1: "C1 = (case countersRead S (InterfaceConfig.name i) of
        None \<Rightarrow> C
      | Some ab \<Rightarrow> C(cacheKey rid (InterfaceConfig.name i) \<mapsto> cacheEntry now ab))"
    using finishInterface_cache [of rid now i S C] st by simp
  have wk: "writesKey rid S1 k = writesKey rid S k"
    by (rule ext) (simp add: writesKey_def cr)
  have lw: "lastWriter rid S1 k ifs = lastWriter rid S k ifs"
    by (simp add: lastWriter_def wk)
  have lw2: "lastWriter rid S k (i # ifs) =
      (case lastWriter rid S k ifs of
         Some r \<Rightarrow> Some r
       | None \<Rightarrow> if writesKey rid S k i then Some i else None)"
    by (simp add: lastWriter_def find_append split: option.splits)
  have c1k: "C1 k =
      (if writesKey rid S k i
       then map_option (cacheEntry now) (countersRead S (InterfaceConfig.name i))
       else C k)"
    by (auto simp add: c1 writesKey_def split: option.splits)
  from Cons.IH [of S1 C1] have
    a: "countersRead (fst (fold (finishInterface rid now) ifs (S1, C1))) n = countersRead S1 n"
    and b: "snd (fold (finishInterface rid now) ifs (S1, C1)) k =
     (case lastWriter rid S1 k ifs of
        None \<Rightarrow> C1 k
      | Some ifc \<Rightarrow> map_option (cacheEntry now) (countersRead S1 (InterfaceConfig.name ifc)))"
    by simp_all
  show ?case
    using a b
    by (simp add: st cr lw lw2 c1k split: option.splits)
qed

lemma lastWriter_None:
  "lastWriter rid S k ifs = None \<longleftrightarrow> (\<forall>ifc \<in> set ifs. \<not> writesKey rid S k ifc)"
  by (auto simp add: lastWriter_def find_None_iff)

lemma find_Some_set: "find P xs = Some r \<Longrightarrow> r \<in> set xs \<and> P r"
  by (induction xs) (auto split: if_splits)

lemma lastWriter_Some:
  "lastWriter rid S k ifs = Some ifc \<Longrightarrow> ifc \<in> set ifs \<and> writesKey rid S k ifc"
  using find_Some_set [of "writesKey rid S k" "rev ifs" ifc] by (simp add: lastWriter_def)

lemma fold_finishInterface_written:
  assumes "ifc \<in> set ifs" and "countersRead S (InterfaceConfig.name ifc) = Some ab"
  shows "snd (fold (finishInterface rid now) ifs (S, C)) (cacheKey rid (InterfaceConfig.name ifc)) =
           Some (cacheEntry now ab)"
proof -
  let ?k = "cacheKey rid (InterfaceConfig.name ifc)"
  from assms have w: "writesKey rid S ?k ifc" by (simp add: writesKey_def)
  with assms(1) have "lastWriter rid S ?k ifs \<noteq> None"
    by (auto simp add: lastWriter_None)
  then obtain w' where lw: "lastWriter rid S ?k ifs = Some w'" by auto
  from lastWriter_Some [OF lw] have "writesKey rid S ?k w'" by simp
  then have "InterfaceConfig.name w' = InterfaceConfig.name ifc"
    by (simp add: writesKey_def cacheKey_inject)
  with lw assms(2) show ?thesis
    using fold_finishInterface [of rid now ifs S C _ ?k, THEN conjunct2] by simp
qed

lemma fold_finishInterface_kept:
  assumes "\<forall>ifc \<in> set ifs. cacheKey rid (InterfaceConfig.name ifc) = k \<longrightarrow>
             countersRead S (InterfaceConfig.name ifc) = None"
  shows "snd (fold (finishInterface rid now) ifs (S, C)) k = C k"
proof -
  from assms have "lastWriter rid S k ifs = None"
    by (auto simp add: lastWriter_None writesKey_def)
  then show ?thesis
    using fold_finishInterface [of rid now ifs S C _ k, THEN conjunct2] by simp
qed

lemma fold_finishInterface_dom:
  "C k \<noteq> None \<Longrightarrow> snd (fold (finishInterface rid now) ifs (S, C)) k \<noteq> None"
proof (cases "lastWriter rid S k ifs")
  case None
  assume "C k \<noteq> None"
  with None show ?thesis
    using fold_finishInterface [of rid now ifs S C _ k, THEN conjunct2] by simp
next
  case (Some w)
  from lastWriter_Some [OF Some] have "countersRead S (InterfaceConfig.name w) \<noteq> None"
    by (simp add: writesKey_def)
  with Some show ?thesis
    using fold_finishInterface [of rid now ifs S C _ k, THEN conjunct2] by auto
qed

lemma countersRead_update:
  "countersRead (AList.update k v al) n =
     (if n = k then
        (case (InterfaceSample.inOctets v, InterfaceSample.outOctets v) of
           (Some a, Some b) \<Rightarrow> Some (a, b)
         | _ \<Rightarrow> None)
      else countersRead al n)"
  by (simp add: countersRead_def update_conv')

lemma prepareInterface_countersRead:
  "countersRead (samples acc) n = None \<Longrightarrow>
   countersRead (samples (prepareInterface ifc acc)) n = None"
  by (simp add: prepareInterface_def Let_def countersRead_update setError_def
      makeInterfaceSample_def split: option.splits)

lemma fold_prepareInterface_countersRead:
  "countersRead (samples acc) n = None \<Longrightarrow>
   countersRead (samples (fold prepareInterface ifs acc)) n = None"
  by (induction ifs arbitrary: acc) (simp_all add: prepareInterface_countersRead)

lemma sanitize_examples:
  "sanitizeOid ''.1.1'' = \<lparr>Sanitized.oid = Some ''1.1'', Sanitized.error = None\<rparr>"
  "sanitizeOid ''1.2'' = \<lparr>Sanitized.oid = Some ''1.2'', Sanitized.error = None\<rparr>"
  by (simp_all add: sanitizeOid_def trim_def isWhiteSpace_def isDigits_def Let_def)

lemmas poll_eval =
  pollRouter_def example_router_def example_interface_def example_snmp_def
  prepareInterface_def sanitize_examples truthy_def makeInterfaceSample_def Let_def
  queryTarget_def applyVarbind_def parseNumericValue_def finishInterface_def setError_def
  computeThroughput_def metricStatus_def combineStatuses_def statusRank_def cacheKey_def
  countersRead_def

lemma example_poll_ok:
  "pollRouter
     (example_snmp (Inr [\<lparr>Varbind.oid = ''1.1'', type = 65, value = NumberValue 2000\<rparr>,
                         \<lparr>Varbind.oid = ''1.2'', type = 65, value = NumberValue 500\<rparr>]))
     5000 ''r1'' example_router Map.empty =
   (\<lparr>RouterSample.status = Ok,
     RouterSample.interfaces =
       [(''eth0'',
         \<lparr>InterfaceSample.name = ''eth0'',
          InterfaceSample.inOctets = Some 2000, InterfaceSample.outOctets = Some 500,
          InterfaceSample.inBps = 0, InterfaceSample.outBps = 0,
          InterfaceSample.inUtilization = 0, InterfaceSample.outUtilization = 0,
          InterfaceSample.status = Ok, InterfaceSample.maxBandwidth = 1000,
          InterfaceSample.fresh = False, InterfaceSample.error = None\<rparr>)],
     RouterSample.error = None\<rparr>,
    [''r1:eth0'' \<mapsto> \<lparr>SampleCacheEntry.inOctets = 2000, SampleCacheEntry.outOctets = 500,
                        SampleCacheEntry.timestamp = 5000\<rparr>])"
  by (simp add: poll_eval upt_rec [of 0])

lemma example_poll_bad_out:
  "snd (pollRouter
     (example_snmp (Inr [\<lparr>Varbind.oid = ''1.1'', type = 65, value = NumberValue 2000\<rparr>,
                         \<lparr>Varbind.oid = ''1.2'', type = 4, value = OtherValue\<rparr>]))
     5000 ''r1'' example_router C) = C"
  by (simp add: poll_eval upt_rec [of 0])

lemma example_poll_read_error:
  "snd (pollRouter (example_snmp (Inl ''Request timed out'')) 5000 ''r1'' example_router C) = C"
  by (simp add: poll_eval upt_rec [of 0])

lemma applyVarbind_counters:
  "InterfaceSample.inOctets (applyVarbind snmp scale ents (vb, i) s) =
     (if i < length ents \<and> \<not> isVarbindError snmp vb \<and> snd (ents ! i) = KindIn
      then (case value vb of NumberValue n \<Rightarrow> Some n | OtherValue \<Rightarrow> InterfaceSample.inOctets s)
      else InterfaceSample.inOctets s) \<and>
   InterfaceSample.outOctets (applyVarbind snmp scale ents (vb, i) s) =
     (if i < length ents \<and> \<not> isVarbindError snmp vb \<and> snd (ents ! i) = KindOut
      then (case value vb of NumberValue n \<Rightarrow> Some n | OtherValue \<Rightarrow> InterfaceSample.outOctets s)
      else InterfaceSample.outOctets s)"
  by (simp add: applyVarbind_def Let_def setError_def parseNumericValue_def
      split: VarbindValue.splits OidKind.splits)

lemma queryTarget_read_error:
  assumes "get snmp n (map fst (entries t)) = Inl message"
  shows "countersRead (queryTarget snmp (t, n) S) m = countersRead S m"
proof (cases "map_of S (InterfaceConfig.name (iface t))")
  case None
  then show ?thesis by (simp add: queryTarget_def Let_def)
next
  case (Some s0)
  show ?thesis
  proof (cases "hasCounters t \<and> entries t \<noteq> []")
    case False
    then show ?thesis by (auto simp add: queryTarget_def Let_def Some)
  next
    case True
    with assms Some have q: "queryTarget snmp (t, n) S =
        AList.update (InterfaceConfig.name (iface t)) (setError (Some message) s0) S"
      by (simp add: queryTarget_def Let_def)
    show ?thesis
      unfolding q countersRead_update
      by (simp add: setError_def countersRead_def Some)
  qed
qed

lemma pollRouter_v2_cache_frame:
  "(\<forall>ifc \<in> set (RouterConfig.interfaces router). \<forall>ab.
      countersRead (RouterSample.interfaces (fst (pollRouter snmp now rid router C)))
        (InterfaceConfig.name ifc) = Some ab \<longrightarrow>
      snd (pollRouter snmp now rid router C) (cacheKey rid (InterfaceConfig.name ifc)) =
        Some (cacheEntry now ab)) \<and>
   (\<forall>k. (\<forall>ifc \<in> set (RouterConfig.interfaces router).
           cacheKey rid (InterfaceConfig.name ifc) = k \<longrightarrow>
           countersRead (RouterSample.interfaces (fst (pollRouter snmp now rid router C)))
             (InterfaceConfig.name ifc) = None) \<longrightarrow>
        snd (pollRouter snmp now rid router C) k = C k) \<and>
   (\<forall>k. C k \<noteq> None \<longrightarrow> snd (pollRouter snmp now rid router C) k \<noteq> None)"
proof -
  define ifs where "ifs = RouterConfig.interfaces router"
  define prep where "prep = fold prepareInterface ifs
      \<lparr>samples = [], interfaceTargets = [], hasValidCounterOid = False\<rparr>"
  define polled where "polled = fold (queryTarget snmp)
      (zip (interfaceTargets prep) [0..<length (interfaceTargets prep)]) (samples prep)"
  show ?thesis
  proof (cases "length ifs = 0 \<or> \<not> hasValidCounterOid prep")
    case True
    have none: "countersRead (samples prep) n = None" for n
      unfolding prep_def by (rule fold_prepareInterface_countersRead) (simp add: countersRead_def)
    from True have c: "snd (pollRouter snmp now rid router C) = C"
      by (auto simp add: pollRouter_def Let_def ifs_def prep_def)
    from True have s: "countersRead (RouterSample.interfaces (fst (pollRouter snmp now rid router C))) n
        = None" for n
      using none by (auto simp add: pollRouter_def Let_def ifs_def prep_def countersRead_def)
    show ?thesis by (simp add: c s)
  next
    case False
    then have r: "pollRouter snmp now rid router C =
        (\<lparr>RouterSample.status = combineStatuses (map (InterfaceSample.status \<circ> snd)
             (fst (fold (finishInterface rid now) ifs (polled, C)))),
          RouterSample.interfaces = fst (fold (finishInterface rid now) ifs (polled, C)),
          RouterSample.error = None\<rparr>,
         snd (fold (finishInterface rid now) ifs (polled, C)))"
      by (simp add: pollRouter_def Let_def ifs_def prep_def polled_def)
    have cr: "countersRead (RouterSample.interfaces (fst (pollRouter snmp now rid router C))) n =
        countersRead polled n" for n
      using fold_finishInterface [of rid now ifs polled C n, THEN conjunct1] by (simp add: r)
    have sn: "snd (pollRouter snmp now rid router C) =
        snd (fold (finishInterface rid now) ifs (polled, C))"
      by (simp add: r)
    show ?thesis
      unfolding cr sn ifs_def [symmetric]
      using fold_finishInterface_written [of _ ifs polled _ rid now C]
        fold_finishInterface_kept [of ifs rid _ polled now C]
        fold_finishInterface_dom [of C _ rid now ifs polled]
      by blast
  qed
qed

lemma prepareInterface_v1_countersRead:
  "countersRead (samples_v1 acc) n = None \<Longrightarrow>
   countersRead (samples_v1 (prepareInterface_v1 ifc acc)) n = None"
  by (simp add: prepareInterface_v1_def Let_def countersRead_update setError_def
      makeInterfaceSample_v1_def split: option.splits)

lemma fold_prepareInterface_v1_countersRead:
  "countersRead (samples_v1 acc) n = None \<Longrightarrow>
   countersRead (samples_v1 (fold prepareInterface_v1 ifs acc)) n = None"
  by (induction ifs arbitrary: acc) (simp_all add: prepareInterface_v1_countersRead)

lemma failInterface_countersRead:
  "countersRead (failInterface message ifc S) n = countersRead S n"
proof (cases "map_of S (InterfaceConfig.name ifc)")
  case None
  then show ?thesis by (simp add: failInterface_def)
next
  case (Some s0)
  then have q: "failInterface message ifc S =
      AList.update (InterfaceConfig.name ifc) (setError (Some message) s0) S"
    by (simp add: failInterface_def)
  show ?thesis
    unfolding q countersRead_update
    by (simp add: setError_def countersRead_def Some)
qed

lemma fold_failInterface_countersRead:
  "countersRead (fold (failInterface message) ifs S) n = countersRead S n"
  by (induction ifs arbitrary: S) (simp_all add: failInterface_countersRead)

lemma pollRouter_v1_cache_frame:
  "(\<forall>ifc \<in> set (RouterConfig.interfaces router). \<forall>ab.
      countersRead (RouterSample.interfaces (fst (pollRouter_v1 snmp now rid router C)))
        (InterfaceConfig.name ifc) = Some ab \<longrightarrow>
      snd (pollRouter_v1 snmp now rid router C) (cacheKey rid (InterfaceConfig.name ifc)) =
        Some (cacheEntry now ab)) \<and>
   (\<forall>k. (\<forall>ifc \<in> set (RouterConfig.interfaces router).
           cacheKey rid (InterfaceConfig.name ifc) = k \<longrightarrow>
           countersRead (RouterSample.interfaces (fst (pollRouter_v1 snmp now rid router C)))
             (InterfaceConfig.name ifc) = None) \<longrightarrow>
        snd (pollRouter_v1 snmp now rid router C) k = C k) \<and>
   (\<forall>k. C k \<noteq> None \<longrightarrow> snd (pollRouter_v1 snmp now rid router C) k \<noteq> None)"
proof -
  define ifs where "ifs = RouterConfig.interfaces router"
  define prep where "prep = fold prepareInterface_v1 ifs
      \<lparr>samples_v1 = [], oids = [], oidMap = Map.empty, hasValidOid = False\<rparr>"
  have none: "countersRead (samples_v1 prep) n = None" for n
    unfolding prep_def by (rule fold_prepareInterface_v1_countersRead) (simp add: countersRead_def)
  consider (early) "length ifs = 0 \<or> \<not> hasValidOid prep"
    | (failed) message where "length ifs \<noteq> 0" "hasValidOid prep"
        "get snmp 0 (oids prep) = Inl message"
    | (answered) varbinds where "length ifs \<noteq> 0" "hasValidOid prep"
        "get snmp 0 (oids prep) = Inr varbinds"
    by (cases "get snmp 0 (oids prep)") auto
  then show ?thesis
  proof cases
    case early
    then have c: "snd (pollRouter_v1 snmp now rid router C) = C"
      by (auto simp add: pollRouter_v1_def Let_def ifs_def prep_def)
    from early have s:
      "countersRead (RouterSample.interfaces (fst (pollRouter_v1 snmp now rid router C))) n = None"
      for n
      using none by (auto simp add: pollRouter_v1_def Let_def ifs_def prep_def countersRead_def)
    show ?thesis by (simp add: c s)
  next
    case failed
    then have c: "snd (pollRouter_v1 snmp now rid router C) = C"
      by (simp add: pollRouter_v1_def Let_def ifs_def prep_def)
    from failed have s:
      "countersRead (RouterSample.interfaces (fst (pollRouter_v1 snmp now rid router C))) n = None"
      for n
      using none [of n]
      by (simp add: pollRouter_v1_def Let_def ifs_def [symmetric] prep_def [symmetric]
          fold_failInterface_countersRead)
    show ?thesis by (simp add: c s)
  next
    case answered
    define polled where "polled = fold (applyVarbind_v1 snmp (oidMap prep)) varbinds (samples_v1 prep)"
    from answered have r: "pollRouter_v1 snmp now rid router C =
        (\<lparr>RouterSample.status = combineStatuses (map (InterfaceSample.status \<circ> snd)
             (fst (fold (finishInterface rid now) ifs (polled, C)))),
          RouterSample.interfaces = fst (fold (finishInterface rid now) ifs (polled, C)),
          RouterSample.error = None\<rparr>,
         snd (fold (finishInterface rid now) ifs (polled, C)))"
      by (simp add: pollRouter_v1_def Let_def ifs_def [symmetric] prep_def [symmetric] polled_def)
    have cr: "countersRead (RouterSample.interfaces (fst (pollRouter_v1 snmp now rid router C))) n =
        countersRead polled n" for n
      using fold_finishInterface [of rid now ifs polled C n, THEN conjunct1] by (simp add: r)
    have sn: "snd (pollRouter_v1 snmp now rid router C) =
        snd (fold (finishInterface rid now) ifs (polled, C))"
      by (simp add: r)
    show ?thesis
      unfolding cr sn ifs_def [symmetric]
      using fold_finishInterface_written [of _ ifs polled _ rid now C]
        fold_finishInterface_kept [of ifs rid _ polled now C]
        fold_finishInterface_dom [of C _ rid now ifs polled]
      by blast
  qed
qed

subsection \<open>One interface through the three loops\<close>

text \<open>
  Each loop of \<open>pollRouter\<close> changes the sample stored under the name of the interface
  at hand and no other. When the names of the interfaces are pairwise different, the
  sample under a name is therefore what the three loop bodies make of that interface
  alone.
\<close>

lemma distinct_map_neq: "distinct (map f (a # as)) \<Longrightarrow> b \<in> set as \<Longrightarrow> f b \<noteq> f a"
  by (auto simp add: image_iff)

lemma distinct_map_notin:
  "distinct (map f (a # as)) \<Longrightarrow> b \<notin> set as \<Longrightarrow> b \<in> set (a # as) \<Longrightarrow>
   b = a \<and> f a \<notin> f ` set as"
  by auto

lemma prepareInterface_eq:
  "prepareInterface ifc acc =
     \<lparr>samples = AList.update (InterfaceConfig.name ifc) (preparedSample ifc) (samples acc),
      interfaceTargets = interfaceTargets acc @ [interfaceTarget ifc],
      hasValidCounterOid = (hasValidCounterOid acc \<or> hasCounters (interfaceTarget ifc))\<rparr>"
  by (simp add: prepareInterface_def interfaceTarget_def preparedSample_def emptyPreparation_def
      Let_def)

lemma fold_prepareInterface_targets:
  "interfaceTargets (fold prepareInterface ifs acc) = interfaceTargets acc @ map interfaceTarget ifs \<and>
   hasValidCounterOid (fold prepareInterface ifs acc) =
     (hasValidCounterOid acc \<or> (\<exists>ifc \<in> set ifs. hasCounters (interfaceTarget ifc)))"
  by (induction ifs arbitrary: acc) (auto simp add: prepareInterface_eq)

lemma fold_prepareInterface_other:
  "m \<notin> InterfaceConfig.name ` set ifs \<Longrightarrow>
   map_of (samples (fold prepareInterface ifs acc)) m = map_of (samples acc) m"
  by (induction ifs arbitrary: acc) (auto simp add: prepareInterface_eq update_conv')

lemma fold_prepareInterface_sample:
  "distinct (map InterfaceConfig.name ifs) \<Longrightarrow> ifc \<in> set ifs \<Longrightarrow>
   map_of (samples (fold prepareInterface ifs acc)) (InterfaceConfig.name ifc) =
     Some (preparedSample ifc)"
proof (induction ifs arbitrary: acc)
  case Nil
  then show ?case by simp
next
  case (Cons x xs)
  show ?case
  proof (cases "ifc \<in> set xs")
    case True
    with Cons show ?thesis by simp
  next
    case False
    with Cons.prems have e: "ifc = x" and n: "InterfaceConfig.name x \<notin> InterfaceConfig.name ` set xs"
      by auto
    have "map_of (samples (fold prepareInterface xs (prepareInterface x acc))) (InterfaceConfig.name x) =
        map_of (samples (prepareInterface x acc)) (InterfaceConfig.name x)"
      by (rule fold_prepareInterface_other [OF n])
    also have "\<dots> = Some (preparedSample x)"
      by (simp add: prepareInterface_eq update_conv')
    finally show ?thesis by (simp add: e)
  qed
qed

lemma queryTarget_local:
  "map_of (queryTarget snmp tn S) m =
     (if m = InterfaceConfig.name (iface (fst tn))
      then map_option (queriedSample snmp tn) (map_of S m)
      else map_of S m)"
  by (simp add: queryTarget_def queriedSample_def Let_def update_conv'
      split: option.splits sum.splits)

lemma fold_queryTarget_other:
  "m \<notin> (\<lambda>tn. InterfaceConfig.name (iface (fst tn))) ` set tns \<Longrightarrow>
   map_of (fold (queryTarget snmp) tns S) m = map_of S m"
  by (induction tns arbitrary: S) (auto simp add: queryTarget_local)

lemma fold_queryTarget_sample:
  "distinct (map (\<lambda>tn. InterfaceConfig.name (iface (fst tn))) tns) \<Longrightarrow> tn \<in> set tns \<Longrightarrow>
   map_of (fold (queryTarget snmp) tns S) (InterfaceConfig.name (iface (fst tn))) =
     map_option (queriedSample snmp tn) (map_of S (InterfaceConfig.name (iface (fst tn))))"
proof (induction tns arbitrary: S)
  case Nil
  then show ?case by simp
next
  case (Cons x xs)
  let ?nm = "\<lambda>tn. InterfaceConfig.name (iface (fst tn))"
  show ?case
  proof (cases "tn \<in> set xs")
    case True
    have ne: "?nm tn \<noteq> ?nm x"
      by (rule distinct_map_neq [OF Cons.prems(1) True])
    from Cons.prems have d: "distinct (map ?nm xs)" by simp
    have "map_of (fold (queryTarget snmp) xs (queryTarget snmp x S)) (?nm tn) =
        map_option (queriedSample snmp tn) (map_of (queryTarget snmp x S) (?nm tn))"
      by (rule Cons.IH [OF d True])
    also have "map_of (queryTarget snmp x S) (?nm tn) = map_of S (?nm tn)"
      using ne by (simp add: queryTarget_local)
    finally show ?thesis by simp
  next
    case False
    from distinct_map_notin [OF Cons.prems(1) False Cons.prems(2)]
    have e: "tn = x" and n: "?nm x \<notin> ?nm ` set xs" by simp_all
    have "map_of (fold (queryTarget snmp) xs (queryTarget snmp x S)) (?nm x) =
        map_of (queryTarget snmp x S) (?nm x)"
      by (rule fold_queryTarget_other [OF n])
    also have "\<dots> = map_option (queriedSample snmp x) (map_of S (?nm x))"
      by (simp add: queryTarget_local)
    finally show ?thesis by (simp add: e)
  qed
qed

lemma finishInterface_local:
  "map_of (fst (finishInterface rid now ifc (S, C))) m =
     (if m = InterfaceConfig.name ifc
      then map_option (finishedSample rid now C ifc) (map_of S m)
      else map_of S m)"
  by (simp add: finishInterface_def finishedSample_def Let_def update_conv'
      split: option.splits)

lemma finishedSample_cache_cong:
  "C' (cacheKey rid (InterfaceConfig.name ifc)) = C (cacheKey rid (InterfaceConfig.name ifc)) \<Longrightarrow>
   finishedSample rid now C' ifc = finishedSample rid now C ifc"
  by (rule ext) (simp add: finishInterface_def finishedSample_def Let_def)

lemma finishInterface_cache_other:
  "k \<noteq> cacheKey rid (InterfaceConfig.name ifc) \<Longrightarrow>
   snd (finishInterface rid now ifc (S, C)) k = C k"
  by (simp add: finishInterface_cache split: option.splits)

lemma fold_finishInterface_other:
  "m \<notin> InterfaceConfig.name ` set ifs \<Longrightarrow>
   map_of (fst (fold (finishInterface rid now) ifs (S, C))) m = map_of S m"
proof (induction ifs arbitrary: S C)
  case Nil
  then show ?case by simp
next
  case (Cons x xs)
  obtain S1 C1 where st: "finishInterface rid now x (S, C) = (S1, C1)"
    by (cases "finishInterface rid now x (S, C)")
  from Cons.prems have "m \<noteq> InterfaceConfig.name x" "m \<notin> InterfaceConfig.name ` set xs" by auto
  with Cons.IH [of S1 C1] finishInterface_local [of rid now x S C m] st
  show ?case by simp
qed

lemma fold_finishInterface_sample:
  "distinct (map InterfaceConfig.name ifs) \<Longrightarrow> ifc \<in> set ifs \<Longrightarrow>
   map_of (fst (fold (finishInterface rid now) ifs (S, C))) (InterfaceConfig.name ifc) =
     map_option (finishedSample rid now C ifc) (map_of S (InterfaceConfig.name ifc))"
proof (induction ifs arbitrary: S C)
  case Nil
  then show ?case by simp
next
  case (Cons x xs)
  obtain S1 C1 where st: "finishInterface rid now x (S, C) = (S1, C1)"
    by (cases "finishInterface rid now x (S, C)")
  have s1: "map_of S1 m =
     (if m = InterfaceConfig.name x
      then map_option (finishedSample rid now C x) (map_of S m)
      else map_of S m)" for m
    using finishInterface_local [of rid now x S C m] st by simp
  show ?case
  proof (cases "ifc \<in> set xs")
    case True
    have ne: "InterfaceConfig.name ifc \<noteq> InterfaceConfig.name x"
      by (rule distinct_map_neq [OF Cons.prems(1) True])
    then have "cacheKey rid (InterfaceConfig.name ifc) \<noteq> cacheKey rid (InterfaceConfig.name x)"
      by (simp add: cacheKey_inject)
    then have c1: "C1 (cacheKey rid (InterfaceConfig.name ifc)) = C (cacheKey rid (InterfaceConfig.name ifc))"
      using finishInterface_cache_other [of "cacheKey rid (InterfaceConfig.name ifc)" rid x now S C] st
      by simp
    from Cons.IH [of S1 C1] Cons.prems True
    have "map_of (fst (fold (finishInterface rid now) xs (S1, C1))) (InterfaceConfig.name ifc) =
       map_option (finishedSample rid now C1 ifc) (map_of S1 (InterfaceConfig.name ifc))"
      by simp
    then show ?thesis
      by (simp add: st s1 ne finishedSample_cache_cong [of C1 rid ifc C now, OF c1])
  next
    case False
    with Cons.prems have e: "ifc = x" and n: "InterfaceConfig.name x \<notin> InterfaceConfig.name ` set xs"
      by auto
    show ?thesis
      using fold_finishInterface_other [OF n, of rid now S1 C1]
      by (simp add: e st s1)
  qed
qed

text \<open>
  The counters and the capacity of a sample after the varbinds of an answer were
  applied are the numbers that the answer carries for them.
\<close>

lemma find_cong_set:
  "(\<And>a. a \<in> set as \<Longrightarrow> P a = Q a) \<Longrightarrow> find P as = find Q as"
  by (induction as) simp_all

lemma carries_snoc_old:
  "i < length vbs \<Longrightarrow> carries snmp ents kind ok (vbs @ [v]) i = carries snmp ents kind ok vbs i"
  by (simp add: carries_def nth_append)

lemma carries_snoc_new:
  "carries snmp ents kind ok (vbs @ [v]) (length vbs) =
     (length vbs < length ents \<and> snd (ents ! length vbs) = kind \<and> \<not> isVarbindError snmp v \<and>
      (case value v of NumberValue r \<Rightarrow> ok r | OtherValue \<Rightarrow> False))"
  by (simp add: carries_def)

lemma numberRead_snoc:
  "numberRead snmp ents kind ok (vbs @ [v]) =
     (if length vbs < length ents \<and> snd (ents ! length vbs) = kind \<and> \<not> isVarbindError snmp v \<and>
         (case value v of NumberValue r \<Rightarrow> ok r | OtherValue \<Rightarrow> False)
      then parseNumericValue (Some v)
      else numberRead snmp ents kind ok vbs)"
proof -
  have f: "find (carries snmp ents kind ok (vbs @ [v])) (rev [0..<length vbs]) =
      find (carries snmp ents kind ok vbs) (rev [0..<length vbs])"
    by (rule find_cong_set) (simp add: carries_snoc_old)
  have i: "find (carries snmp ents kind ok vbs) (rev [0..<length vbs]) = Some i \<Longrightarrow>
      (vbs @ [v]) ! i = vbs ! i" for i
    using find_Some_set [of "carries snmp ents kind ok vbs" "rev [0..<length vbs]" i]
    by (simp add: nth_append)
  show ?thesis
    using i
    by (auto simp add: numberRead_def f carries_snoc_new split: option.splits)
qed

lemma zip_snoc_upt:
  "zip (vbs @ [v]) [0..<length (vbs @ [v])] = zip vbs [0..<length vbs] @ [(v, length vbs)]"
  by simp

lemma applyVarbind_capacity:
  "InterfaceSample.maxBandwidth (applyVarbind snmp scale ents (vb, i) s) =
     (if i < length ents \<and> snd (ents ! i) = KindSpeed \<and> \<not> isVarbindError snmp vb \<and>
         (case value vb of NumberValue r \<Rightarrow> 0 < r | OtherValue \<Rightarrow> False)
      then (case parseNumericValue (Some vb) of Some r \<Rightarrow> r * scale
            | None \<Rightarrow> InterfaceSample.maxBandwidth s)
      else InterfaceSample.maxBandwidth s)"
  by (simp add: applyVarbind_def Let_def setError_def parseNumericValue_def
      split: VarbindValue.splits OidKind.splits)

lemma fold_applyVarbind_read:
  "InterfaceSample.inOctets
     (fold (applyVarbind snmp scale ents) (zip vbs [0..<length vbs]) s) =
     (case numberRead snmp ents KindIn (\<lambda>v. True) vbs of
        Some a \<Rightarrow> Some a | None \<Rightarrow> InterfaceSample.inOctets s) \<and>
   InterfaceSample.outOctets
     (fold (applyVarbind snmp scale ents) (zip vbs [0..<length vbs]) s) =
     (case numberRead snmp ents KindOut (\<lambda>v. True) vbs of
        Some a \<Rightarrow> Some a | None \<Rightarrow> InterfaceSample.outOctets s) \<and>
   InterfaceSample.maxBandwidth
     (fold (applyVarbind snmp scale ents) (zip vbs [0..<length vbs]) s) =
     (case numberRead snmp ents KindSpeed (\<lambda>v. 0 < v) vbs of
        Some r \<Rightarrow> r * scale | None \<Rightarrow> InterfaceSample.maxBandwidth s)"
proof (induction vbs rule: rev_induct)
  case Nil
  show ?case by (simp add: numberRead_def)
next
  case (snoc v vbs)
  let ?s = "fold (applyVarbind snmp scale ents) (zip vbs [0..<length vbs]) s"
  have st: "fold (applyVarbind snmp scale ents) (zip (vbs @ [v]) [0..<length (vbs @ [v])]) s =
      applyVarbind snmp scale ents (v, length vbs) ?s"
    unfolding zip_snoc_upt by simp
  show ?case
    unfolding st
    using snoc.IH
    by (simp add: applyVarbind_counters applyVarbind_capacity numberRead_snoc
        parseNumericValue_def split: VarbindValue.splits option.splits)
qed

lemma queriedSample_eq:
  "queriedSample snmp (t, n) s =
     (if \<not> hasCounters t \<or> entries t = [] then s
      else (case get snmp n (map fst (entries t)) of
              Inl message \<Rightarrow> setError (Some message) s
            | Inr varbinds \<Rightarrow>
                fold (applyVarbind snmp (speedScale (iface t)) (entries t))
                  (zip varbinds [0..<length varbinds]) s))"
  by (simp add: queriedSample_def queryTarget_def speedScale_def Let_def
      split: sum.splits option.splits)

lemma finishedSample_eq:
  "finishedSample rid now C ifc s =
     (let previous = C (cacheKey rid (InterfaceConfig.name ifc));
          deltaMs = (case previous of Some p \<Rightarrow> now - SampleCacheEntry.timestamp p | None \<Rightarrow> 0);
          inResult = computeThroughput (InterfaceSample.inOctets s) previous deltaMs DirIn;
          outResult = computeThroughput (InterfaceSample.outOctets s) previous deltaMs DirOut;
          denominator = (if 0 < InterfaceSample.maxBandwidth s then InterfaceSample.maxBandwidth s else 1)
      in s\<lparr>InterfaceSample.inBps := bps inResult,
            InterfaceSample.outBps := bps outResult,
            InterfaceSample.inUtilization := bps inResult / denominator,
            InterfaceSample.outUtilization := bps outResult / denominator,
            InterfaceSample.status :=
              metricStatus (max (bps inResult / denominator) (bps outResult / denominator))
                (truthy (InterfaceSample.error s)),
            InterfaceSample.fresh := Throughput.fresh inResult \<and> Throughput.fresh outResult\<rparr>)"
  by (simp add: finishedSample_def finishInterface_def Let_def)

lemma interfaceTarget_eq:
  "interfaceTarget ifc =
     \<lparr>iface = ifc, entries = requestEntries ifc, hasCounters = requestMade ifc\<rparr>"
  by (auto simp add: interfaceTarget_def prepareInterface_def emptyPreparation_def Let_def
      requestEntries_def requestMade_def validOid_def truthy_def split: option.splits)

lemma interfaceTarget_iface: "iface (interfaceTarget ifc) = ifc"
  by (simp add: interfaceTarget_eq)

lemma requestMade_entries: "requestMade ifc \<Longrightarrow> requestEntries ifc \<noteq> []"
  by (auto simp add: requestEntries_def requestMade_def)

lemma preparedSample_fields:
  "InterfaceSample.inOctets (preparedSample ifc) = None"
  "InterfaceSample.outOctets (preparedSample ifc) = None"
  "InterfaceSample.inBps (preparedSample ifc) = 0"
  "InterfaceSample.outBps (preparedSample ifc) = 0"
  "InterfaceSample.inUtilization (preparedSample ifc) = 0"
  "InterfaceSample.outUtilization (preparedSample ifc) = 0"
  "InterfaceSample.fresh (preparedSample ifc) = False"
  "InterfaceSample.maxBandwidth (preparedSample ifc) =
     (case max_bandwidth ifc of Some b \<Rightarrow> if 0 < b then b else 0 | None \<Rightarrow> 0)"
  "InterfaceSample.status (preparedSample ifc) =
     metricStatus 0 (truthy (InterfaceSample.error (preparedSample ifc)))"
  by (simp_all add: preparedSample_def prepareInterface_def emptyPreparation_def Let_def
      setError_def makeInterfaceSample_def metricStatus_def truthy_def split: option.splits)

lemma numberRead_ok: "numberRead snmp ents kind ok vbs = Some r \<Longrightarrow> ok r"
proof -
  assume a: "numberRead snmp ents kind ok vbs = Some r"
  then obtain i where f: "find (carries snmp ents kind ok vbs) (rev [0..<length vbs]) = Some i"
    and p: "parseNumericValue (Some (vbs ! i)) = Some r"
    by (auto simp add: numberRead_def split: option.splits)
  from find_Some_set [OF f] have "carries snmp ents kind ok vbs i" by simp
  with p show "ok r"
    by (auto simp add: carries_def parseNumericValue_def split: VarbindValue.splits)
qed

lemma numberRead_Some:
  assumes "numberRead snmp ents kind ok vbs = Some r"
  shows "\<exists>i. i < length vbs \<and> i < length ents \<and> snd (ents ! i) = kind \<and>
             \<not> isVarbindError snmp (vbs ! i) \<and> value (vbs ! i) = NumberValue r \<and> ok r"
proof -
  from assms obtain i where f: "find (carries snmp ents kind ok vbs) (rev [0..<length vbs]) = Some i"
    and p: "parseNumericValue (Some (vbs ! i)) = Some r"
    by (auto simp add: numberRead_def split: option.splits)
  from find_Some_set [OF f] have "i < length vbs" and "carries snmp ents kind ok vbs i"
    by simp_all
  with p show ?thesis
    by (intro exI [of _ i])
      (auto simp add: carries_def parseNumericValue_def split: VarbindValue.splits)
qed

lemma counterRead_Some:
  assumes "counterRead snmp n ifc kind = Some r"
  shows "\<exists>vbs i. requestMade ifc \<and> get snmp n (map fst (requestEntries ifc)) = Inr vbs \<and>
             i < length vbs \<and> i < length (requestEntries ifc) \<and>
             snd (requestEntries ifc ! i) = kind \<and>
             \<not> isVarbindError snmp (vbs ! i) \<and> value (vbs ! i) = NumberValue r"
proof -
  from assms obtain vbs where a: "answer snmp n ifc = Some vbs"
    and r: "numberRead snmp (requestEntries ifc) kind (\<lambda>v. True) vbs = Some r"
    by (auto simp add: counterRead_def split: option.splits)
  from a have g: "requestMade ifc \<and> get snmp n (map fst (requestEntries ifc)) = Inr vbs"
    by (auto simp add: answer_def split: if_splits sum.splits)
  from numberRead_Some [OF r] g show ?thesis by blast
qed

lemma speedScale_pos: "0 < speedScale ifc"
  by (simp add: speedScale_def split: option.splits)

lemma effectiveCapacity_pos: "effectiveCapacity snmp n ifc = Some c \<Longrightarrow> 0 < c"
proof -
  assume a: "effectiveCapacity snmp n ifc = Some c"
  show "0 < c"
  proof (cases "speedProbed snmp n ifc")
    case None
    with a show ?thesis
      by (auto simp add: effectiveCapacity_def split: option.splits if_splits)
  next
    case (Some v)
    then have "0 < v"
      using numberRead_ok [of snmp "requestEntries ifc" KindSpeed "\<lambda>v. 0 < v" _ v]
      by (auto simp add: speedProbed_def split: option.splits)
    with a Some show ?thesis
      using speedScale_pos [of ifc] by (auto simp add: effectiveCapacity_def)
  qed
qed

lemma queriedSample_read:
  "InterfaceSample.inOctets (queriedSample snmp (interfaceTarget ifc, n) (preparedSample ifc)) =
     counterRead snmp n ifc KindIn"
  "InterfaceSample.outOctets (queriedSample snmp (interfaceTarget ifc, n) (preparedSample ifc)) =
     counterRead snmp n ifc KindOut"
  "InterfaceSample.maxBandwidth (queriedSample snmp (interfaceTarget ifc, n) (preparedSample ifc)) =
     (case effectiveCapacity snmp n ifc of Some c \<Rightarrow> c | None \<Rightarrow> 0)"
  using requestMade_entries [of ifc]
  by (auto simp add: queriedSample_eq counterRead_def speedProbed_def effectiveCapacity_def
      answer_def interfaceTarget_eq preparedSample_fields fold_applyVarbind_read setError_def
      split: sum.splits option.splits)

lemma zip_targets:
  assumes "n < length ifs"
  shows "(interfaceTarget (ifs ! n), n) \<in> set (zip (map interfaceTarget ifs) [0..<length ifs])"
  unfolding in_set_zip by (rule exI [of _ n]) (simp add: assms)

lemma map_fst_zip_same:
  "length ns = length ts \<Longrightarrow> map (\<lambda>tn. f (fst tn)) (zip ts ns) = map f ts"
  by (induction ns ts rule: list_induct2) simp_all

lemma zip_targets_names:
  "map (\<lambda>tn. InterfaceConfig.name (iface (fst tn))) (zip (map interfaceTarget ifs) [0..<length ifs]) =
     map InterfaceConfig.name ifs"
proof -
  have "map (\<lambda>tn. InterfaceConfig.name (iface (fst tn))) (zip (map interfaceTarget ifs) [0..<length ifs]) =
      map (\<lambda>t. InterfaceConfig.name (iface t)) (map interfaceTarget ifs)"
    by (rule map_fst_zip_same) simp
  then show ?thesis by (simp add: interfaceTarget_iface comp_def)
qed

lemma pollRouter_interface_sample:
  assumes d: "distinct (map InterfaceConfig.name (RouterConfig.interfaces router))"
    and n: "n < length (RouterConfig.interfaces router)"
  shows "map_of (RouterSample.interfaces (fst (pollRouter snmp now rid router C)))
           (InterfaceConfig.name (RouterConfig.interfaces router ! n)) =
         Some (polledSample snmp now rid C (RouterConfig.interfaces router) n)"
proof -
  define ifs where "ifs = RouterConfig.interfaces router"
  define ifc where "ifc = ifs ! n"
  define prep where "prep = fold prepareInterface ifs
      \<lparr>samples = [], interfaceTargets = [], hasValidCounterOid = False\<rparr>"
  define polled where "polled = fold (queryTarget snmp)
      (zip (interfaceTargets prep) [0..<length (interfaceTargets prep)]) (samples prep)"
  from n have mem: "ifc \<in> set ifs" and ne: "length ifs \<noteq> 0"
    by (auto simp add: ifs_def ifc_def)
  from d have d': "distinct (map InterfaceConfig.name ifs)" by (simp add: ifs_def)
  have ts: "interfaceTargets prep = map interfaceTarget ifs"
    and hv: "hasValidCounterOid prep = (\<exists>i \<in> set ifs. hasCounters (interfaceTarget i))"
    using fold_prepareInterface_targets [of ifs
        "\<lparr>samples = [], interfaceTargets = [], hasValidCounterOid = False\<rparr>"]
    by (simp_all add: prep_def)
  have ps: "map_of (samples prep) (InterfaceConfig.name ifc) = Some (preparedSample ifc)"
    unfolding prep_def by (rule fold_prepareInterface_sample [OF d' mem])
  show ?thesis
  proof (cases "hasValidCounterOid prep")
    case False
    with ne have "RouterSample.interfaces (fst (pollRouter snmp now rid router C)) = samples prep"
      by (simp add: pollRouter_def Let_def ifs_def [symmetric] prep_def [symmetric])
    with False ps hv show ?thesis
      by (simp add: polledSample_def ifs_def [symmetric] ifc_def [symmetric])
  next
    case True
    with ne have r: "RouterSample.interfaces (fst (pollRouter snmp now rid router C)) =
        fst (fold (finishInterface rid now) ifs (polled, C))"
      by (simp add: pollRouter_def Let_def ifs_def [symmetric] prep_def [symmetric]
          polled_def [symmetric])
    have q: "map_of polled (InterfaceConfig.name ifc) =
        Some (queriedSample snmp (interfaceTarget ifc, n) (preparedSample ifc))"
    proof -
      have dz: "distinct (map (\<lambda>tn. InterfaceConfig.name (iface (fst tn)))
          (zip (map interfaceTarget ifs) [0..<length ifs]))"
        unfolding zip_targets_names by (rule d')
      from n have mz: "(interfaceTarget ifc, n) \<in> set (zip (map interfaceTarget ifs) [0..<length ifs])"
        unfolding ifc_def using zip_targets [of n ifs] by (simp add: ifs_def)
      from fold_queryTarget_sample [OF dz mz, of snmp "samples prep"]
      show ?thesis
        by (simp add: polled_def ts interfaceTarget_iface ps)
    qed
    from fold_finishInterface_sample [OF d' mem, of rid now polled C] q True hv
    show ?thesis
      by (simp add: r polledSample_def ifs_def [symmetric] ifc_def [symmetric])
  qed
qed

subsection \<open>The cache after a poll\<close>

text \<open>
  In src/unnamed/part_000, for a router whose interface names are pairwise different,
  the cache entry of the \<open>n\<close>-th interface is set to the counters of this cycle and the
  time \<open>now\<close> when the answer to its request carries a number for its in-octets and for
  its out-octets; in every other case (the request was rejected, a varbind is missing,
  is an error or does not hold a number, or no request was made) the entry is what it
  was. Keys of no interface keep their entry, and no key is ever removed.
\<close>

lemma pollRouter_cache_read:
  assumes d: "distinct (map InterfaceConfig.name (RouterConfig.interfaces router))"
    and n: "n < length (RouterConfig.interfaces router)"
    and i: "ifc = RouterConfig.interfaces router ! n"
  shows "snd (pollRouter snmp now rid router C) (cacheKey rid (InterfaceConfig.name ifc)) =
     (case (counterRead snmp n ifc KindIn, counterRead snmp n ifc KindOut) of
        (Some a, Some b) \<Rightarrow> Some (cacheEntry now (a, b))
      | _ \<Rightarrow> C (cacheKey rid (InterfaceConfig.name ifc)))"
proof -
  define ifs where "ifs = RouterConfig.interfaces router"
  define prep where "prep = fold prepareInterface ifs
      \<lparr>samples = [], interfaceTargets = [], hasValidCounterOid = False\<rparr>"
  define polled where "polled = fold (queryTarget snmp)
      (zip (interfaceTargets prep) [0..<length (interfaceTargets prep)]) (samples prep)"
  from n i have mem: "ifc \<in> set ifs" and ne: "length ifs \<noteq> 0"
    by (auto simp add: ifs_def)
  from d have d': "distinct (map InterfaceConfig.name ifs)" by (simp add: ifs_def)
  have ts: "interfaceTargets prep = map interfaceTarget ifs"
    and hv: "hasValidCounterOid prep = (\<exists>i \<in> set ifs. hasCounters (interfaceTarget i))"
    using fold_prepareInterface_targets [of ifs
        "\<lparr>samples = [], interfaceTargets = [], hasValidCounterOid = False\<rparr>"]
    by (simp_all add: prep_def)
  have ps: "map_of (samples prep) (InterfaceConfig.name ifc) = Some (preparedSample ifc)"
    unfolding prep_def by (rule fold_prepareInterface_sample [OF d' mem])
  show ?thesis
  proof (cases "hasValidCounterOid prep")
    case False
    with ne have c: "snd (pollRouter snmp now rid router C) = C"
      by (simp add: pollRouter_def Let_def ifs_def [symmetric] prep_def [symmetric])
    from False hv mem have "\<not> hasCounters (interfaceTarget ifc)" by auto
    then have "counterRead snmp n ifc KindIn = None"
      by (simp add: counterRead_def answer_def interfaceTarget_eq)
    with c show ?thesis by simp
  next
    case True
    with ne have r: "snd (pollRouter snmp now rid router C) =
        snd (fold (finishInterface rid now) ifs (polled, C))"
      by (simp add: pollRouter_def Let_def ifs_def [symmetric] prep_def [symmetric]
          polled_def [symmetric])
    have q: "map_of polled (InterfaceConfig.name ifc) =
        Some (queriedSample snmp (interfaceTarget ifc, n) (preparedSample ifc))"
    proof -
      have dz: "distinct (map (\<lambda>tn. InterfaceConfig.name (iface (fst tn)))
          (zip (map interfaceTarget ifs) [0..<length ifs]))"
        unfolding zip_targets_names by (rule d')
      from n have mz: "(interfaceTarget ifc, n) \<in> set (zip (map interfaceTarget ifs) [0..<length ifs])"
        unfolding i using zip_targets [of n ifs] by (simp add: ifs_def)
      from fold_queryTarget_sample [OF dz mz, of snmp "samples prep"]
      show ?thesis
        by (simp add: polled_def ts interfaceTarget_iface ps)
    qed
    have cr: "countersRead polled (InterfaceConfig.name ifc) =
        (case (counterRead snmp n ifc KindIn, counterRead snmp n ifc KindOut) of
           (Some a, Some b) \<Rightarrow> Some (a, b)
         | _ \<Rightarrow> None)"
      by (simp add: countersRead_def q queriedSample_read)
    show ?thesis
    proof (cases "countersRead polled (InterfaceConfig.name ifc)")
      case None
      have "\<forall>j \<in> set ifs. cacheKey rid (InterfaceConfig.name j) = cacheKey rid (InterfaceConfig.name ifc) \<longrightarrow>
          countersRead polled (InterfaceConfig.name j) = None"
        using None by (simp add: cacheKey_inject)
      from fold_finishInterface_kept [OF this, of now C] None cr
      show ?thesis
        by (auto simp add: r split: option.splits)
    next
      case (Some ab)
      from fold_finishInterface_written [OF mem Some, of rid now C] Some cr
      show ?thesis
        by (auto simp add: r split: option.splits)
    qed
  qed
qed

lemma pollRouter_cache_written_iff_read:
  assumes names: "distinct (map InterfaceConfig.name (RouterConfig.interfaces router))"
    and n: "n < length (RouterConfig.interfaces router)"
    and ifc: "ifc = RouterConfig.interfaces router ! n"
  shows "snd (pollRouter snmp now rid router C) (cacheKey rid (InterfaceConfig.name ifc)) =
           (case (counterRead snmp n ifc KindIn, counterRead snmp n ifc KindOut) of
              (Some a, Some b) \<Rightarrow> Some (cacheEntry now (a, b))
            | _ \<Rightarrow> C (cacheKey rid (InterfaceConfig.name ifc))) \<and>
         (\<forall>k. (\<forall>i \<in> set (RouterConfig.interfaces router).
                 k \<noteq> cacheKey rid (InterfaceConfig.name i)) \<longrightarrow>
              snd (pollRouter snmp now rid router C) k = C k) \<and>
         (\<forall>k. C k \<noteq> None \<longrightarrow> snd (pollRouter snmp now rid router C) k \<noteq> None)"
proof (intro conjI allI impI)
  show "snd (pollRouter snmp now rid router C) (cacheKey rid (InterfaceConfig.name ifc)) =
           (case (counterRead snmp n ifc KindIn, counterRead snmp n ifc KindOut) of
              (Some a, Some b) \<Rightarrow> Some (cacheEntry now (a, b))
            | _ \<Rightarrow> C (cacheKey rid (InterfaceConfig.name ifc)))"
    by (rule pollRouter_cache_read [OF names n ifc])
next
  fix k
  assume "\<forall>i \<in> set (RouterConfig.interfaces router). k \<noteq> cacheKey rid (InterfaceConfig.name i)"
  then have "\<forall>i \<in> set (RouterConfig.interfaces router).
      cacheKey rid (InterfaceConfig.name i) = k \<longrightarrow>
      countersRead (RouterSample.interfaces (fst (pollRouter snmp now rid router C)))
        (InterfaceConfig.name i) = None"
    by auto
  with pollRouter_v2_cache_frame [of router snmp now rid C, THEN conjunct2, THEN conjunct1]
  show "snd (pollRouter snmp now rid router C) k = C k"
    by simp
next
  fix k
  assume "C k \<noteq> None"
  with pollRouter_v2_cache_frame [of router snmp now rid C, THEN conjunct2, THEN conjunct2]
  show "snd (pollRouter snmp now rid router C) k \<noteq> None"
    by simp
qed

text \<open>
  In src/src/snmp.ts the same holds when, in addition, no OID is requested twice: the
  entry of an interface is set when the answer to the single request carries a number
  for its in-octets OID and for its out-octets OID, and is what it was in every other
  case.
\<close>

lemma prepareInterface_v1_samples:
  "samples_v1 (prepareInterface_v1 ifc acc) =
     AList.update (InterfaceConfig.name ifc) (preparedSample_v1 ifc) (samples_v1 acc)"
  by (simp add: prepareInterface_v1_def preparedSample_v1_def emptyPreparation_v1_def Let_def)

lemma fold_prepareInterface_v1_other:
  "m \<notin> InterfaceConfig.name ` set ifs \<Longrightarrow>
   map_of (samples_v1 (fold prepareInterface_v1 ifs acc)) m = map_of (samples_v1 acc) m"
proof (induction ifs arbitrary: acc)
  case Nil
  show ?case by simp
next
  case (Cons i ifs)
  from Cons.prems have a: "m \<noteq> InterfaceConfig.name i" and b: "m \<notin> InterfaceConfig.name ` set ifs"
    by auto
  have "map_of (samples_v1 (fold prepareInterface_v1 ifs (prepareInterface_v1 i acc))) m =
      map_of (samples_v1 (prepareInterface_v1 i acc)) m"
    by (rule Cons.IH [OF b])
  also have "\<dots> = map_of (samples_v1 acc) m"
    using a by (simp add: prepareInterface_v1_samples update_conv')
  finally show ?case by simp
qed

lemma fold_prepareInterface_v1_sample:
  "distinct (map InterfaceConfig.name ifs) \<Longrightarrow> ifc \<in> set ifs \<Longrightarrow>
   map_of (samples_v1 (fold prepareInterface_v1 ifs acc)) (InterfaceConfig.name ifc) =
     Some (preparedSample_v1 ifc)"
proof (induction ifs arbitrary: acc)
  case Nil
  then show ?case by simp
next
  case (Cons i ifs)
  show ?case
  proof (cases "ifc \<in> set ifs")
    case True
    with Cons show ?thesis by simp
  next
    case False
    from distinct_map_notin [OF Cons.prems(1) False Cons.prems(2)]
    have e: "ifc = i" and n: "InterfaceConfig.name i \<notin> InterfaceConfig.name ` set ifs" by simp_all
    have "map_of (samples_v1 (fold prepareInterface_v1 ifs (prepareInterface_v1 i acc)))
          (InterfaceConfig.name i) =
        map_of (samples_v1 (prepareInterface_v1 i acc)) (InterfaceConfig.name i)"
      by (rule fold_prepareInterface_v1_other [OF n])
    also have "\<dots> = Some (preparedSample_v1 i)"
      by (simp add: prepareInterface_v1_samples update_conv')
    finally show ?thesis by (simp add: e)
  qed
qed

lemma prepareInterface_v1_request:
  "oids (prepareInterface_v1 ifc acc) = oids acc @ map fst (requestEntries_v1 [ifc]) \<and>
   oidMap (prepareInterface_v1 ifc acc) = oidMap acc ++ map_of (rev (requestEntries_v1 [ifc])) \<and>
   hasValidOid (prepareInterface_v1 ifc acc) = (hasValidOid acc \<or> requestEntries_v1 [ifc] \<noteq> [])"
  by (auto simp add: prepareInterface_v1_def Let_def requestEntries_v1_def validOid_def truthy_def
      map_add_def fun_eq_iff split: option.splits)

lemma requestEntries_v1_Cons:
  "requestEntries_v1 (i # ifs) = requestEntries_v1 [i] @ requestEntries_v1 ifs"
  by (simp add: requestEntries_v1_def)

lemma fold_prepareInterface_v1_request:
  "oids (fold prepareInterface_v1 ifs acc) = oids acc @ map fst (requestEntries_v1 ifs) \<and>
   oidMap (fold prepareInterface_v1 ifs acc) = oidMap acc ++ map_of (rev (requestEntries_v1 ifs)) \<and>
   hasValidOid (fold prepareInterface_v1 ifs acc) = (hasValidOid acc \<or> requestEntries_v1 ifs \<noteq> [])"
proof (induction ifs arbitrary: acc)
  case Nil
  show ?case by (simp add: requestEntries_v1_def)
next
  case (Cons i ifs)
  note step = prepareInterface_v1_request [of i acc]
  note ih = Cons.IH [of "prepareInterface_v1 i acc"]
  have "oids (fold prepareInterface_v1 (i # ifs) acc) =
      oids acc @ map fst (requestEntries_v1 (i # ifs))"
    using step ih by (simp add: requestEntries_v1_Cons [of i ifs])
  moreover have "oidMap (fold prepareInterface_v1 (i # ifs) acc) =
      oidMap acc ++ map_of (rev (requestEntries_v1 (i # ifs)))"
    using step ih by (simp add: requestEntries_v1_Cons [of i ifs])
  moreover have "hasValidOid (fold prepareInterface_v1 (i # ifs) acc) =
      (hasValidOid acc \<or> requestEntries_v1 (i # ifs) \<noteq> [])"
    using step ih by (simp add: requestEntries_v1_Cons [of i ifs])
  ultimately show ?case by blast
qed

lemma applyVarbind_v1_counters:
  "map_option InterfaceSample.inOctets (map_of (applyVarbind_v1 snmp om v S) m) =
     map_option (\<lambda>s. if attributed snmp om m DirIn v then parseNumericValue (Some v)
                      else InterfaceSample.inOctets s) (map_of S m) \<and>
   map_option InterfaceSample.outOctets (map_of (applyVarbind_v1 snmp om v S) m) =
     map_option (\<lambda>s. if attributed snmp om m DirOut v then parseNumericValue (Some v)
                      else InterfaceSample.outOctets s) (map_of S m)"
proof (cases "om (normalizeOid (Varbind.oid v))")
  case None
  then show ?thesis
    by (cases "map_of S m") (simp_all add: applyVarbind_v1_def attributed_def)
next
  case (Some meta)
  obtain i d where meta: "meta = (i, d)" by (cases meta)
  show ?thesis
  proof (cases "map_of S m")
    case None
    then show ?thesis
      by (auto simp add: applyVarbind_v1_def Some update_conv' split: option.splits)
  next
    case s: (Some s0)
    show ?thesis
    proof (cases "InterfaceConfig.name i = m")
      case False
      then show ?thesis
        by (auto simp add: applyVarbind_v1_def Some meta s attributed_def update_conv'
            split: option.splits)
    next
      case True
      then show ?thesis
        by (cases d)
          (auto simp add: applyVarbind_v1_def Some meta s attributed_def update_conv' setError_def
            parseNumericValue_def split: option.splits VarbindValue.splits)
    qed
  qed
qed

lemma fold_applyVarbind_v1_counters:
  "map_option InterfaceSample.inOctets (map_of (fold (applyVarbind_v1 snmp om) vbs S) m) =
     map_option (\<lambda>s. case find (attributed snmp om m DirIn) (rev vbs) of
                        Some v \<Rightarrow> parseNumericValue (Some v)
                      | None \<Rightarrow> InterfaceSample.inOctets s) (map_of S m) \<and>
   map_option InterfaceSample.outOctets (map_of (fold (applyVarbind_v1 snmp om) vbs S) m) =
     map_option (\<lambda>s. case find (attributed snmp om m DirOut) (rev vbs) of
                        Some v \<Rightarrow> parseNumericValue (Some v)
                      | None \<Rightarrow> InterfaceSample.outOctets s) (map_of S m)"
proof (induction vbs rule: rev_induct)
  case Nil
  show ?case by (simp add: option.map_ident)
next
  case (snoc v vbs)
  let ?S = "fold (applyVarbind_v1 snmp om) vbs S"
  have st: "fold (applyVarbind_v1 snmp om) (vbs @ [v]) S = applyVarbind_v1 snmp om v ?S"
    by simp
  show ?case
    unfolding st
    using snoc.IH applyVarbind_v1_counters [of snmp om v ?S m]
    by (cases "map_of S m"; cases "map_of ?S m") (auto split: option.splits)
qed

lemma requestEntries_v1_mem:
  "(r, (i, d)) \<in> set (requestEntries_v1 ifs) \<longleftrightarrow>
     i \<in> set ifs \<and> validOid (if d = DirIn then oid_in i else oid_out i) = Some r"
  by (cases d) (auto simp add: requestEntries_v1_def split: option.splits)

lemma attributed_own:
  assumes names: "distinct (map InterfaceConfig.name ifs)"
    and once: "distinct (map fst (requestEntries_v1 ifs))"
    and mem: "ifc \<in> set ifs"
  shows "attributed snmp (map_of (rev (requestEntries_v1 ifs))) (InterfaceConfig.name ifc) d vb =
     carries_v1 snmp (validOid (if d = DirIn then oid_in ifc else oid_out ifc)) vb"
proof -
  let ?regs = "requestEntries_v1 ifs"
  let ?r = "normalizeOid (Varbind.oid vb)"
  from once have dr: "distinct (map fst (rev ?regs))" by (simp add: rev_map [symmetric])
  have own: "(case map_of (rev ?regs) ?r of
         None \<Rightarrow> False
       | Some meta \<Rightarrow> InterfaceConfig.name (fst meta) = InterfaceConfig.name ifc \<and> snd meta = d) =
      (validOid (if d = DirIn then oid_in ifc else oid_out ifc) = Some ?r)"
  proof (cases "map_of (rev ?regs) ?r")
    case None
    have "validOid (if d = DirIn then oid_in ifc else oid_out ifc) \<noteq> Some ?r"
    proof
      assume "validOid (if d = DirIn then oid_in ifc else oid_out ifc) = Some ?r"
      with mem have "(?r, (ifc, d)) \<in> set (rev ?regs)"
        by (simp add: requestEntries_v1_mem)
      with dr have "map_of (rev ?regs) ?r = Some (ifc, d)"
        by (simp only: map_of_eq_Some_iff)
      with None show False by simp
    qed
    with None show ?thesis by simp
  next
    case (Some meta)
    obtain i e where meta: "meta = (i, e)" by (cases meta)
    from Some dr have "(?r, (i, e)) \<in> set (rev ?regs)"
      by (simp only: meta map_of_eq_Some_iff)
    then have i: "i \<in> set ifs"
      and v: "validOid (if e = DirIn then oid_in i else oid_out i) = Some ?r"
      by (simp_all add: requestEntries_v1_mem)
    show ?thesis
    proof
      assume "case map_of (rev ?regs) ?r of
         None \<Rightarrow> False
       | Some meta \<Rightarrow> InterfaceConfig.name (fst meta) = InterfaceConfig.name ifc \<and> snd meta = d"
      with Some meta have n: "InterfaceConfig.name i = InterfaceConfig.name ifc" and e: "e = d"
        by simp_all
      from names have "inj_on InterfaceConfig.name (set ifs)" by (simp add: distinct_map)
      with n i mem have "i = ifc" by (auto dest: inj_onD)
      with v e show "validOid (if d = DirIn then oid_in ifc else oid_out ifc) = Some ?r"
        by (auto split: if_splits)
    next
      assume "validOid (if d = DirIn then oid_in ifc else oid_out ifc) = Some ?r"
      with mem have "(?r, (ifc, d)) \<in> set (rev ?regs)"
        by (simp add: requestEntries_v1_mem)
      with dr have "map_of (rev ?regs) ?r = Some (ifc, d)"
        by (simp only: map_of_eq_Some_iff)
      then show "case map_of (rev ?regs) ?r of
         None \<Rightarrow> False
       | Some meta \<Rightarrow> InterfaceConfig.name (fst meta) = InterfaceConfig.name ifc \<and> snd meta = d"
        by simp
    qed
  qed
  show ?thesis
    unfolding attributed_def carries_v1_def own by auto
qed

lemma preparedSample_v1_counters:
  "InterfaceSample.inOctets (preparedSample_v1 ifc) = None"
  "InterfaceSample.outOctets (preparedSample_v1 ifc) = None"
  by (simp_all add: preparedSample_v1_def prepareInterface_v1_def emptyPreparation_v1_def Let_def
      setError_def makeInterfaceSample_v1_def)

lemma pollRouter_v1_cache_read:
  assumes names: "distinct (map InterfaceConfig.name (RouterConfig.interfaces router))"
    and once: "distinct (map fst (requestEntries_v1 (RouterConfig.interfaces router)))"
    and mem: "ifc \<in> set (RouterConfig.interfaces router)"
  shows "snd (pollRouter_v1 snmp now rid router C) (cacheKey rid (InterfaceConfig.name ifc)) =
     (case (counterRead_v1 snmp (RouterConfig.interfaces router) ifc DirIn,
            counterRead_v1 snmp (RouterConfig.interfaces router) ifc DirOut) of
        (Some a, Some b) \<Rightarrow> Some (cacheEntry now (a, b))
      | _ \<Rightarrow> C (cacheKey rid (InterfaceConfig.name ifc)))"
proof -
  define ifs where "ifs = RouterConfig.interfaces router"
  define prep where "prep = fold prepareInterface_v1 ifs
      \<lparr>samples_v1 = [], oids = [], oidMap = Map.empty, hasValidOid = False\<rparr>"
  let ?regs = "requestEntries_v1 ifs"
  from mem have mem': "ifc \<in> set ifs" and ne: "length ifs \<noteq> 0"
    by (auto simp add: ifs_def)
  from names have names': "distinct (map InterfaceConfig.name ifs)" by (simp add: ifs_def)
  from once have once': "distinct (map fst ?regs)" by (simp add: ifs_def)
  have req: "oids prep = map fst ?regs" "oidMap prep = map_of (rev ?regs)"
    "hasValidOid prep = (?regs \<noteq> [])"
    using fold_prepareInterface_v1_request [of ifs
        "\<lparr>samples_v1 = [], oids = [], oidMap = Map.empty, hasValidOid = False\<rparr>"]
    by (simp_all add: prep_def)
  have ps: "map_of (samples_v1 prep) (InterfaceConfig.name ifc) = Some (preparedSample_v1 ifc)"
    unfolding prep_def by (rule fold_prepareInterface_v1_sample [OF names' mem'])
  consider (early) "?regs = []"
    | (failed) message where "?regs \<noteq> []" "get snmp 0 (map fst ?regs) = Inl message"
    | (answered) varbinds where "?regs \<noteq> []" "get snmp 0 (map fst ?regs) = Inr varbinds"
    by (cases "get snmp 0 (map fst ?regs)") auto
  then show ?thesis
  proof cases
    case early
    with ne req(1) req(3) have c: "snd (pollRouter_v1 snmp now rid router C) = C"
      by (simp add: pollRouter_v1_def Let_def ifs_def [symmetric] prep_def [symmetric])
    from early have "answer_v1 snmp ifs = None" by (simp add: answer_v1_def)
    then show ?thesis
      by (simp add: c counterRead_v1_def ifs_def [symmetric])
  next
    case failed
    with ne req(1) req(3) have c: "snd (pollRouter_v1 snmp now rid router C) = C"
      by (simp add: pollRouter_v1_def Let_def ifs_def [symmetric] prep_def [symmetric])
    from failed have "answer_v1 snmp ifs = None" by (simp add: answer_v1_def)
    then show ?thesis
      by (simp add: c counterRead_v1_def ifs_def [symmetric])
  next
    case answered
    define polled where "polled = fold (applyVarbind_v1 snmp (oidMap prep)) varbinds (samples_v1 prep)"
    from answered ne req(1) req(3) have r: "snd (pollRouter_v1 snmp now rid router C) =
        snd (fold (finishInterface rid now) ifs (polled, C))"
      by (simp add: pollRouter_v1_def Let_def ifs_def [symmetric] prep_def [symmetric]
          polled_def [symmetric])
    from answered have a: "answer_v1 snmp ifs = Some varbinds" by (simp add: answer_v1_def)
    have att: "attributed snmp (oidMap prep) (InterfaceConfig.name ifc) d =
        carries_v1 snmp (validOid (if d = DirIn then oid_in ifc else oid_out ifc))" for d
      unfolding req by (rule ext) (rule attributed_own [OF names' once' mem'])
    from fold_applyVarbind_v1_counters [of snmp "oidMap prep" varbinds "samples_v1 prep"
        "InterfaceConfig.name ifc"]
    obtain s1 where s1: "map_of polled (InterfaceConfig.name ifc) = Some s1"
      and i1: "InterfaceSample.inOctets s1 = counterRead_v1 snmp ifs ifc DirIn"
      and o1: "InterfaceSample.outOctets s1 = counterRead_v1 snmp ifs ifc DirOut"
      by (auto simp add: polled_def ps att a counterRead_v1_def preparedSample_v1_counters
          split: option.splits)
    have cr: "countersRead polled (InterfaceConfig.name ifc) =
        (case (counterRead_v1 snmp ifs ifc DirIn, counterRead_v1 snmp ifs ifc DirOut) of
           (Some a, Some b) \<Rightarrow> Some (a, b)
         | _ \<Rightarrow> None)"
      by (simp add: countersRead_def s1 i1 o1)
    show ?thesis
    proof (cases "countersRead polled (InterfaceConfig.name ifc)")
      case None
      have "\<forall>j \<in> set ifs. cacheKey rid (InterfaceConfig.name j) = cacheKey rid (InterfaceConfig.name ifc) \<longrightarrow>
          countersRead polled (InterfaceConfig.name j) = None"
        using None by (simp add: cacheKey_inject)
      from fold_finishInterface_kept [OF this, of now C] None cr
      show ?thesis
        by (auto simp add: r ifs_def [symmetric] split: option.splits)
    next
      case (Some ab)
      from fold_finishInterface_written [OF mem' Some, of rid now C] Some cr
      show ?thesis
        by (auto simp add: r ifs_def [symmetric] split: option.splits)
    qed
  qed
qed

lemma sanitize_speed:
  "sanitizeOid ''1.3'' = \<lparr>Sanitized.oid = Some ''1.3'', Sanitized.error = None\<rparr>"
  by (simp add: sanitizeOid_def trim_def isWhiteSpace_def isDigits_def Let_def)

lemma sanitize_plain:
  "sanitizeOid ''1.1'' = \<lparr>Sanitized.oid = Some ''1.1'', Sanitized.error = None\<rparr>"
  by (simp add: sanitizeOid_def trim_def isWhiteSpace_def isDigits_def Let_def)

lemma shared_oids_v1:
  "oids (fold prepareInterface_v1 (RouterConfig.interfaces shared_router)
      \<lparr>samples_v1 = [], oids = [], oidMap = Map.empty, hasValidOid = False\<rparr>) =
     [''1.1'', ''1.2'', ''1.1'', ''1.3'']"
  by (simp add: shared_router_def prepareInterface_v1_def Let_def sanitize_plain sanitize_examples
      sanitize_speed truthy_def)

lemmas shared_eval =
  shared_router_def counting_snmp_def sanitize_plain sanitize_examples sanitize_speed truthy_def
  Let_def parseNumericValue_def setError_def computeThroughput_def metricStatus_def
  combineStatuses_def statusRank_def cacheKey_def cacheEntry_def makeInterfaceSample_def
  makeInterfaceSample_v1_def finishInterface_def normalizeOid_def trim_def isWhiteSpace_def

lemma shared_read_v1:
  "counterRead_v1 counting_snmp (RouterConfig.interfaces shared_router)
     (RouterConfig.interfaces shared_router ! 0) DirIn = Some 100"
  "counterRead_v1 counting_snmp (RouterConfig.interfaces shared_router)
     (RouterConfig.interfaces shared_router ! 0) DirOut = Some 200"
  by (simp_all add: counterRead_v1_def answer_v1_def requestEntries_v1_def validOid_def
      carries_v1_def shared_eval)

lemma shared_once:
  "\<not> distinct (map fst (requestEntries_v1 (RouterConfig.interfaces shared_router)))"
  by (simp add: requestEntries_v1_def validOid_def shared_eval)

lemma shared_oid_poll:
  "get counting_snmp 0
     (oids (fold prepareInterface_v1 (RouterConfig.interfaces shared_router)
        \<lparr>samples_v1 = [], oids = [], oidMap = Map.empty, hasValidOid = False\<rparr>)) =
     Inr [\<lparr>Varbind.oid = ''1.1'', type = 65, value = NumberValue 100\<rparr>,
          \<lparr>Varbind.oid = ''1.2'', type = 65, value = NumberValue 200\<rparr>,
          \<lparr>Varbind.oid = ''1.1'', type = 65, value = NumberValue 100\<rparr>,
          \<lparr>Varbind.oid = ''1.3'', type = 65, value = NumberValue 300\<rparr>] \<and>
   \<not> distinct (map fst (requestEntries_v1 (RouterConfig.interfaces shared_router))) \<and>
   counterRead_v1 counting_snmp (RouterConfig.interfaces shared_router)
     (RouterConfig.interfaces shared_router ! 0) DirIn = Some 100 \<and>
   counterRead_v1 counting_snmp (RouterConfig.interfaces shared_router)
     (RouterConfig.interfaces shared_router ! 0) DirOut = Some 200 \<and>
   snd (pollRouter_v1 counting_snmp 5000 ''r1'' shared_router Map.empty) ''r1:a'' = None \<and>
   snd (pollRouter_v1 counting_snmp 5000 ''r1'' shared_router Map.empty) ''r1:b'' =
     Some (cacheEntry 5000 (100, 300)) \<and>
   snd (pollRouter counting_snmp 5000 ''r1'' shared_router Map.empty) ''r1:a'' =
     Some (cacheEntry 5000 (100, 200)) \<and>
   snd (pollRouter counting_snmp 5000 ''r1'' shared_router Map.empty) ''r1:b'' =
     Some (cacheEntry 5000 (100, 300))"
proof (intro conjI)
  show "get counting_snmp 0
     (oids (fold prepareInterface_v1 (RouterConfig.interfaces shared_router)
        \<lparr>samples_v1 = [], oids = [], oidMap = Map.empty, hasValidOid = False\<rparr>)) =
     Inr [\<lparr>Varbind.oid = ''1.1'', type = 65, value = NumberValue 100\<rparr>,
          \<lparr>Varbind.oid = ''1.2'', type = 65, value = NumberValue 200\<rparr>,
          \<lparr>Varbind.oid = ''1.1'', type = 65, value = NumberValue 100\<rparr>,
          \<lparr>Varbind.oid = ''1.3'', type = 65, value = NumberValue 300\<rparr>]"
    unfolding shared_oids_v1 by (simp add: counting_snmp_def)
  show "\<not> distinct (map fst (requestEntries_v1 (RouterConfig.interfaces shared_router)))"
    by (rule shared_once)
  show "counterRead_v1 counting_snmp (RouterConfig.interfaces shared_router)
     (RouterConfig.interfaces shared_router ! 0) DirIn = Some 100"
    by (rule shared_read_v1)
  show "counterRead_v1 counting_snmp (RouterConfig.interfaces shared_router)
     (RouterConfig.interfaces shared_router ! 0) DirOut = Some 200"
    by (rule shared_read_v1)
  show "snd (pollRouter_v1 counting_snmp 5000 ''r1'' shared_router Map.empty) ''r1:a'' = None"
    by (simp add: pollRouter_v1_def prepareInterface_v1_def applyVarbind_v1_def shared_eval)
  show "snd (pollRouter_v1 counting_snmp 5000 ''r1'' shared_router Map.empty) ''r1:b'' =
     Some (cacheEntry 5000 (100, 300))"
    by (simp add: pollRouter_v1_def prepareInterface_v1_def applyVarbind_v1_def shared_eval)
  show "snd (pollRouter counting_snmp 5000 ''r1'' shared_router Map.empty) ''r1:a'' =
     Some (cacheEntry 5000 (100, 200))"
    by (simp add: pollRouter_def prepareInterface_def queryTarget_def applyVarbind_def shared_eval
        upt_rec [of 0] upt_rec [of 1])
  show "snd (pollRouter counting_snmp 5000 ''r1'' shared_router Map.empty) ''r1:b'' =
     Some (cacheEntry 5000 (100, 300))"
    by (simp add: pollRouter_def prepareInterface_def queryTarget_def applyVarbind_def shared_eval
        upt_rec [of 0] upt_rec [of 1])
qed

text \<open>
  C10. For a router whose interface names are pairwise different. In
  src/unnamed/part_000 the cache entry of the \<open>n\<close>-th interface is set to the counters of
  this cycle and the time \<open>now\<close> exactly when the answer to its request carries a number
  for its in-octets and for its out-octets, and is what it was in every other case (the
  request was rejected, a varbind is missing, is an error or holds no number, or no
  request was made). In src/src/snmp.ts the same holds for the answer to the single
  request when no OID is requested twice. In both revisions the keys of no interface
  keep their entry, and no key is ever removed. The condition on src/src/snmp.ts cannot
  be dropped: \<open>oidMap\<close> holds one interface and direction per OID, the one registered
  last. For the router whose interfaces \<open>a\<close> and \<open>b\<close> share the in-octets OID 1.1 the
  request carries the OIDs 1.1, 1.2, 1.1, 1.3 and the device answers each of them with
  a number, so the answer holds a number for the in-octets and for the out-octets of
  \<open>a\<close>; both varbinds of 1.1 go to \<open>b\<close>, the in-octets of \<open>a\<close> stay unset, and no cache
  entry is written for \<open>a\<close>. For the same router and the same device
  src/unnamed/part_000, which requests every interface on its own and matches the
  varbinds by position, writes the entry of \<open>a\<close>.
\<close>

theorem pollRouter_cache_overwrite:
  assumes names: "distinct (map InterfaceConfig.name (RouterConfig.interfaces router))"
    and n: "n < length (RouterConfig.interfaces router)"
    and ifc: "ifc = RouterConfig.interfaces router ! n"
  shows "snd (pollRouter snmp now rid router C) (cacheKey rid (InterfaceConfig.name ifc)) =
           (case (counterRead snmp n ifc KindIn, counterRead snmp n ifc KindOut) of
              (Some a, Some b) \<Rightarrow> Some (cacheEntry now (a, b))
            | _ \<Rightarrow> C (cacheKey rid (InterfaceConfig.name ifc))) \<and>
         (distinct (map fst (requestEntries_v1 (RouterConfig.interfaces router))) \<longrightarrow>
          snd (pollRouter_v1 snmp now rid router C) (cacheKey rid (InterfaceConfig.name ifc)) =
           (case (counterRead_v1 snmp (RouterConfig.interfaces router) ifc DirIn,
                  counterRead_v1 snmp (RouterConfig.interfaces router) ifc DirOut) of
              (Some a, Some b) \<Rightarrow> Some (cacheEntry now (a, b))
            | _ \<Rightarrow> C (cacheKey rid (InterfaceConfig.name ifc)))) \<and>
         (\<forall>k. (\<forall>i \<in> set (RouterConfig.interfaces router).
                 k \<noteq> cacheKey rid (InterfaceConfig.name i)) \<longrightarrow>
              snd (pollRouter snmp now rid router C) k = C k \<and>
              snd (pollRouter_v1 snmp now rid router C) k = C k) \<and>
         (\<forall>k. C k \<noteq> None \<longrightarrow>
              snd (pollRouter snmp now rid router C) k \<noteq> None \<and>
              snd (pollRouter_v1 snmp now rid router C) k \<noteq> None) \<and>
         (\<not> distinct (map fst (requestEntries_v1 (RouterConfig.interfaces shared_router))) \<and>
          counterRead_v1 counting_snmp (RouterConfig.interfaces shared_router)
            (RouterConfig.interfaces shared_router ! 0) DirIn = Some 100 \<and>
          counterRead_v1 counting_snmp (RouterConfig.interfaces shared_router)
            (RouterConfig.interfaces shared_router ! 0) DirOut = Some 200 \<and>
          snd (pollRouter_v1 counting_snmp 5000 ''r1'' shared_router Map.empty) ''r1:a'' = None \<and>
          snd (pollRouter counting_snmp 5000 ''r1'' shared_router Map.empty) ''r1:a'' =
            Some (cacheEntry 5000 (100, 200)))"
proof (intro conjI)
  from n have mem: "ifc \<in> set (RouterConfig.interfaces router)" by (simp add: ifc)
  note v2 = pollRouter_cache_written_iff_read [OF names n ifc, of snmp now rid C]
  show "snd (pollRouter snmp now rid router C) (cacheKey rid (InterfaceConfig.name ifc)) =
           (case (counterRead snmp n ifc KindIn, counterRead snmp n ifc KindOut) of
              (Some a, Some b) \<Rightarrow> Some (cacheEntry now (a, b))
            | _ \<Rightarrow> C (cacheKey rid (InterfaceConfig.name ifc)))"
    by (rule v2 [THEN conjunct1])
  show "distinct (map fst (requestEntries_v1 (RouterConfig.interfaces router))) \<longrightarrow>
          snd (pollRouter_v1 snmp now rid router C) (cacheKey rid (InterfaceConfig.name ifc)) =
           (case (counterRead_v1 snmp (RouterConfig.interfaces router) ifc DirIn,
                  counterRead_v1 snmp (RouterConfig.interfaces router) ifc DirOut) of
              (Some a, Some b) \<Rightarrow> Some (cacheEntry now (a, b))
            | _ \<Rightarrow> C (cacheKey rid (InterfaceConfig.name ifc)))"
    using pollRouter_v1_cache_read [OF names _ mem, of snmp now rid C] by blast
  show "\<forall>k. (\<forall>i \<in> set (RouterConfig.interfaces router).
                 k \<noteq> cacheKey rid (InterfaceConfig.name i)) \<longrightarrow>
              snd (pollRouter snmp now rid router C) k = C k \<and>
              snd (pollRouter_v1 snmp now rid router C) k = C k"
  proof (intro allI impI)
    fix k
    assume "\<forall>i \<in> set (RouterConfig.interfaces router). k \<noteq> cacheKey rid (InterfaceConfig.name i)"
    then have a: "\<forall>i \<in> set (RouterConfig.interfaces router).
        cacheKey rid (InterfaceConfig.name i) = k \<longrightarrow>
        countersRead (RouterSample.interfaces (fst (pollRouter snmp now rid router C)))
          (InterfaceConfig.name i) = None"
      and b: "\<forall>i \<in> set (RouterConfig.interfaces router).
        cacheKey rid (InterfaceConfig.name i) = k \<longrightarrow>
        countersRead (RouterSample.interfaces (fst (pollRouter_v1 snmp now rid router C)))
          (InterfaceConfig.name i) = None"
      by auto
    from a pollRouter_v2_cache_frame [of router snmp now rid C, THEN conjunct2, THEN conjunct1]
    have "snd (pollRouter snmp now rid router C) k = C k" by simp
    moreover from b pollRouter_v1_cache_frame [of router snmp now rid C, THEN conjunct2, THEN conjunct1]
    have "snd (pollRouter_v1 snmp now rid router C) k = C k" by simp
    ultimately show "snd (pollRouter snmp now rid router C) k = C k \<and>
        snd (pollRouter_v1 snmp now rid router C) k = C k"
      by (rule conjI)
  qed
  show "\<forall>k. C k \<noteq> None \<longrightarrow>
              snd (pollRouter snmp now rid router C) k \<noteq> None \<and>
              snd (pollRouter_v1 snmp now rid router C) k \<noteq> None"
    using pollRouter_v2_cache_frame [of router snmp now rid C, THEN conjunct2, THEN conjunct2]
      pollRouter_v1_cache_frame [of router snmp now rid C, THEN conjunct2, THEN conjunct2]
    by simp
  show "\<not> distinct (map fst (requestEntries_v1 (RouterConfig.interfaces shared_router)))"
    by (rule shared_once)
  show "counterRead_v1 counting_snmp (RouterConfig.interfaces shared_router)
            (RouterConfig.interfaces shared_router ! 0) DirIn = Some 100"
    by (rule shared_read_v1)
  show "counterRead_v1 counting_snmp (RouterConfig.interfaces shared_router)
            (RouterConfig.interfaces shared_router ! 0) DirOut = Some 200"
    by (rule shared_read_v1)
  show "snd (pollRouter_v1 counting_snmp 5000 ''r1'' shared_router Map.empty) ''r1:a'' = None"
    using shared_oid_poll by simp
  show "snd (pollRouter counting_snmp 5000 ''r1'' shared_router Map.empty) ''r1:a'' =
            Some (cacheEntry 5000 (100, 200))"
    using shared_oid_poll by simp
qed

lemma example_request:
  "requestEntries example_interface = [(''1.1'', KindIn), (''1.2'', KindOut)]"
  "requestMade example_interface"
  "requestEntries_v1 [example_interface] =
     [(''1.1'', (example_interface, DirIn)), (''1.2'', (example_interface, DirOut))]"
  by (simp_all add: requestEntries_def requestMade_def requestEntries_v1_def validOid_def
      example_interface_def sanitize_examples truthy_def)

lemma example_read:
  "counterRead (example_snmp (Inr (example_answer out))) 0 example_interface KindIn = Some 2000"
  "counterRead (example_snmp (Inr (example_answer out))) 0 example_interface KindOut =
     (case out of NumberValue b \<Rightarrow> Some b | OtherValue \<Rightarrow> None)"
  "counterRead (example_snmp (Inr [hd (example_answer out)])) 0 example_interface KindOut = None"
  "counterRead (example_snmp (Inl message)) 0 example_interface KindIn = None"
  by (simp_all add: counterRead_def answer_def example_request example_snmp_def example_answer_def
      numberRead_def carries_def parseNumericValue_def upt_rec [of 0]
      split: VarbindValue.splits)

lemma example_read_v1:
  "counterRead_v1 (example_snmp (Inr (example_answer out))) [example_interface]
     example_interface DirIn = Some 2000"
  "counterRead_v1 (example_snmp (Inr (example_answer out))) [example_interface]
     example_interface DirOut = (case out of NumberValue b \<Rightarrow> Some b | OtherValue \<Rightarrow> None)"
  "counterRead_v1 (example_snmp (Inr [hd (example_answer out)])) [example_interface]
     example_interface DirOut = None"
  "counterRead_v1 (example_snmp (Inl message)) [example_interface] example_interface DirIn = None"
proof -
  have v: "validOid (oid_in example_interface) = Some ''1.1''"
    "validOid (oid_out example_interface) = Some ''1.2''"
    by (simp_all add: validOid_def example_interface_def sanitize_examples truthy_def)
  show "counterRead_v1 (example_snmp (Inr (example_answer out))) [example_interface]
     example_interface DirIn = Some 2000"
    "counterRead_v1 (example_snmp (Inr (example_answer out))) [example_interface]
     example_interface DirOut = (case out of NumberValue b \<Rightarrow> Some b | OtherValue \<Rightarrow> None)"
    "counterRead_v1 (example_snmp (Inr [hd (example_answer out)])) [example_interface]
     example_interface DirOut = None"
    "counterRead_v1 (example_snmp (Inl message)) [example_interface] example_interface DirIn = None"
    by (simp_all add: counterRead_v1_def answer_v1_def example_request v example_snmp_def
        example_answer_def carries_v1_def parseNumericValue_def normalizeOid_def trim_def
        isWhiteSpace_def split: VarbindValue.splits)
qed

theorem pollRouter_cache_overwrite_witness:
  "snd (pollRouter (example_snmp (Inr (example_answer (NumberValue 500)))) 5000 ''r1''
          example_router example_cache) ''r1:eth0'' = Some (cacheEntry 5000 (2000, 500)) \<and>
   snd (pollRouter (example_snmp (Inr (example_answer (NumberValue 500)))) 5000 ''r1''
          example_router example_cache) ''r1:gone'' = Some (cacheEntry 0 (1, 2)) \<and>
   snd (pollRouter (example_snmp (Inr (example_answer OtherValue))) 5000 ''r1''
          example_router example_cache) ''r1:eth0'' = Some (cacheEntry 0 (7, 8)) \<and>
   snd (pollRouter (example_snmp (Inr [hd (example_answer (NumberValue 500))])) 5000 ''r1''
          example_router example_cache) ''r1:eth0'' = Some (cacheEntry 0 (7, 8)) \<and>
   snd (pollRouter (example_snmp (Inl ''Request timed out'')) 5000 ''r1''
          example_router example_cache) ''r1:eth0'' = Some (cacheEntry 0 (7, 8)) \<and>
   snd (pollRouter_v1 (example_snmp (Inr (example_answer (NumberValue 500)))) 5000 ''r1''
          example_router example_cache) ''r1:eth0'' = Some (cacheEntry 5000 (2000, 500)) \<and>
   snd (pollRouter_v1 (example_snmp (Inr (example_answer OtherValue))) 5000 ''r1''
          example_router example_cache) ''r1:eth0'' = Some (cacheEntry 0 (7, 8)) \<and>
   snd (pollRouter_v1 (example_snmp (Inr [hd (example_answer (NumberValue 500))])) 5000 ''r1''
          example_router example_cache) ''r1:eth0'' = Some (cacheEntry 0 (7, 8)) \<and>
   snd (pollRouter_v1 (example_snmp (Inl ''Request timed out'')) 5000 ''r1''
          example_router example_cache) ''r1:eth0'' = Some (cacheEntry 0 (7, 8)) \<and>
   snd (pollRouter_v1 (example_snmp (Inl ''Request timed out'')) 5000 ''r1''
          example_router example_cache) ''r1:gone'' = Some (cacheEntry 0 (1, 2)) \<and>
   snd (pollRouter (example_snmp (Inr [])) 5000 ''r1'' example_router example_cache) ''r1:eth0'' \<noteq>
     None \<and>
   snd (pollRouter_v1 counting_snmp 5000 ''r1'' shared_router Map.empty) ''r1:a'' = None \<and>
   snd (pollRouter counting_snmp 5000 ''r1'' shared_router Map.empty) ''r1:a'' =
     Some (cacheEntry 5000 (100, 200))"
proof -
  have d: "distinct (map InterfaceConfig.name (RouterConfig.interfaces example_router))"
    and n: "0 < length (RouterConfig.interfaces example_router)"
    and i: "example_interface = RouterConfig.interfaces example_router ! 0"
    and ifs: "RouterConfig.interfaces example_router = [example_interface]"
    by (simp_all add: example_router_def)
  have nm: "cacheKey ''r1'' (InterfaceConfig.name example_interface) = ''r1:eth0''"
    by (simp add: example_interface_def cacheKey_def)
  have c: "example_cache ''r1:eth0'' = Some (cacheEntry 0 (7, 8))"
    "example_cache ''r1:gone'' = Some (cacheEntry 0 (1, 2))"
    by (simp_all add: example_cache_def)
  have once: "distinct (map fst (requestEntries_v1 (RouterConfig.interfaces example_router)))"
    by (simp add: ifs example_request)
  have other: "\<forall>i \<in> set (RouterConfig.interfaces example_router).
      ''r1:gone'' \<noteq> cacheKey ''r1'' (InterfaceConfig.name i)"
    by (simp add: ifs nm)
  note t = pollRouter_cache_overwrite [OF d n i, where rid = "''r1''" and now = 5000
      and C = example_cache]
  note v2 = t [THEN conjunct1, unfolded nm]
  note v1 = t [THEN conjunct2, THEN conjunct1, THEN mp, OF once, unfolded nm ifs]
  note frame = t [THEN conjunct2, THEN conjunct2, THEN conjunct1, THEN spec, THEN mp, OF other,
      THEN conjunct1]
  note frame_v1 = t [THEN conjunct2, THEN conjunct2, THEN conjunct1, THEN spec, THEN mp, OF other,
      THEN conjunct2]
  have cne: "example_cache ''r1:eth0'' \<noteq> None" by (simp add: c)
  note kept = t [THEN conjunct2, THEN conjunct2, THEN conjunct2, THEN conjunct1, THEN spec,
      THEN mp, OF cne, THEN conjunct1]
  note shared = t [THEN conjunct2, THEN conjunct2, THEN conjunct2, THEN conjunct2]
  have a1: "snd (pollRouter (example_snmp (Inr (example_answer (NumberValue 500)))) 5000 ''r1''
          example_router example_cache) ''r1:eth0'' = Some (cacheEntry 5000 (2000, 500))"
    using v2 [of "example_snmp (Inr (example_answer (NumberValue 500)))"]
    by (simp add: example_read)
  have a2: "snd (pollRouter (example_snmp (Inr (example_answer (NumberValue 500)))) 5000 ''r1''
          example_router example_cache) ''r1:gone'' = Some (cacheEntry 0 (1, 2))"
    using frame [of "example_snmp (Inr (example_answer (NumberValue 500)))"]
    by (simp add: c)
  have a3: "snd (pollRouter (example_snmp (Inr (example_answer OtherValue))) 5000 ''r1''
          example_router example_cache) ''r1:eth0'' = Some (cacheEntry 0 (7, 8))"
    using v2 [of "example_snmp (Inr (example_answer OtherValue))"]
    by (simp add: example_read c)
  have a4: "snd (pollRouter (example_snmp (Inr [hd (example_answer (NumberValue 500))])) 5000 ''r1''
          example_router example_cache) ''r1:eth0'' = Some (cacheEntry 0 (7, 8))"
    using v2 [of "example_snmp (Inr [hd (example_answer (NumberValue 500))])"]
    by (simp add: example_read c split: option.splits)
  have a5: "snd (pollRouter (example_snmp (Inl ''Request timed out'')) 5000 ''r1''
          example_router example_cache) ''r1:eth0'' = Some (cacheEntry 0 (7, 8))"
    using v2 [of "example_snmp (Inl ''Request timed out'')"]
    by (simp add: example_read c)
  have b1: "snd (pollRouter_v1 (example_snmp (Inr (example_answer (NumberValue 500)))) 5000 ''r1''
          example_router example_cache) ''r1:eth0'' = Some (cacheEntry 5000 (2000, 500))"
    using v1 [of "example_snmp (Inr (example_answer (NumberValue 500)))"]
    by (simp add: example_read_v1)
  have b2: "snd (pollRouter_v1 (example_snmp (Inr (example_answer OtherValue))) 5000 ''r1''
          example_router example_cache) ''r1:eth0'' = Some (cacheEntry 0 (7, 8))"
    using v1 [of "example_snmp (Inr (example_answer OtherValue))"]
    by (simp add: example_read_v1 c)
  have b3: "snd (pollRouter_v1 (example_snmp (Inl ''Request timed out'')) 5000 ''r1''
          example_router example_cache) ''r1:eth0'' = Some (cacheEntry 0 (7, 8))"
    using v1 [of "example_snmp (Inl ''Request timed out'')"]
    by (simp add: example_read_v1 c)
  have b4: "snd (pollRouter_v1 (example_snmp (Inr [hd (example_answer (NumberValue 500))])) 5000 ''r1''
          example_router example_cache) ''r1:eth0'' = Some (cacheEntry 0 (7, 8))"
    using v1 [of "example_snmp (Inr [hd (example_answer (NumberValue 500))])"]
    by (simp add: example_read_v1 c split: option.splits)
  have b5: "snd (pollRouter_v1 (example_snmp (Inl ''Request timed out'')) 5000 ''r1''
          example_router example_cache) ''r1:gone'' = Some (cacheEntry 0 (1, 2))"
    using frame_v1 [of "example_snmp (Inl ''Request timed out'')"]
    by (simp add: c)
  have a6: "snd (pollRouter (example_snmp (Inr [])) 5000 ''r1'' example_router example_cache)
      ''r1:eth0'' \<noteq> None"
    by (rule kept)
  from a1 a2 a3 a4 a5 a6 b1 b2 b3 b4 b5 shared show ?thesis by simp
qed

subsection \<open>The capacity and the utilization that are published\<close>

lemma preparedSample_v1_fields:
  "capacityAndRates (preparedSample_v1 ifc) =
     ((case max_bandwidth ifc of Some b \<Rightarrow> b | None \<Rightarrow> 0), 0, 0, 0, 0)"
  by (simp add: preparedSample_v1_def prepareInterface_v1_def emptyPreparation_v1_def Let_def
      setError_def makeInterfaceSample_v1_def capacityAndRates_def)

lemma applyVarbind_v1_rates:
  "map_option capacityAndRates (map_of (applyVarbind_v1 snmp om vb S) m) =
     map_option capacityAndRates (map_of S m)"
  by (auto simp add: applyVarbind_v1_def update_conv' setError_def capacityAndRates_def
      split: option.splits)

lemma fold_applyVarbind_v1_rates:
  "map_option capacityAndRates (map_of (fold (applyVarbind_v1 snmp om) vbs S) m) =
     map_option capacityAndRates (map_of S m)"
  by (induction vbs arbitrary: S) (simp_all add: applyVarbind_v1_rates)

lemma failInterface_rates:
  "map_option capacityAndRates (map_of (failInterface message ifc S) m) =
     map_option capacityAndRates (map_of S m)"
  by (auto simp add: failInterface_def update_conv' setError_def capacityAndRates_def
      split: option.splits)

lemma fold_failInterface_rates:
  "map_option capacityAndRates (map_of (fold (failInterface message) ifs S) m) =
     map_option capacityAndRates (map_of S m)"
  by (induction ifs arbitrary: S) (simp_all add: failInterface_rates)

lemma pollRouter_v1_interface_sample:
  assumes d: "distinct (map InterfaceConfig.name (RouterConfig.interfaces router))"
    and mem: "ifc \<in> set (RouterConfig.interfaces router)"
  shows "\<exists>s. map_of (RouterSample.interfaces (fst (pollRouter_v1 snmp now rid router C)))
               (InterfaceConfig.name ifc) = Some s \<and>
             InterfaceSample.maxBandwidth s = (case max_bandwidth ifc of Some b \<Rightarrow> b | None \<Rightarrow> 0) \<and>
             InterfaceSample.inUtilization s = InterfaceSample.inBps s /
               (if 0 < InterfaceSample.maxBandwidth s then InterfaceSample.maxBandwidth s else 1) \<and>
             InterfaceSample.outUtilization s = InterfaceSample.outBps s /
               (if 0 < InterfaceSample.maxBandwidth s then InterfaceSample.maxBandwidth s else 1)"
proof -
  define ifs where "ifs = RouterConfig.interfaces router"
  define prep where "prep = fold prepareInterface_v1 ifs
      \<lparr>samples_v1 = [], oids = [], oidMap = Map.empty, hasValidOid = False\<rparr>"
  from mem have mem': "ifc \<in> set ifs" and ne: "length ifs \<noteq> 0"
    by (auto simp add: ifs_def)
  from d have d': "distinct (map InterfaceConfig.name ifs)" by (simp add: ifs_def)
  have ps: "map_of (samples_v1 prep) (InterfaceConfig.name ifc) = Some (preparedSample_v1 ifc)"
    unfolding prep_def by (rule fold_prepareInterface_v1_sample [OF d' mem'])
  have quiet: "\<exists>s. map_of S (InterfaceConfig.name ifc) = Some s \<and>
      capacityAndRates s = ((case max_bandwidth ifc of Some b \<Rightarrow> b | None \<Rightarrow> 0), 0, 0, 0, 0)"
    if "map_option capacityAndRates (map_of S (InterfaceConfig.name ifc)) =
        map_option capacityAndRates (map_of (samples_v1 prep) (InterfaceConfig.name ifc))" for S
    using that by (auto simp add: ps preparedSample_v1_fields)
  consider (early) "\<not> hasValidOid prep"
    | (failed) message where "hasValidOid prep" "get snmp 0 (oids prep) = Inl message"
    | (answered) varbinds where "hasValidOid prep" "get snmp 0 (oids prep) = Inr varbinds"
    by (cases "get snmp 0 (oids prep)") auto
  then show ?thesis
  proof cases
    case early
    with ne have r: "RouterSample.interfaces (fst (pollRouter_v1 snmp now rid router C)) =
        samples_v1 prep"
      by (simp add: pollRouter_v1_def Let_def ifs_def [symmetric] prep_def [symmetric])
    from quiet [of "samples_v1 prep"] obtain s0 where
      "map_of (samples_v1 prep) (InterfaceConfig.name ifc) = Some s0"
      "capacityAndRates s0 = ((case max_bandwidth ifc of Some b \<Rightarrow> b | None \<Rightarrow> 0), 0, 0, 0, 0)"
      by auto
    then show ?thesis
      unfolding r by (intro exI [of _ s0]) (simp add: capacityAndRates_def)
  next
    case failed
    with ne have r: "RouterSample.interfaces (fst (pollRouter_v1 snmp now rid router C)) =
        fold (failInterface message) ifs (samples_v1 prep)"
      by (simp add: pollRouter_v1_def Let_def ifs_def [symmetric] prep_def [symmetric])
    from quiet [of "fold (failInterface message) ifs (samples_v1 prep)",
        OF fold_failInterface_rates] obtain s0 where
      "map_of (fold (failInterface message) ifs (samples_v1 prep)) (InterfaceConfig.name ifc) = Some s0"
      "capacityAndRates s0 = ((case max_bandwidth ifc of Some b \<Rightarrow> b | None \<Rightarrow> 0), 0, 0, 0, 0)"
      by auto
    then show ?thesis
      unfolding r by (intro exI [of _ s0]) (simp add: capacityAndRates_def)
  next
    case answered
    define polled where "polled = fold (applyVarbind_v1 snmp (oidMap prep)) varbinds (samples_v1 prep)"
    from answered ne have r: "RouterSample.interfaces (fst (pollRouter_v1 snmp now rid router C)) =
        fst (fold (finishInterface rid now) ifs (polled, C))"
      by (simp add: pollRouter_v1_def Let_def ifs_def [symmetric] prep_def [symmetric]
          polled_def [symmetric])
    from quiet [of polled, unfolded polled_def, OF fold_applyVarbind_v1_rates] obtain s1 where
      s1: "map_of polled (InterfaceConfig.name ifc) = Some s1"
      and c1: "capacityAndRates s1 = ((case max_bandwidth ifc of Some b \<Rightarrow> b | None \<Rightarrow> 0), 0, 0, 0, 0)"
      unfolding polled_def by auto
    from fold_finishInterface_sample [OF d' mem', of rid now polled C] s1
    have "map_of (fst (fold (finishInterface rid now) ifs (polled, C))) (InterfaceConfig.name ifc) =
        Some (finishedSample rid now C ifc s1)"
      by simp
    with c1 show ?thesis
      unfolding r
      by (intro exI [of _ "finishedSample rid now C ifc s1"])
        (simp add: finishedSample_eq Let_def capacityAndRates_def)
  qed
qed

lemma pollRouter_published:
  assumes names: "distinct (map InterfaceConfig.name (RouterConfig.interfaces router))"
    and n: "n < length (RouterConfig.interfaces router)"
    and ifc: "ifc = RouterConfig.interfaces router ! n"
  shows "\<exists>s. map_of (RouterSample.interfaces (fst (pollRouter snmp now rid router C)))
                (InterfaceConfig.name ifc) = Some s \<and>
      (let m = publishInterface s;
           previous = C (cacheKey rid (InterfaceConfig.name ifc));
           rateIn = computeThroughput (counterRead snmp n ifc KindIn) previous
                      (elapsed now previous) DirIn;
           rateOut = computeThroughput (counterRead snmp n ifc KindOut) previous
                       (elapsed now previous) DirOut;
           denominator = (case effectiveCapacity snmp n ifc of Some c \<Rightarrow> c | None \<Rightarrow> 1)
       in InterfaceMetrics.inBps m = bps rateIn \<and>
          InterfaceMetrics.outBps m = bps rateOut \<and>
          InterfaceMetrics.inUtilization m = bps rateIn / denominator \<and>
          InterfaceMetrics.outUtilization m = bps rateOut / denominator \<and>
          InterfaceMetrics.maxBandwidth m =
            (case effectiveCapacity snmp n ifc of Some c \<Rightarrow> c | None \<Rightarrow> 0) \<and>
          InterfaceMetrics.status m =
            metricStatus (max (InterfaceMetrics.inUtilization m) (InterfaceMetrics.outUtilization m))
              (truthy (InterfaceMetrics.error m)) \<and>
          InterfaceMetrics.fresh m = (Throughput.fresh rateIn \<and> Throughput.fresh rateOut))"
proof -
  define ifs where "ifs = RouterConfig.interfaces router"
  let ?s = "polledSample snmp now rid C ifs n"
  have s: "map_of (RouterSample.interfaces (fst (pollRouter snmp now rid router C)))
      (InterfaceConfig.name ifc) = Some ?s"
    unfolding ifc ifs_def by (rule pollRouter_interface_sample [OF names n])
  from n have mem: "ifc \<in> set ifs" by (simp add: ifc ifs_def)
  have e: "ifs ! n = ifc" by (simp add: ifc ifs_def)
  have cap: "0 < c" if "effectiveCapacity snmp n ifc = Some c" for c
    using that by (rule effectiveCapacity_pos)
  show ?thesis
  proof (cases "\<exists>i \<in> set ifs. hasCounters (interfaceTarget i)")
    case True
    then have p: "?s = finishedSample rid now C ifc
        (queriedSample snmp (interfaceTarget ifc, n) (preparedSample ifc))"
      by (simp add: polledSample_def e)
    show ?thesis
      unfolding s p
      apply (rule exI [of _ "finishedSample rid now C ifc
        (queriedSample snmp (interfaceTarget ifc, n) (preparedSample ifc))"])
      using cap
      by (auto simp add: finishedSample_eq Let_def publishInterface_def queriedSample_read
          elapsed_def split: option.splits)
  next
    case False
    then have p: "?s = preparedSample ifc"
      by (simp add: polledSample_def e)
    from False mem have nc: "\<not> hasCounters (interfaceTarget ifc)" by auto
    then have a: "answer snmp n ifc = None" by (simp add: answer_def interfaceTarget_eq)
    show ?thesis
      unfolding s p
      apply (rule exI [of _ "preparedSample ifc"])
      by (auto simp add: Let_def publishInterface_def preparedSample_fields counterRead_def
          effectiveCapacity_def speedProbed_def a computeThroughput_def split: option.splits)
  qed
qed

lemma published_unknown:
  "published 0 =
     \<lparr>InterfaceMetrics.name = ''eth0'',
      InterfaceMetrics.inBps = 8000, InterfaceMetrics.outBps = 0,
      InterfaceMetrics.inUtilization = 8000, InterfaceMetrics.outUtilization = 0,
      InterfaceMetrics.status = Critical, InterfaceMetrics.maxBandwidth = 0,
      InterfaceMetrics.fresh = True, InterfaceMetrics.error = None\<rparr>"
  by (simp add: published_def speed_router_def speed_interface_def speed_response_def
      speed_cache_def cacheEntry_def publishInterface_def pollRouter_def example_snmp_def
      prepareInterface_def sanitize_examples sanitize_speed truthy_def makeInterfaceSample_def
      Let_def queryTarget_def applyVarbind_def parseNumericValue_def finishInterface_def
      setError_def computeThroughput_def metricStatus_def combineStatuses_def statusRank_def
      cacheKey_def upt_rec [of 0])

lemma published_known:
  "published 1000 =
     \<lparr>InterfaceMetrics.name = ''eth0'',
      InterfaceMetrics.inBps = 8000, InterfaceMetrics.outBps = 0,
      InterfaceMetrics.inUtilization = 8, InterfaceMetrics.outUtilization = 0,
      InterfaceMetrics.status = Critical, InterfaceMetrics.maxBandwidth = 1000,
      InterfaceMetrics.fresh = True, InterfaceMetrics.error = None\<rparr>"
  by (simp add: published_def speed_router_def speed_interface_def speed_response_def
      speed_cache_def cacheEntry_def publishInterface_def pollRouter_def example_snmp_def
      prepareInterface_def sanitize_examples sanitize_speed truthy_def makeInterfaceSample_def
      Let_def queryTarget_def applyVarbind_def parseNumericValue_def finishInterface_def
      setError_def computeThroughput_def metricStatus_def combineStatuses_def statusRank_def
      cacheKey_def upt_rec [of 0])

text \<open>
  C2, as the claim states it, at a concrete poll: the interface \<open>eth0\<close> has no static
  capacity and the device reports speed 0, so its capacity is unknown and its
  utilization is computed against 1 (8000 bit/s give utilization 8000). Its published
  status, freshness and error are the same as when the device reports speed 1000: no
  flag of the published metrics tells the two apart.
\<close>

theorem unknown_capacity_flag_counterexample:
  "\<not> (\<exists>flag :: MetricStatus \<Rightarrow> bool \<Rightarrow> string option \<Rightarrow> bool.
        flag (InterfaceMetrics.status (published 0)) (InterfaceMetrics.fresh (published 0))
             (InterfaceMetrics.error (published 0)) \<noteq>
        flag (InterfaceMetrics.status (published 1000)) (InterfaceMetrics.fresh (published 1000))
             (InterfaceMetrics.error (published 1000))) \<and>
   InterfaceMetrics.maxBandwidth (published 0) = 0 \<and>
   InterfaceMetrics.inUtilization (published 0) = 8000 \<and>
   InterfaceMetrics.maxBandwidth (published 1000) = 1000 \<and>
   InterfaceMetrics.inUtilization (published 1000) = 8"
  by (simp add: published_unknown published_known)

text \<open>
  C2, amended. For the \<open>n\<close>-th interface of a router whose interface names are pairwise
  different, in both revisions of \<open>pollRouter\<close> and on every path through them. In
  src/unnamed/part_000 the published utilizations are the rates divided by the
  effective capacity of this cycle, or by the fallback denominator 1 when no capacity
  can be resolved; the published capacity \<open>maxBandwidth\<close> is the effective capacity, which
  is positive, or 0 when none can be resolved; the rates and the freshness are those of
  \<open>computeThroughput\<close> for the counters read in this cycle, and the status is
  \<open>metricStatus\<close> of the larger utilization and the error, whatever the capacity. In
  src/src/snmp.ts, where the static capacity is the only source, the utilizations are
  the rates divided by the configured capacity when it is positive and by 1 otherwise,
  and the published capacity is the configured value as it is (0 when none is
  configured). The record of the published metrics has no field for an unknown
  capacity: the condition shows in \<open>maxBandwidth\<close>, which is positive exactly when a
  capacity was resolved.
\<close>

theorem unknown_capacity_published:
  assumes names: "distinct (map InterfaceConfig.name (RouterConfig.interfaces router))"
    and n: "n < length (RouterConfig.interfaces router)"
    and ifc: "ifc = RouterConfig.interfaces router ! n"
  shows "(\<exists>s. map_of (RouterSample.interfaces (fst (pollRouter snmp now rid router C)))
                (InterfaceConfig.name ifc) = Some s \<and>
      (let m = publishInterface s;
           previous = C (cacheKey rid (InterfaceConfig.name ifc));
           rateIn = computeThroughput (counterRead snmp n ifc KindIn) previous
                      (elapsed now previous) DirIn;
           rateOut = computeThroughput (counterRead snmp n ifc KindOut) previous
                       (elapsed now previous) DirOut;
           denominator = (case effectiveCapacity snmp n ifc of Some c \<Rightarrow> c | None \<Rightarrow> 1)
       in InterfaceMetrics.inBps m = bps rateIn \<and>
          InterfaceMetrics.outBps m = bps rateOut \<and>
          InterfaceMetrics.inUtilization m = bps rateIn / denominator \<and>
          InterfaceMetrics.outUtilization m = bps rateOut / denominator \<and>
          InterfaceMetrics.maxBandwidth m =
            (case effectiveCapacity snmp n ifc of Some c \<Rightarrow> c | None \<Rightarrow> 0) \<and>
          InterfaceMetrics.status m =
            metricStatus (max (InterfaceMetrics.inUtilization m) (InterfaceMetrics.outUtilization m))
              (truthy (InterfaceMetrics.error m)) \<and>
          InterfaceMetrics.fresh m = (Throughput.fresh rateIn \<and> Throughput.fresh rateOut))) \<and>
     (case effectiveCapacity snmp n ifc of Some c \<Rightarrow> 0 < c | None \<Rightarrow> True) \<and>
     (\<exists>s. map_of (RouterSample.interfaces (fst (pollRouter_v1 snmp now rid router C)))
                (InterfaceConfig.name ifc) = Some s \<and>
      (let m = publishInterface s;
           denominator = (case max_bandwidth ifc of Some b \<Rightarrow> if 0 < b then b else 1 | None \<Rightarrow> 1)
       in InterfaceMetrics.inUtilization m = InterfaceMetrics.inBps m / denominator \<and>
          InterfaceMetrics.outUtilization m = InterfaceMetrics.outBps m / denominator \<and>
          InterfaceMetrics.maxBandwidth m =
            (case max_bandwidth ifc of Some b \<Rightarrow> b | None \<Rightarrow> 0)))"
proof (intro conjI)
  show "\<exists>s. map_of (RouterSample.interfaces (fst (pollRouter snmp now rid router C)))
                (InterfaceConfig.name ifc) = Some s \<and>
      (let m = publishInterface s;
           previous = C (cacheKey rid (InterfaceConfig.name ifc));
           rateIn = computeThroughput (counterRead snmp n ifc KindIn) previous
                      (elapsed now previous) DirIn;
           rateOut = computeThroughput (counterRead snmp n ifc KindOut) previous
                       (elapsed now previous) DirOut;
           denominator = (case effectiveCapacity snmp n ifc of Some c \<Rightarrow> c | None \<Rightarrow> 1)
       in InterfaceMetrics.inBps m = bps rateIn \<and>
          InterfaceMetrics.outBps m = bps rateOut \<and>
          InterfaceMetrics.inUtilization m = bps rateIn / denominator \<and>
          InterfaceMetrics.outUtilization m = bps rateOut / denominator \<and>
          InterfaceMetrics.maxBandwidth m =
            (case effectiveCapacity snmp n ifc of Some c \<Rightarrow> c | None \<Rightarrow> 0) \<and>
          InterfaceMetrics.status m =
            metricStatus (max (InterfaceMetrics.inUtilization m) (InterfaceMetrics.outUtilization m))
              (truthy (InterfaceMetrics.error m)) \<and>
          InterfaceMetrics.fresh m = (Throughput.fresh rateIn \<and> Throughput.fresh rateOut))"
    by (rule pollRouter_published [OF names n ifc])
  show "case effectiveCapacity snmp n ifc of Some c \<Rightarrow> 0 < c | None \<Rightarrow> True"
    by (simp add: effectiveCapacity_pos split: option.splits)
  from n have mem: "ifc \<in> set (RouterConfig.interfaces router)" by (simp add: ifc)
  from pollRouter_v1_interface_sample [OF names mem, of snmp now rid C]
  obtain s where s: "map_of (RouterSample.interfaces (fst (pollRouter_v1 snmp now rid router C)))
               (InterfaceConfig.name ifc) = Some s"
    and b: "InterfaceSample.maxBandwidth s = (case max_bandwidth ifc of Some b \<Rightarrow> b | None \<Rightarrow> 0)"
    and ui: "InterfaceSample.inUtilization s = InterfaceSample.inBps s /
               (if 0 < InterfaceSample.maxBandwidth s then InterfaceSample.maxBandwidth s else 1)"
    and uo: "InterfaceSample.outUtilization s = InterfaceSample.outBps s /
               (if 0 < InterfaceSample.maxBandwidth s then InterfaceSample.maxBandwidth s else 1)"
    by blast
  show "\<exists>s. map_of (RouterSample.interfaces (fst (pollRouter_v1 snmp now rid router C)))
                (InterfaceConfig.name ifc) = Some s \<and>
      (let m = publishInterface s;
           denominator = (case max_bandwidth ifc of Some b \<Rightarrow> if 0 < b then b else 1 | None \<Rightarrow> 1)
       in InterfaceMetrics.inUtilization m = InterfaceMetrics.inBps m / denominator \<and>
          InterfaceMetrics.outUtilization m = InterfaceMetrics.outBps m / denominator \<and>
          InterfaceMetrics.maxBandwidth m =
            (case max_bandwidth ifc of Some b \<Rightarrow> b | None \<Rightarrow> 0))"
    using s b ui uo
    by (intro exI [of _ s]) (auto simp add: Let_def publishInterface_def split: option.splits)
qed

lemma speed_request:
  "requestEntries speed_interface = [(''1.1'', KindIn), (''1.2'', KindOut), (''1.3'', KindSpeed)]"
  "requestMade speed_interface"
  by (simp_all add: requestEntries_def requestMade_def validOid_def speed_interface_def
      sanitize_examples sanitize_speed truthy_def)

lemma speed_read:
  "counterRead (example_snmp (speed_response 0)) 0 speed_interface KindIn = Some 1000"
  "counterRead (example_snmp (speed_response 0)) 0 speed_interface KindOut = Some 0"
  "effectiveCapacity (example_snmp (speed_response 0)) 0 speed_interface = None"
proof -
  have b: "max_bandwidth speed_interface = None"
    by (simp add: speed_interface_def)
  show "counterRead (example_snmp (speed_response 0)) 0 speed_interface KindIn = Some 1000"
    "counterRead (example_snmp (speed_response 0)) 0 speed_interface KindOut = Some 0"
    "effectiveCapacity (example_snmp (speed_response 0)) 0 speed_interface = None"
    by (simp_all add: counterRead_def effectiveCapacity_def speedProbed_def answer_def speed_request
        example_snmp_def speed_response_def numberRead_def carries_def parseNumericValue_def
        b upt_rec [of 0])
qed

lemma speed_read_known:
  "counterRead (example_snmp (speed_response 1000)) 0 speed_interface KindIn = Some 1000"
  "counterRead (example_snmp (speed_response 1000)) 0 speed_interface KindOut = Some 0"
  "effectiveCapacity (example_snmp (speed_response 1000)) 0 speed_interface = Some 1000"
proof -
  have b: "oid_speed_scale speed_interface = None"
    by (simp add: speed_interface_def)
  show "counterRead (example_snmp (speed_response 1000)) 0 speed_interface KindIn = Some 1000"
    "counterRead (example_snmp (speed_response 1000)) 0 speed_interface KindOut = Some 0"
    "effectiveCapacity (example_snmp (speed_response 1000)) 0 speed_interface = Some 1000"
    by (simp_all add: counterRead_def effectiveCapacity_def speedProbed_def answer_def speed_request
        example_snmp_def speed_response_def numberRead_def carries_def parseNumericValue_def
        speedScale_def b upt_rec [of 0])
qed

lemma published_v1_unknown:
  "published_v1 (- 5) =
     \<lparr>InterfaceMetrics.name = ''eth0'',
      InterfaceMetrics.inBps = 8000, InterfaceMetrics.outBps = 0,
      InterfaceMetrics.inUtilization = 8000, InterfaceMetrics.outUtilization = 0,
      InterfaceMetrics.status = Critical, InterfaceMetrics.maxBandwidth = - 5,
      InterfaceMetrics.fresh = True, InterfaceMetrics.error = None\<rparr>"
  by (simp add: published_v1_def static_router_def speed_response_def
      speed_cache_def cacheEntry_def publishInterface_def pollRouter_v1_def example_snmp_def
      prepareInterface_v1_def applyVarbind_v1_def sanitize_examples truthy_def
      makeInterfaceSample_v1_def normalizeOid_def trim_def isWhiteSpace_def
      Let_def parseNumericValue_def finishInterface_def
      setError_def computeThroughput_def metricStatus_def combineStatuses_def statusRank_def
      cacheKey_def)

theorem unknown_capacity_published_witness:
  "(\<exists>s. map_of (RouterSample.interfaces
            (fst (pollRouter (example_snmp (speed_response 0)) 1000 ''r1'' speed_router speed_cache)))
          ''eth0'' = Some s \<and>
        InterfaceMetrics.inBps (publishInterface s) = 8000 \<and>
        InterfaceMetrics.inUtilization (publishInterface s) = 8000 / 1 \<and>
        InterfaceMetrics.maxBandwidth (publishInterface s) = 0 \<and>
        InterfaceMetrics.fresh (publishInterface s)) \<and>
   (\<exists>s. map_of (RouterSample.interfaces
            (fst (pollRouter (example_snmp (speed_response 1000)) 1000 ''r1'' speed_router
                    speed_cache)))
          ''eth0'' = Some s \<and>
        InterfaceMetrics.inBps (publishInterface s) = 8000 \<and>
        InterfaceMetrics.inUtilization (publishInterface s) = 8000 / 1000 \<and>
        InterfaceMetrics.maxBandwidth (publishInterface s) = 1000) \<and>
   (\<exists>s. map_of (RouterSample.interfaces
            (fst (pollRouter_v1 (example_snmp (speed_response 0)) 1000 ''r1'' (static_router (- 5))
                    speed_cache)))
          ''eth0'' = Some s \<and>
        InterfaceMetrics.inBps (publishInterface s) = 8000 \<and>
        InterfaceMetrics.inUtilization (publishInterface s) = 8000 / 1 \<and>
        InterfaceMetrics.maxBandwidth (publishInterface s) = - 5)"
proof (intro conjI)
  have d: "distinct (map InterfaceConfig.name (RouterConfig.interfaces speed_router))"
    and n: "0 < length (RouterConfig.interfaces speed_router)"
    and i: "speed_interface = RouterConfig.interfaces speed_router ! 0"
    by (simp_all add: speed_router_def)
  have nm: "InterfaceConfig.name speed_interface = ''eth0''"
    by (simp add: speed_interface_def)
  have c: "speed_cache (cacheKey ''r1'' ''eth0'') = Some (cacheEntry 0 (0, 0))"
    by (simp add: speed_cache_def cacheKey_def)
  from unknown_capacity_published [OF d n i, of "example_snmp (speed_response 0)" 1000 "''r1''"
      speed_cache, THEN conjunct1]
  have "\<exists>s. map_of (RouterSample.interfaces
            (fst (pollRouter (example_snmp (speed_response 0)) 1000 ''r1'' speed_router speed_cache)))
          ''eth0'' = Some s \<and>
        InterfaceMetrics.inBps (publishInterface s) = 8000 \<and>
        InterfaceMetrics.outBps (publishInterface s) = 0 \<and>
        InterfaceMetrics.inUtilization (publishInterface s) = 8000 \<and>
        InterfaceMetrics.outUtilization (publishInterface s) = 0 \<and>
        InterfaceMetrics.maxBandwidth (publishInterface s) = 0 \<and>
        InterfaceMetrics.status (publishInterface s) =
          metricStatus (max (InterfaceMetrics.inUtilization (publishInterface s))
                            (InterfaceMetrics.outUtilization (publishInterface s)))
            (truthy (InterfaceMetrics.error (publishInterface s))) \<and>
        InterfaceMetrics.fresh (publishInterface s)"
    by (simp add: nm c speed_read Let_def elapsed_def cacheEntry_def computeThroughput_def)
  then obtain s where
    "map_of (RouterSample.interfaces
            (fst (pollRouter (example_snmp (speed_response 0)) 1000 ''r1'' speed_router speed_cache)))
          ''eth0'' = Some s"
    "InterfaceMetrics.inBps (publishInterface s) = 8000"
    "InterfaceMetrics.inUtilization (publishInterface s) = 8000"
    "InterfaceMetrics.maxBandwidth (publishInterface s) = 0"
    "InterfaceMetrics.fresh (publishInterface s)"
    by blast
  then show "\<exists>s. map_of (RouterSample.interfaces
            (fst (pollRouter (example_snmp (speed_response 0)) 1000 ''r1'' speed_router speed_cache)))
          ''eth0'' = Some s \<and>
        InterfaceMetrics.inBps (publishInterface s) = 8000 \<and>
        InterfaceMetrics.inUtilization (publishInterface s) = 8000 / 1 \<and>
        InterfaceMetrics.maxBandwidth (publishInterface s) = 0 \<and>
        InterfaceMetrics.fresh (publishInterface s)"
    by (intro exI [of _ s]) simp
next
  have d: "distinct (map InterfaceConfig.name (RouterConfig.interfaces speed_router))"
    and n: "0 < length (RouterConfig.interfaces speed_router)"
    and i: "speed_interface = RouterConfig.interfaces speed_router ! 0"
    by (simp_all add: speed_router_def)
  have nm: "InterfaceConfig.name speed_interface = ''eth0''"
    by (simp add: speed_interface_def)
  have c: "speed_cache (cacheKey ''r1'' ''eth0'') = Some (cacheEntry 0 (0, 0))"
    by (simp add: speed_cache_def cacheKey_def)
  from unknown_capacity_published [OF d n i, of "example_snmp (speed_response 1000)" 1000 "''r1''"
      speed_cache, THEN conjunct1]
  have "\<exists>s. map_of (RouterSample.interfaces
            (fst (pollRouter (example_snmp (speed_response 1000)) 1000 ''r1'' speed_router
                    speed_cache)))
          ''eth0'' = Some s \<and>
        InterfaceMetrics.inBps (publishInterface s) = 8000 \<and>
        InterfaceMetrics.outBps (publishInterface s) = 0 \<and>
        InterfaceMetrics.inUtilization (publishInterface s) = 8 \<and>
        InterfaceMetrics.outUtilization (publishInterface s) = 0 \<and>
        InterfaceMetrics.maxBandwidth (publishInterface s) = 1000 \<and>
        InterfaceMetrics.status (publishInterface s) =
          metricStatus (max (InterfaceMetrics.inUtilization (publishInterface s))
                            (InterfaceMetrics.outUtilization (publishInterface s)))
            (truthy (InterfaceMetrics.error (publishInterface s))) \<and>
        InterfaceMetrics.fresh (publishInterface s)"
    by (simp add: nm c speed_read_known Let_def elapsed_def cacheEntry_def computeThroughput_def)
  then obtain s where
    "map_of (RouterSample.interfaces
            (fst (pollRouter (example_snmp (speed_response 1000)) 1000 ''r1'' speed_router
                    speed_cache)))
          ''eth0'' = Some s"
    "InterfaceMetrics.inBps (publishInterface s) = 8000"
    "InterfaceMetrics.inUtilization (publishInterface s) = 8"
    "InterfaceMetrics.maxBandwidth (publishInterface s) = 1000"
    by blast
  then show "\<exists>s. map_of (RouterSample.interfaces
            (fst (pollRouter (example_snmp (speed_response 1000)) 1000 ''r1'' speed_router
                    speed_cache)))
          ''eth0'' = Some s \<and>
        InterfaceMetrics.inBps (publishInterface s) = 8000 \<and>
        InterfaceMetrics.inUtilization (publishInterface s) = 8000 / 1000 \<and>
        InterfaceMetrics.maxBandwidth (publishInterface s) = 1000"
    by (intro exI [of _ s]) simp
next
  let ?ifc = "\<lparr>InterfaceConfig.name = ''eth0'', oid_in = ''.1.1'', oid_out = ''1.2'',
          max_bandwidth = Some (- 5), oid_speed = None, oid_speed_scale = None,
          display_name = None\<rparr>"
  have d: "distinct (map InterfaceConfig.name (RouterConfig.interfaces (static_router (- 5))))"
    and n: "0 < length (RouterConfig.interfaces (static_router (- 5)))"
    and i: "?ifc = RouterConfig.interfaces (static_router (- 5)) ! 0"
    by (simp_all add: static_router_def)
  from unknown_capacity_published [OF d n i, of "example_snmp (speed_response 0)" 1000 "''r1''"
      speed_cache, THEN conjunct2, THEN conjunct2]
  obtain s where s: "map_of (RouterSample.interfaces
            (fst (pollRouter_v1 (example_snmp (speed_response 0)) 1000 ''r1'' (static_router (- 5))
                    speed_cache)))
          ''eth0'' = Some s"
    and u: "InterfaceMetrics.inUtilization (publishInterface s) =
        InterfaceMetrics.inBps (publishInterface s) / 1"
    and b: "InterfaceMetrics.maxBandwidth (publishInterface s) = - 5"
    by (auto simp add: Let_def)
  from s have "publishInterface s = published_v1 (- 5)"
    by (simp add: published_v1_def)
  then have "InterfaceMetrics.inBps (publishInterface s) = 8000"
    by (simp add: published_v1_unknown)
  with s u b show "\<exists>s. map_of (RouterSample.interfaces
            (fst (pollRouter_v1 (example_snmp (speed_response 0)) 1000 ''r1'' (static_router (- 5))
                    speed_cache)))
          ''eth0'' = Some s \<and>
        InterfaceMetrics.inBps (publishInterface s) = 8000 \<and>
        InterfaceMetrics.inUtilization (publishInterface s) = 8000 / 1 \<and>
        InterfaceMetrics.maxBandwidth (publishInterface s) = - 5"
    by (intro exI [of _ s]) simp
qed

section \<open>Properties of the geometry engine\<close>

lemma hypot_nonneg: "0 \<le> hypot a b"
  by (simp add: hypot_def)

lemma hypot_eq_0_iff: "hypot a b = 0 \<longleftrightarrow> a = 0 \<and> b = 0"
  by (simp add: hypot_def)

lemma hypot_sq: "(hypot a b)\<^sup>2 = a\<^sup>2 + b\<^sup>2"
  by (simp add: hypot_def)

lemma computeAutoPath_eq:
  fixes "from" to :: Position
  assumes "dx = x to - x from" and "dy = y to - y from"
    and "len = (if hypot dx dy = 0 then 1 else hypot dx dy)"
    and "off = (idx - (gs - 1) / 2) * min 160 (max 40 (len / 3))"
  shows "computeAutoPath from to gs idx =
     (if gs = 1 \<or> \<bar>off\<bar> < 1 then [from, to]
      else [from, \<lparr>x = (x from + dx / 2) + (- dy / len) * off,
                   y = (y from + dy / 2) + (dx / len) * off\<rparr>, to])"
  unfolding computeAutoPath_def Let_def assms by simp

lemma spacing_zero: "min 160 (max 40 ((1::real) / 3)) = min 160 (max 40 (0 / 3))"
  by simp

lemma clonePosition_id: "clonePosition (p :: Position) = p"
  by (simp add: clonePosition_def)

lemma map_clonePosition: "map clonePosition (ps :: Position list) = ps"
  by (simp add: clonePosition_id map_idI)

lemma length_segmentLengths: "length (segmentLengths p) = length p - 1"
  by (induction p rule: segmentLengths.induct) simp_all

lemma segmentLengths_nth:
  "i + 1 < length p \<Longrightarrow>
   segmentLengths p ! i = hypot (x (p ! (i + 1)) - x (p ! i)) (y (p ! (i + 1)) - y (p ! i))"
proof (induction p arbitrary: i rule: segmentLengths.induct)
  case (1 s e rest)
  then show ?case by (cases i) simp_all
qed simp_all

lemma segmentLengths_take:
  "segmentLengths (take (Suc i) p) = take i (segmentLengths p)"
proof (induction p arbitrary: i rule: segmentLengths.induct)
  case (1 s e rest)
  then show ?case by (cases i) simp_all
qed simp_all

lemma segmentLengths_drop:
  "segmentLengths (drop i p) = drop i (segmentLengths p)"
proof (induction p arbitrary: i rule: segmentLengths.induct)
  case (1 s e rest)
  then show ?case by (cases i) simp_all
qed (simp_all add: drop_Cons split: nat.splits)

lemma segmentLengths_snoc:
  "p \<noteq> [] \<Longrightarrow>
   segmentLengths (p @ [m]) =
     segmentLengths p @ [hypot (x m - x (last p)) (y m - y (last p))]"
  by (induction p rule: segmentLengths.induct) simp_all

lemma segmentLengths_Cons:
  "p \<noteq> [] \<Longrightarrow>
   segmentLengths (m # p) = hypot (x (hd p) - x m) (y (hd p) - y m) # segmentLengths p"
  by (cases p) simp_all

lemma hypot_scale: "hypot (a * r) (b * r) = \<bar>r\<bar> * hypot a b"
proof -
  have "(a * r)\<^sup>2 + (b * r)\<^sup>2 = r\<^sup>2 * (a\<^sup>2 + b\<^sup>2)"
    by (simp add: algebra_simps)
  then show ?thesis
    by (simp add: hypot_def real_sqrt_mult)
qed

lemma segmentLengths_nonneg: "s \<in> set (segmentLengths p) \<Longrightarrow> 0 \<le> s"
  by (induction p rule: segmentLengths.induct) (auto simp add: hypot_def)

lemma splitLoop_found:
  fixes path :: "Position list"
  assumes segs: "segs = segmentLengths path"
    and i: "i < length segs"
    and acc: "accumulated = sum_list (take i segs)"
    and lt: "accumulated < halfway"
    and ge: "accumulated + segs ! i \<ge> halfway"
  shows "\<exists>m. splitLoop path segs halfway i accumulated =
           \<lparr>midpoint = m, firstHalf = take (i + 1) path @ [m],
            secondHalf = m # drop (i + 1) path\<rparr> \<and>
         totalLength (take (i + 1) path @ [m]) = halfway \<and>
         totalLength (m # drop (i + 1) path) = sum_list segs - halfway"
proof -
  define len where "len = segs ! i"
  define s where "s = path ! i"
  define e where "e = path ! (i + 1)"
  define remaining where "remaining = halfway - accumulated"
  define ratio where "ratio = remaining / len"
  define m where "m = \<lparr>x = x s + (x e - x s) * ratio, y = y s + (y e - y s) * ratio\<rparr>"
  from i segs have ilen: "i + 1 < length path"
    by (simp add: length_segmentLengths)
  have len_hyp: "len = hypot (x e - x s) (y e - y s)"
    using segmentLengths_nth [OF ilen] by (simp add: len_def segs s_def e_def)
  have len_pos: "0 < len" and len_nz: "len \<noteq> 0"
  proof -
    have "0 \<le> len" by (simp add: len_hyp hypot_def)
    moreover have "len \<noteq> 0" using lt ge by (auto simp add: len_def)
    ultimately show "0 < len" and "len \<noteq> 0" by simp_all
  qed
  have rem_pos: "0 < remaining" using lt by (simp add: remaining_def)
  have rem_le: "remaining \<le> len" using ge by (simp add: remaining_def len_def)
  have ratio0: "0 \<le> ratio" using rem_pos len_pos by (simp add: ratio_def)
  have ratio1: "ratio \<le> 1" using rem_le len_pos by (simp add: ratio_def)
  have ratio_len: "ratio * len = remaining" using len_nz by (simp add: ratio_def)
  have res: "splitLoop path segs halfway i accumulated =
           \<lparr>midpoint = m, firstHalf = take (i + 1) path @ [m],
            secondHalf = m # drop (i + 1) path\<rparr>"
    using i ge len_nz
    by (subst splitLoop.simps)
      (simp add: Let_def map_clonePosition m_def ratio_def remaining_def len_def s_def e_def)
  have tk_ne: "take (Suc i) path \<noteq> []" using ilen by auto
  have last_tk: "last (take (Suc i) path) = s"
    using ilen by (simp add: s_def take_Suc_conv_app_nth)
  have d1: "hypot (x m - x s) (y m - y s) = remaining"
  proof -
    have "hypot (x m - x s) (y m - y s) = hypot ((x e - x s) * ratio) ((y e - y s) * ratio)"
      by (simp add: m_def)
    also have "\<dots> = \<bar>ratio\<bar> * len" by (simp add: hypot_scale len_hyp)
    also have "\<dots> = remaining" using ratio0 ratio_len by simp
    finally show ?thesis .
  qed
  have first_len: "totalLength (take (i + 1) path @ [m]) = halfway"
  proof -
    have "totalLength (take (i + 1) path @ [m]) =
        sum_list (take i segs) + hypot (x m - x s) (y m - y s)"
      using segmentLengths_snoc [OF tk_ne, of m]
      by (simp add: totalLength_def last_tk segmentLengths_take segs)
    then show ?thesis using d1 acc by (simp add: remaining_def)
  qed
  have dr_ne: "drop (Suc i) path \<noteq> []" using ilen by simp
  have hd_dr: "hd (drop (Suc i) path) = e"
    using ilen by (simp add: e_def hd_drop_conv_nth)
  have d2: "hypot (x e - x m) (y e - y m) = len - remaining"
  proof -
    have "x e - x m = (x e - x s) * (1 - ratio)" "y e - y m = (y e - y s) * (1 - ratio)"
      by (simp_all add: m_def algebra_simps)
    then have "hypot (x e - x m) (y e - y m) = \<bar>1 - ratio\<bar> * len"
      by (simp add: hypot_scale len_hyp)
    also have "\<dots> = len - ratio * len" using ratio1 by (simp add: algebra_simps)
    finally show ?thesis by (simp add: ratio_len)
  qed
  have split_sum: "sum_list segs = sum_list (take i segs) + len + sum_list (drop (i + 1) segs)"
  proof -
    have "segs = take i segs @ segs ! i # drop (Suc i) segs"
      using i by (rule id_take_nth_drop)
    then have "sum_list segs = sum_list (take i segs @ segs ! i # drop (Suc i) segs)"
      by simp
    then show ?thesis by (simp add: len_def)
  qed
  have second_len: "totalLength (m # drop (i + 1) path) = sum_list segs - halfway"
  proof -
    have "totalLength (m # drop (i + 1) path) =
        hypot (x e - x m) (y e - y m) + sum_list (drop (i + 1) segs)"
      using segmentLengths_Cons [OF dr_ne, of m]
      by (simp add: totalLength_def hd_dr segmentLengths_drop segs)
    then show ?thesis using d2 split_sum acc by (simp add: remaining_def)
  qed
  from res first_len second_len show ?thesis by blast
qed

lemma splitLoop_spec:
  fixes path :: "Position list"
  assumes segs: "segs = segmentLengths path"
    and acc: "accumulated = sum_list (take i segs)"
    and lt: "accumulated < halfway"
    and le: "halfway \<le> sum_list segs"
  shows "\<exists>j m. i \<le> j \<and> j < length segs \<and>
           splitLoop path segs halfway i accumulated =
             \<lparr>midpoint = m, firstHalf = take (j + 1) path @ [m],
              secondHalf = m # drop (j + 1) path\<rparr> \<and>
           totalLength (take (j + 1) path @ [m]) = halfway \<and>
           totalLength (m # drop (j + 1) path) = sum_list segs - halfway"
  using acc lt
proof (induction "length segs - i" arbitrary: i accumulated)
  case 0
  then have "take i segs = segs" by simp
  with 0 le show ?case by simp
next
  case (Suc n)
  then have i: "i < length segs" by simp
  show ?case
  proof (cases "accumulated + segs ! i \<ge> halfway")
    case True
    from splitLoop_found [OF segs i Suc.prems(1) Suc.prems(2) True] i
    show ?thesis by blast
  next
    case False
    have n: "n = length segs - (i + 1)" using Suc.hyps(2) by simp
    have acc': "accumulated + segs ! i = sum_list (take (i + 1) segs)"
      using i Suc.prems(1) by (simp add: take_Suc_conv_app_nth)
    from False have lt': "accumulated + segs ! i < halfway" by simp
    from Suc.hyps(1) [OF n acc' lt']
    obtain j m where j: "i + 1 \<le> j" "j < length segs"
      and r: "splitLoop path segs halfway (i + 1) (accumulated + segs ! i) =
             \<lparr>midpoint = m, firstHalf = take (j + 1) path @ [m],
              secondHalf = m # drop (j + 1) path\<rparr>"
      and l1: "totalLength (take (j + 1) path @ [m]) = halfway"
      and l2: "totalLength (m # drop (j + 1) path) = sum_list segs - halfway"
      by blast
    have "splitLoop path segs halfway i accumulated =
        splitLoop path segs halfway (i + 1) (accumulated + segs ! i)"
      using i False by (subst splitLoop.simps) (simp add: Let_def)
    with r j l1 l2 show ?thesis
      by (intro exI [of _ j] exI [of _ m]) simp
  qed
qed

lemma totalLength_nonneg: "0 \<le> totalLength p"
  unfolding totalLength_def by (rule sum_list_nonneg) (rule segmentLengths_nonneg)

text \<open>
  C3. For a path with at least two points and positive total length, \<open>splitPathAtHalf\<close>
  returns, for some segment \<open>i\<close>, as first half the vertices up to the start of that
  segment followed by the midpoint, and as second half the midpoint followed by the
  remaining vertices; the first half and the second half each have exactly half the
  total length, so the midpoint lies on the path at arc length L / 2. The empty path
  gives the origin and a one-point path gives its point, as midpoint and as both
  halves. A path with at least two points and total length 0 gives the vertex at index
  \<open>floor(n / 2)\<close> as midpoint, the first half from the first point to it and the second
  half from it to the last point.
\<close>

theorem splitPathAtHalf_spec:
  fixes path :: "Position list"
  shows
  "(2 \<le> length path \<and> 0 < totalLength path \<longrightarrow>
      (\<exists>i. i + 1 < length path \<and>
         firstHalf (splitPathAtHalf path) =
           take (i + 1) path @ [midpoint (splitPathAtHalf path)] \<and>
         secondHalf (splitPathAtHalf path) =
           midpoint (splitPathAtHalf path) # drop (i + 1) path \<and>
         totalLength (firstHalf (splitPathAtHalf path)) = totalLength path / 2 \<and>
         totalLength (secondHalf (splitPathAtHalf path)) = totalLength path / 2)) \<and>
   splitPathAtHalf [] =
     \<lparr>midpoint = \<lparr>x = 0, y = 0\<rparr>, firstHalf = [\<lparr>x = 0, y = 0\<rparr>],
      secondHalf = [\<lparr>x = 0, y = 0\<rparr>]\<rparr> \<and>
   splitPathAtHalf [p] = \<lparr>midpoint = p, firstHalf = [p], secondHalf = [p]\<rparr> \<and>
   (2 \<le> length path \<and> totalLength path = 0 \<longrightarrow>
      splitPathAtHalf path =
        \<lparr>midpoint = path ! (length path div 2),
         firstHalf = [hd path, path ! (length path div 2)],
         secondHalf = [path ! (length path div 2), last path]\<rparr>)"
proof (intro conjI impI)
  assume h: "2 \<le> length path \<and> 0 < totalLength path"
  define L where "L = totalLength path"
  from h have "length path \<noteq> 0" "length path \<noteq> 1" "totalLength path \<noteq> 0"
    by auto
  then have eq: "splitPathAtHalf path = splitLoop path (segmentLengths path) (L / 2) 0 0"
    by (simp add: splitPathAtHalf_def L_def)
  have "\<exists>j m. 0 \<le> j \<and> j < length (segmentLengths path) \<and>
           splitLoop path (segmentLengths path) (L / 2) 0 0 =
             \<lparr>midpoint = m, firstHalf = take (j + 1) path @ [m],
              secondHalf = m # drop (j + 1) path\<rparr> \<and>
           totalLength (take (j + 1) path @ [m]) = L / 2 \<and>
           totalLength (m # drop (j + 1) path) = sum_list (segmentLengths path) - L / 2"
    using h by (intro splitLoop_spec) (simp_all add: L_def totalLength_def)
  then obtain j m where j: "j < length (segmentLengths path)"
    and r: "splitPathAtHalf path =
             \<lparr>midpoint = m, firstHalf = take (j + 1) path @ [m],
              secondHalf = m # drop (j + 1) path\<rparr>"
    and l1: "totalLength (take (j + 1) path @ [m]) = L / 2"
    and l2: "totalLength (m # drop (j + 1) path) = sum_list (segmentLengths path) - L / 2"
    unfolding eq by blast
  from j have j': "j + 1 < length path" by (simp add: length_segmentLengths)
  from l2 have l2': "totalLength (m # drop (j + 1) path) = L / 2"
    by (simp add: L_def totalLength_def)
  from j' r l1 l2' show "\<exists>i. i + 1 < length path \<and>
         firstHalf (splitPathAtHalf path) =
           take (i + 1) path @ [midpoint (splitPathAtHalf path)] \<and>
         secondHalf (splitPathAtHalf path) =
           midpoint (splitPathAtHalf path) # drop (i + 1) path \<and>
         totalLength (firstHalf (splitPathAtHalf path)) = totalLength path / 2 \<and>
         totalLength (secondHalf (splitPathAtHalf path)) = totalLength path / 2"
    unfolding L_def by (intro exI [of _ j]) simp
next
  show "splitPathAtHalf [] =
     \<lparr>midpoint = \<lparr>x = 0, y = 0\<rparr>, firstHalf = [\<lparr>x = 0, y = 0\<rparr>],
      secondHalf = [\<lparr>x = 0, y = 0\<rparr>]\<rparr>"
    by (simp add: splitPathAtHalf_def Let_def)
  show "splitPathAtHalf [p] = \<lparr>midpoint = p, firstHalf = [p], secondHalf = [p]\<rparr>"
    by (simp add: splitPathAtHalf_def clonePosition_id Let_def)
next
  assume h: "2 \<le> length path \<and> totalLength path = 0"
  then have ne: "path \<noteq> []" and l: "length path \<noteq> 0" "length path \<noteq> 1" by auto
  have "path ! 0 = hd path" using ne by (simp add: hd_conv_nth)
  moreover have "path ! (length path - 1) = last path" using ne by (simp add: last_conv_nth)
  moreover note l
  ultimately show "splitPathAtHalf path =
        \<lparr>midpoint = path ! (length path div 2),
         firstHalf = [hd path, path ! (length path div 2)],
         secondHalf = [path ! (length path div 2), last path]\<rparr>"
    using h by (simp add: splitPathAtHalf_def clonePosition_id Let_def)
qed

theorem splitPathAtHalf_spec_witness:
  "(\<exists>i. i + 1 < length [\<lparr>x = 0, y = 0\<rparr>, \<lparr>x = 6, y = 8\<rparr>] \<and>
      firstHalf (splitPathAtHalf [\<lparr>x = 0, y = 0\<rparr>, \<lparr>x = 6, y = 8\<rparr>]) =
        take (i + 1) [\<lparr>x = 0, y = 0\<rparr>, \<lparr>x = 6, y = 8\<rparr>] @
          [midpoint (splitPathAtHalf [\<lparr>x = 0, y = 0\<rparr>, \<lparr>x = 6, y = 8\<rparr>])] \<and>
      secondHalf (splitPathAtHalf [\<lparr>x = 0, y = 0\<rparr>, \<lparr>x = 6, y = 8\<rparr>]) =
        midpoint (splitPathAtHalf [\<lparr>x = 0, y = 0\<rparr>, \<lparr>x = 6, y = 8\<rparr>]) #
          drop (i + 1) [\<lparr>x = 0, y = 0\<rparr>, \<lparr>x = 6, y = 8\<rparr>] \<and>
      totalLength (firstHalf (splitPathAtHalf [\<lparr>x = 0, y = 0\<rparr>, \<lparr>x = 6, y = 8\<rparr>])) =
        totalLength [\<lparr>x = 0, y = 0\<rparr>, \<lparr>x = 6, y = 8\<rparr>] / 2 \<and>
      totalLength (secondHalf (splitPathAtHalf [\<lparr>x = 0, y = 0\<rparr>, \<lparr>x = 6, y = 8\<rparr>])) =
        totalLength [\<lparr>x = 0, y = 0\<rparr>, \<lparr>x = 6, y = 8\<rparr>] / 2) \<and>
   totalLength [\<lparr>x = 0, y = 0\<rparr>, \<lparr>x = 6, y = 8\<rparr>] = 10 \<and>
   splitPathAtHalf [\<lparr>x = 1, y = 1\<rparr>, \<lparr>x = 1, y = 1\<rparr>, \<lparr>x = 1, y = 1\<rparr>] =
     \<lparr>midpoint = \<lparr>x = 1, y = 1\<rparr>, firstHalf = [\<lparr>x = 1, y = 1\<rparr>, \<lparr>x = 1, y = 1\<rparr>],
      secondHalf = [\<lparr>x = 1, y = 1\<rparr>, \<lparr>x = 1, y = 1\<rparr>]\<rparr>"
proof -
  have t: "totalLength [\<lparr>x = 0, y = 0\<rparr>, \<lparr>x = 6, y = 8\<rparr>] = 10"
    by (simp add: totalLength_def hypot_def)
  have h: "2 \<le> length [\<lparr>x = 0, y = 0\<rparr>, \<lparr>x = 6, y = 8\<rparr>] \<and>
      0 < totalLength [\<lparr>x = 0, y = 0\<rparr>, \<lparr>x = 6, y = 8\<rparr>]"
    by (simp add: t)
  have z: "2 \<le> length [\<lparr>x = 1, y = 1\<rparr>, \<lparr>x = 1, y = 1\<rparr>, \<lparr>x = 1, y = 1\<rparr>] \<and>
      totalLength [\<lparr>x = 1, y = 1\<rparr>, \<lparr>x = 1, y = 1\<rparr>, \<lparr>x = 1, y = 1\<rparr>] = 0"
    by (simp add: totalLength_def hypot_def)
  note a = splitPathAtHalf_spec [of "[\<lparr>x = 0, y = 0\<rparr>, \<lparr>x = 6, y = 8\<rparr>]" "\<lparr>x = 0, y = 0\<rparr>",
      THEN conjunct1, THEN mp, OF h]
  note b = splitPathAtHalf_spec
      [of "[\<lparr>x = 1, y = 1\<rparr>, \<lparr>x = 1, y = 1\<rparr>, \<lparr>x = 1, y = 1\<rparr>]" "\<lparr>x = 0, y = 0\<rparr>",
      THEN conjunct2, THEN conjunct2, THEN conjunct2, THEN mp, OF z]
  have b': "splitPathAtHalf [\<lparr>x = 1, y = 1\<rparr>, \<lparr>x = 1, y = 1\<rparr>, \<lparr>x = 1, y = 1\<rparr>] =
     \<lparr>midpoint = \<lparr>x = 1, y = 1\<rparr>, firstHalf = [\<lparr>x = 1, y = 1\<rparr>, \<lparr>x = 1, y = 1\<rparr>],
      secondHalf = [\<lparr>x = 1, y = 1\<rparr>, \<lparr>x = 1, y = 1\<rparr>]\<rparr>"
    using b by simp
  from a t b' show ?thesis by (intro conjI)
qed

text \<open>
  C4, as the claim states it, at coinciding endpoints: for \<open>from = to = (0, 0)\<close>, group
  size 2 and index 0 the offset is -20, the result has three points, and its control
  point is not the midpoint plus a unit vector times the offset, for any unit vector.
\<close>

theorem computeAutoPath_unit_perp_counterexample:
  "\<not> (\<exists>nx ny. nx\<^sup>2 + ny\<^sup>2 = 1 \<and>
        computeAutoPath \<lparr>x = 0, y = 0\<rparr> \<lparr>x = 0, y = 0\<rparr> 2 0 =
          [\<lparr>x = 0, y = 0\<rparr>,
           \<lparr>x = 0 + nx * ((0 - (2 - 1) / 2) * min 160 (max 40 (0 / 3))),
            y = 0 + ny * ((0 - (2 - 1) / 2) * min 160 (max 40 (0 / 3)))\<rparr>,
           \<lparr>x = 0, y = 0\<rparr>])"
  by (auto simp add: computeAutoPath_def hypot_def Let_def)

text \<open>
  C4, amended. With \<open>d\<close> the distance between the endpoints, \<open>spacing = clamp(d / 3, 40,
  160)\<close> and \<open>offset = (index - (groupSize - 1) / 2) * spacing\<close>: for group size 1 or
  \<open>|offset| < 1\<close> the result is \<open>[from, to]\<close>; otherwise, for distinct endpoints, it is
  \<open>[from, control, to]\<close> with the control point at the midpoint plus the unit
  perpendicular \<open>(-dy / d, dx / d)\<close> times the offset; otherwise, for coinciding
  endpoints, it is \<open>[from, midpoint, to]\<close>. For group size 3 the index 1 gives the
  straight path and, for distinct endpoints, the indices 0 and 2 give the curves with
  offsets \<open>-spacing\<close> and \<open>+spacing\<close>.
\<close>

theorem computeAutoPath_spec:
  fixes "from" to :: Position and g i :: nat
  defines "dx \<equiv> x to - x from" and "dy \<equiv> y to - y from"
  defines "d \<equiv> hypot dx dy"
  defines "spacing \<equiv> min 160 (max 40 (d / 3))"
  defines "offset \<equiv> (real i - (real g - 1) / 2) * spacing"
  defines "mid \<equiv> \<lparr>x = (x from + x to) / 2, y = (y from + y to) / 2\<rparr>"
  shows
  "(d = 0 \<longleftrightarrow> x from = x to \<and> y from = y to) \<and>
   (g = 1 \<or> \<bar>offset\<bar> < 1 \<longrightarrow> computeAutoPath from to (real g) (real i) = [from, to]) \<and>
   (g \<noteq> 1 \<and> \<bar>offset\<bar> \<ge> 1 \<and> d \<noteq> 0 \<longrightarrow>
      computeAutoPath from to (real g) (real i) =
        [from, \<lparr>x = x mid + (- dy / d) * offset, y = y mid + (dx / d) * offset\<rparr>, to] \<and>
      (- dy / d)\<^sup>2 + (dx / d)\<^sup>2 = 1 \<and> (- dy / d) * dx + (dx / d) * dy = 0) \<and>
   (g \<noteq> 1 \<and> \<bar>offset\<bar> \<ge> 1 \<and> d = 0 \<longrightarrow>
      computeAutoPath from to (real g) (real i) = [from, mid, to]) \<and>
   computeAutoPath from to 3 1 = [from, to] \<and>
   (d \<noteq> 0 \<longrightarrow>
      computeAutoPath from to 3 0 =
        [from, \<lparr>x = x mid + (- dy / d) * (- spacing), y = y mid + (dx / d) * (- spacing)\<rparr>, to] \<and>
      computeAutoPath from to 3 2 =
        [from, \<lparr>x = x mid + (- dy / d) * spacing, y = y mid + (dx / d) * spacing\<rparr>, to])"
proof -
  define len where "len = (if hypot dx dy = 0 then 1 else hypot dx dy)"
  define sp where "sp = min 160 (max 40 (len / 3))"
  have sp_eq: "sp = spacing"
    by (simp add: sp_def spacing_def len_def d_def)
  have sp40: "40 \<le> spacing" by (simp add: spacing_def)
  have len_d: "d \<noteq> 0 \<Longrightarrow> len = d" by (simp add: len_def d_def)
  have midx: "x from + dx / 2 = x mid" by (simp add: mid_def dx_def field_simps)
  have midy: "y from + dy / 2 = y mid" by (simp add: mid_def dy_def field_simps)
  have mid_eta: "\<lparr>x = x mid, y = y mid\<rparr> = mid" by (simp add: mid_def)
  have gen0: "computeAutoPath from to gs idx =
     (if gs = 1 \<or> \<bar>(idx - (gs - 1) / 2) * sp\<bar> < 1 then [from, to]
      else [from, \<lparr>x = (x from + dx / 2) + (- dy / len) * ((idx - (gs - 1) / 2) * sp),
                   y = (y from + dy / 2) + (dx / len) * ((idx - (gs - 1) / 2) * sp)\<rparr>, to])" for gs idx
    by (rule computeAutoPath_eq) (simp_all add: dx_def dy_def len_def sp_def)
  note gen = gen0 [unfolded midx midy sp_eq]
  have c1: "g = 1 \<or> \<bar>offset\<bar> < 1 \<longrightarrow> computeAutoPath from to (real g) (real i) = [from, to]"
    unfolding gen offset_def by auto
  have c2: "g \<noteq> 1 \<and> \<bar>offset\<bar> \<ge> 1 \<and> d \<noteq> 0 \<longrightarrow>
      computeAutoPath from to (real g) (real i) =
        [from, \<lparr>x = x mid + (- dy / d) * offset, y = y mid + (dx / d) * offset\<rparr>, to]"
    unfolding gen offset_def using len_d by auto
  have unit: "(- dy / d)\<^sup>2 + (dx / d)\<^sup>2 = 1" if nz: "d \<noteq> 0"
  proof -
    have "(- dy / d)\<^sup>2 + (dx / d)\<^sup>2 = (dx\<^sup>2 + dy\<^sup>2) / d\<^sup>2"
      by (simp add: power_divide add_divide_distrib)
    also have "\<dots> = d\<^sup>2 / d\<^sup>2" by (simp add: d_def hypot_sq)
    also have "\<dots> = 1" using nz by simp
    finally show ?thesis .
  qed
  have perp: "(- dy / d) * dx + (dx / d) * dy = 0" by simp
  have c3: "g \<noteq> 1 \<and> \<bar>offset\<bar> \<ge> 1 \<and> d = 0 \<longrightarrow>
      computeAutoPath from to (real g) (real i) = [from, mid, to]"
  proof (intro impI)
    assume h: "g \<noteq> 1 \<and> \<bar>offset\<bar> \<ge> 1 \<and> d = 0"
    then have z: "dx = 0" "dy = 0" by (simp_all add: d_def hypot_eq_0_iff)
    from h show "computeAutoPath from to (real g) (real i) = [from, mid, to]"
      unfolding gen offset_def z by (auto simp add: mid_eta)
  qed
  have c4: "computeAutoPath from to 3 1 = [from, to]"
    unfolding gen by simp
  have c5: "computeAutoPath from to 3 0 =
        [from, \<lparr>x = x mid + (- dy / d) * (- spacing), y = y mid + (dx / d) * (- spacing)\<rparr>, to]"
    if nz: "d \<noteq> 0"
    unfolding gen using sp40 len_d [OF nz] by simp
  have c6: "computeAutoPath from to 3 2 =
        [from, \<lparr>x = x mid + (- dy / d) * spacing, y = y mid + (dx / d) * spacing\<rparr>, to]"
    if nz: "d \<noteq> 0"
    unfolding gen using sp40 len_d [OF nz] by simp
  have c0: "d = 0 \<longleftrightarrow> x from = x to \<and> y from = y to"
    by (auto simp add: d_def dx_def dy_def hypot_eq_0_iff)
  from c0 c1 c2 c3 c4 c5 c6 unit perp show ?thesis by blast
qed

theorem computeAutoPath_spec_witness:
  "computeAutoPath \<lparr>x = 0, y = 0\<rparr> \<lparr>x = 300, y = 400\<rparr> 1 0 = [\<lparr>x = 0, y = 0\<rparr>, \<lparr>x = 300, y = 400\<rparr>] \<and>
   computeAutoPath \<lparr>x = 0, y = 0\<rparr> \<lparr>x = 300, y = 400\<rparr> 2 0 =
     [\<lparr>x = 0, y = 0\<rparr>, \<lparr>x = 150 + 64, y = 200 - 48\<rparr>, \<lparr>x = 300, y = 400\<rparr>] \<and>
   computeAutoPath \<lparr>x = 5, y = 5\<rparr> \<lparr>x = 5, y = 5\<rparr> 2 0 =
     [\<lparr>x = 5, y = 5\<rparr>, \<lparr>x = 5, y = 5\<rparr>, \<lparr>x = 5, y = 5\<rparr>]"
  using computeAutoPath_spec [of "\<lparr>x = 300, y = 400\<rparr>" "\<lparr>x = 0, y = 0\<rparr>" 1 0]
    computeAutoPath_spec [of "\<lparr>x = 300, y = 400\<rparr>" "\<lparr>x = 0, y = 0\<rparr>" 2 0]
    computeAutoPath_spec [of "\<lparr>x = 5, y = 5\<rparr>" "\<lparr>x = 5, y = 5\<rparr>" 2 0]
  by (simp add: hypot_def)

section \<open>Properties of the renderer decisions\<close>

text \<open>
  C6, as the claim states it, at an out-of-range input: the utilization 1.5 does not get
  the neutral colour \<open>#5a646d\<close> (it gets the colour of the last bucket).
\<close>

theorem utilToColor_out_of_range_counterexample:
  "utilToColor (Some (Num 1.5)) \<noteq> ''#5a646d''"
  by (simp add: utilToColor_def UTILIZATION_BUCKETS_def)

text \<open>
  C6, amended. The table has exactly 8 buckets with the boundaries 0, 0.01, 0.2, 0.4, 0.6,
  0.8, 0.9, 0.99, 1.01, each bucket half-open; \<open>null\<close> and \<open>NaN\<close> map to the neutral
  colour \<open>#5a646d\<close>; a number in a bucket maps to that bucket's colour; and every
  other number (below 0, or 1.01 and above) maps to the colour of the last bucket,
  \<open>#991b1b\<close>, not to the neutral colour.
\<close>

theorem utilToColor_spec:
  "length UTILIZATION_BUCKETS = 8 \<and>
   map (\<lambda>b. (bucket_min b, bucket_max b)) UTILIZATION_BUCKETS =
     [(0, 0.01), (0.01, 0.2), (0.2, 0.4), (0.4, 0.6), (0.6, 0.8), (0.8, 0.9), (0.9, 0.99), (0.99, 1.01)] \<and>
   utilToColor None = ''#5a646d'' \<and>
   utilToColor (Some NaN) = ''#5a646d'' \<and>
   utilToColor (Some (Num u)) =
     (if 0 \<le> u \<and> u < 0.01 then ''#0ea5e9''
      else if 0.01 \<le> u \<and> u < 0.2 then ''#22c55e''
      else if 0.2 \<le> u \<and> u < 0.4 then ''#84cc16''
      else if 0.4 \<le> u \<and> u < 0.6 then ''#facc15''
      else if 0.6 \<le> u \<and> u < 0.8 then ''#f97316''
      else if 0.8 \<le> u \<and> u < 0.9 then ''#ea580c''
      else if 0.9 \<le> u \<and> u < 0.99 then ''#ef4444''
      else ''#991b1b'')"
  by (simp add: utilToColor_def UTILIZATION_BUCKETS_def)

text \<open>
  C7. A missing capacity, a missing range or a range minimum that is not positive gives
  width 2. For a range with positive minimum and \<open>min < max\<close> the width is 2 at the
  minimum and 14 at the maximum, and inside the range it is the log-linear interpolation
  between them. For every range with positive minimum the width is non-decreasing in
  the (positive) capacity. A range collapsed to a single value gives width 8.
\<close>

theorem capacityToWidth_spec:
  "capacityToWidth None rg = 2 \<and>
   capacityToWidth cap None = 2 \<and>
   (range_min r0 \<le> 0 \<longrightarrow> capacityToWidth cap (Some r0) = 2) \<and>
   (0 < mn \<and> mn < mx \<longrightarrow>
      capacityToWidth (Some mn) (Some \<lparr>range_min = mn, range_max = mx\<rparr>) = 2 \<and>
      capacityToWidth (Some mx) (Some \<lparr>range_min = mn, range_max = mx\<rparr>) = 14) \<and>
   (0 < mn \<and> mn < mx \<and> mn \<le> c \<and> c \<le> mx \<longrightarrow>
      capacityToWidth (Some c) (Some \<lparr>range_min = mn, range_max = mx\<rparr>) =
        2 + 12 * ((ln c - ln mn) / (ln mx - ln mn))) \<and>
   (0 < mn \<and> mn \<le> mx \<and> 0 < c1 \<and> c1 \<le> c2 \<longrightarrow>
      capacityToWidth (Some c1) (Some \<lparr>range_min = mn, range_max = mx\<rparr>)
        \<le> capacityToWidth (Some c2) (Some \<lparr>range_min = mn, range_max = mx\<rparr>)) \<and>
   (0 < mn \<and> 0 < c \<longrightarrow>
      capacityToWidth (Some c) (Some \<lparr>range_min = mn, range_max = mn\<rparr>) = 8)"
proof (intro conjI impI)
  show "capacityToWidth None rg = 2"
    by (simp add: capacityToWidth_def MIN_LINK_WIDTH_def)
  show "capacityToWidth cap None = 2"
    by (simp add: capacityToWidth_def MIN_LINK_WIDTH_def split: option.splits)
  show "capacityToWidth cap (Some r0) = 2" if "range_min r0 \<le> 0"
    using that by (simp add: capacityToWidth_def MIN_LINK_WIDTH_def split: option.splits)
next
  assume h: "0 < mn \<and> mn < mx"
  then have "ln mn < ln mx" by simp
  with h show "capacityToWidth (Some mn) (Some \<lparr>range_min = mn, range_max = mx\<rparr>) = 2"
    and "capacityToWidth (Some mx) (Some \<lparr>range_min = mn, range_max = mx\<rparr>) = 14"
    by (simp_all add: capacityToWidth_def MIN_LINK_WIDTH_def MAX_LINK_WIDTH_def Let_def)
next
  assume h: "0 < mn \<and> mn < mx \<and> mn \<le> c \<and> c \<le> mx"
  then have d: "0 < ln mx - ln mn" by simp
  from h have n: "0 \<le> ln c - ln mn" and m: "ln c - ln mn \<le> ln mx - ln mn" by simp_all
  from d n have t0: "0 \<le> (ln c - ln mn) / (ln mx - ln mn)" by simp
  from d m have t1: "(ln c - ln mn) / (ln mx - ln mn) \<le> 1" by simp
  from t0 t1 have tt: "min 1 (max 0 ((ln c - ln mn) / (ln mx - ln mn))) =
      (ln c - ln mn) / (ln mx - ln mn)" by simp
  from h have "c \<noteq> 0" "\<not> c \<le> 0" "\<not> mn \<le> 0" "mx \<noteq> mn" by simp_all
  then show "capacityToWidth (Some c) (Some \<lparr>range_min = mn, range_max = mx\<rparr>) =
        2 + 12 * ((ln c - ln mn) / (ln mx - ln mn))"
    by (simp add: capacityToWidth_def MIN_LINK_WIDTH_def MAX_LINK_WIDTH_def Let_def tt)
next
  assume h: "0 < mn \<and> mn \<le> mx \<and> 0 < c1 \<and> c1 \<le> c2"
  show "capacityToWidth (Some c1) (Some \<lparr>range_min = mn, range_max = mx\<rparr>)
        \<le> capacityToWidth (Some c2) (Some \<lparr>range_min = mn, range_max = mx\<rparr>)"
  proof (cases "mx = mn")
    case True
    with h show ?thesis
      by (simp add: capacityToWidth_def MIN_LINK_WIDTH_def MAX_LINK_WIDTH_def)
  next
    case False
    with h have d: "0 < ln mx - ln mn" by simp
    from h have "ln c1 - ln mn \<le> ln c2 - ln mn" by simp
    with d have "(ln c1 - ln mn) / (ln mx - ln mn) \<le> (ln c2 - ln mn) / (ln mx - ln mn)"
      by (simp add: divide_right_mono)
    then have "min 1 (max 0 ((ln c1 - ln mn) / (ln mx - ln mn)))
             \<le> min 1 (max 0 ((ln c2 - ln mn) / (ln mx - ln mn)))"
      by (simp add: min_def max_def)
    with h False show ?thesis
      by (simp add: capacityToWidth_def MIN_LINK_WIDTH_def MAX_LINK_WIDTH_def Let_def)
  qed
next
  assume "0 < mn \<and> 0 < c"
  then show "capacityToWidth (Some c) (Some \<lparr>range_min = mn, range_max = mn\<rparr>) = 8"
    by (simp add: capacityToWidth_def MIN_LINK_WIDTH_def MAX_LINK_WIDTH_def)
qed

theorem capacityToWidth_spec_witness:
  "capacityToWidth (Some 10) (Some \<lparr>range_min = 10, range_max = 1000\<rparr>) = 2 \<and>
   capacityToWidth (Some 1000) (Some \<lparr>range_min = 10, range_max = 1000\<rparr>) = 14 \<and>
   capacityToWidth (Some 10) (Some \<lparr>range_min = 10, range_max = 1000\<rparr>)
     \<le> capacityToWidth (Some 100) (Some \<lparr>range_min = 10, range_max = 1000\<rparr>) \<and>
   capacityToWidth (Some 10) (Some \<lparr>range_min = 10, range_max = 10\<rparr>) = 8 \<and>
   capacityToWidth (Some 10) (Some \<lparr>range_min = 0, range_max = 10\<rparr>) = 2"
  using capacityToWidth_spec [of None "Some 10" "\<lparr>range_min = 0, range_max = 10\<rparr>" 10 1000 10 10 100]
    capacityToWidth_spec [of None "Some 10" "\<lparr>range_min = 0, range_max = 10\<rparr>" 10 10 10 10 100]
  by simp

lemma utilToColor_frontend_eq: "utilToColor_frontend u = utilToColor u"
  by (simp add: utilToColor_frontend_def utilToColor_def)

lemma capacityToWidth_frontend_eq: "capacityToWidth_frontend r c = capacityToWidth c r"
  by (simp add: capacityToWidth_frontend_def capacityToWidth_def)

lemma drift_links:
  "MetricsPayload.links drift_metrics =
     [\<lparr>LinkMetrics.id' = ''l1'', LinkMetrics.label = None, LinkMetrics.from = ''a'',
       LinkMetrics.to = ''b'',
       forward = Some (publishInterface (snd (hd (RouterSample.interfaces drift_sample)))),
       reverse = Some (publishInterface (snd (hd (RouterSample.interfaces drift_sample)))),
       aggregateUtilization = Some 0.5\<rparr>]"
  by (simp add: drift_metrics_def drift_topology_def drift_sample_def drift_interface_def
      toRouterMetrics_def toLinkMetrics_def lookupInterface_def utilisationForInterface_def
      publishInterface_def truthy_def Let_def del: not_None_eq)

lemma drift_router_capacity:
  "interfaceMetricCapacity (Some drift_metrics) ''a'' ''e0'' = Some 1000"
  "interfaceMetricCapacity (Some drift_metrics) ''b'' ''e0'' = Some 1000"
  by (simp_all add: drift_metrics_def drift_topology_def drift_sample_def drift_interface_def
      toRouterMetrics_def interfaceMetricCapacity_def publishInterface_def truthy_def Let_def)

lemma map_concat_cong:
  "(\<And>l. l \<in> set xs \<Longrightarrow> map F (g1 l) = map F (g2 l)) \<Longrightarrow>
   map F (concat (map g1 xs)) = map F (concat (map g2 xs))"
  by (induction xs) simp_all

text \<open>For every topology and payload the two renderers choose the same colours.\<close>

lemma renderers_agree_on_colours:
  "map (\<lambda>(i, s). (i, forwardColor s, reverseColor s)) (draw topo (Some m)) =
   map (\<lambda>(i, s). (i, forwardColor s, reverseColor s)) (renderMapSnapshot topo m)"
  unfolding draw_def renderMapSnapshot_def Let_def
  by (rule map_concat_cong) (simp add: buildRouterMap_def utilToColor_frontend_eq)

text \<open>
  C5, at a concrete input. For the topology and payload above, the offline renderer finds
  no capacity for the link (it reads the static capacities of the topology only) and
  draws it with width 2, while the interactive renderer takes the probed capacity from
  the metrics and draws it with width 8. The colours are the same, as they are for
  every input (\<open>renderers_agree_on_colours\<close>).
\<close>

theorem renderers_disagree_on_width:
  "renderMapSnapshot drift_topology drift_metrics =
     [(''l1'', \<lparr>width = 2, forwardColor = ''#facc15'', reverseColor = ''#facc15''\<rparr>)] \<and>
   draw drift_topology (Some drift_metrics) =
     [(''l1'', \<lparr>width = 8, forwardColor = ''#facc15'', reverseColor = ''#facc15''\<rparr>)]"
proof
  show "renderMapSnapshot drift_topology drift_metrics =
     [(''l1'', \<lparr>width = 2, forwardColor = ''#facc15'', reverseColor = ''#facc15''\<rparr>)]"
    unfolding renderMapSnapshot_def drift_links
    by (simp add: drift_topology_def drift_interface_def drift_sample_def
        computeLinkCapacities_def buildRouterMap_def getInterfaceCapacity_def
        positiveCandidates_def interfaceUtilization_def publishInterface_def
        capacityToWidth_def MIN_LINK_WIDTH_def utilToColor_def UTILIZATION_BUCKETS_def Let_def)
  show "draw drift_topology (Some drift_metrics) =
     [(''l1'', \<lparr>width = 8, forwardColor = ''#facc15'', reverseColor = ''#facc15''\<rparr>)]"
    unfolding draw_def rebuildLinkCapacities_def
    by (simp add: drift_links drift_router_capacity)
      (simp add: drift_topology_def drift_interface_def drift_sample_def drift_router_capacity
        positiveCandidates_def interfaceUtilization_def publishInterface_def minList_def maxList_def
        capacityToWidth_frontend_def MIN_LINK_WIDTH_def MAX_LINK_WIDTH_def
        utilToColor_frontend_def UTILIZATION_BUCKETS_def Let_def)
qed

section \<open>Properties of the poll loop\<close>

text \<open>
  C9. When \<open>pollRouters\<close> fails, the last published payload is unchanged, \<open>GET
  /api/metrics\<close> answers as before, and nothing is broadcast; and whatever the outcome
  of the cycle, \<open>pollLoop\<close> sets exactly one timer for its next run, with the configured
  interval. Both revisions of \<open>pollLoop\<close> behave so.
\<close>

theorem pollLoop_failed_cycle:
  "latestMetrics (pollLoop (cycle\<lparr>polled := Inl message\<rparr>) st) = latestMetrics st \<and>
   apiMetrics (pollLoop (cycle\<lparr>polled := Inl message\<rparr>) st) = apiMetrics st \<and>
   broadcasts (pollLoop (cycle\<lparr>polled := Inl message\<rparr>) st) = broadcasts st \<and>
   timers (pollLoop (cycle\<lparr>polled := Inl message\<rparr>) st) =
     timers st @ [RuntimeConfig.pollIntervalMs (config st)] \<and>
   timers (pollLoop cycle st) = timers st @ [RuntimeConfig.pollIntervalMs (config st)] \<and>
   latestMetrics (pollLoop_v1 (cycle\<lparr>polled := Inl message\<rparr>) st) = latestMetrics st \<and>
   apiMetrics (pollLoop_v1 (cycle\<lparr>polled := Inl message\<rparr>) st) = apiMetrics st \<and>
   timers (pollLoop_v1 cycle st) = timers st @ [RuntimeConfig.pollIntervalMs (config st)]"
  by (simp add: pollLoop_def pollLoop_v1_def setTimeout_def apiMetrics_def broadcast_def
      saveSnapshotImage_def Let_def split: sum.splits)

end
